(* ===== verification/Prelude.thy ===== *)
theory Prelude
  imports Main
begin

text \<open>
  Shared vocabulary of the development: JavaScript strings as lists of UTF-16 code units,
  the named theorem collections of the component theories, the generic list lemmas they
  share, and the reachability locale that the state machines interpret.
\<close>

section \<open>Collections of rewrite rules\<close>

named_theorems js_num_simps \<open>evaluation of number operations on exactly representable values\<close>
named_theorems js_str_simps \<open>laws of the string operations\<close>
named_theorems app_simps \<open>definitions unfolded when a handler of the App component is run\<close>
named_theorems effect_simps \<open>definitions unfolded when the subscription effect is run\<close>

section \<open>JavaScript strings\<close>

text \<open>
  A JavaScript string is a sequence of UTF-16 code units, and its length, its slices and
  its comparisons count code units. A code unit is an integer here; no operation of the
  program depends on its bounds 0 and 65535. A literal of the source is written
  \<open>js ''abc''\<close>.
\<close>

type_synonym js_char = int
type_synonym js_string = "js_char list"

definition js :: "string \<Rightarrow> js_string" where
  "js s = map of_char s"

lemma js_Nil [simp]: "js [] = []"
  by (simp add: js_def)

lemma js_Cons [simp]: "js (c # cs) = of_char c # js cs"
  by (simp add: js_def)

lemma length_js [simp]: "length (js s) = length s"
  by (simp add: js_def)

text \<open>Lower case of the ASCII letters.\<close>

definition ascii_lower :: "js_char \<Rightarrow> js_char" where
  "ascii_lower c = (if 65 \<le> c \<and> c \<le> 90 then c + 32 else c)"

section \<open>Lists\<close>

lemma dropWhile_id [simp]: "(\<forall>x. xs \<noteq> [] \<longrightarrow> x = hd xs \<longrightarrow> \<not> P x) \<Longrightarrow> dropWhile P xs = xs"
  by (cases xs) auto

lemma hd_dropWhile_not: "dropWhile P xs \<noteq> [] \<Longrightarrow> \<not> P (hd (dropWhile P xs))"
  by (induction xs) auto

lemma set_dropWhile_subset: "set (dropWhile P xs) \<subseteq> set xs"
  by (induction xs) auto

lemma last_dropWhile: "dropWhile P xs \<noteq> [] \<Longrightarrow> last (dropWhile P xs) = last xs"
  by (induction xs) (auto split: if_splits)

lemma concat_map_filter_drop:
  assumes "\<And>x. x \<in> set xs \<Longrightarrow> \<not> P x \<Longrightarrow> f x = []"
  shows "concat (map f (filter P xs)) = concat (map f xs)"
  using assms by (induction xs) auto

section \<open>Reachable states\<close>

text \<open>
  A transition system is a predicate on start states and a step relation. An invariant
  holds at the start and is kept by every step from a state that satisfies it.
\<close>

locale transition_system =
  fixes start :: "'s \<Rightarrow> bool"
    and step :: "'s \<Rightarrow> 's \<Rightarrow> bool"
begin

inductive reach :: "'s \<Rightarrow> bool" where
  reach_start: "start s \<Longrightarrow> reach s"
| reach_step: "reach s \<Longrightarrow> step s t \<Longrightarrow> reach t"

lemma reach_invariant:
  assumes "\<And>s. start s \<Longrightarrow> I s"
    and "\<And>s t. reach s \<Longrightarrow> I s \<Longrightarrow> step s t \<Longrightarrow> I t"
    and "reach s"
  shows "I s"
  using assms(3) by (induction rule: reach.induct) (auto intro: assms(1,2))

end

text \<open>
  In a terminating system every step lowers a measure. A run is then no longer than the
  measure of its first state, and every state leads to one without a next step.
\<close>

locale terminating_system = transition_system start step
  for start :: "'s \<Rightarrow> bool" and step :: "'s \<Rightarrow> 's \<Rightarrow> bool" +
  fixes weight :: "'s \<Rightarrow> nat"
  assumes step_lowers: "step s t \<Longrightarrow> weight t < weight s"
begin

lemma run_bounded: "(step ^^ n) s t \<Longrightarrow> n + weight t \<le> weight s"
proof (induction n arbitrary: t)
  case (Suc n)
  then obtain u where "(step ^^ n) s u" "step u t" by auto
  with Suc.IH [of u] step_lowers [of u t] show ?case by simp
qed simp

lemma run_ends: "\<exists>n t. (step ^^ n) s t \<and> (\<forall>u. \<not> step t u)"
proof (induction "weight s" arbitrary: s rule: less_induct)
  case less
  show ?case
  proof (cases "\<exists>u. step s u")
    case True
    then obtain u where u: "step s u" ..
    from less [OF step_lowers [OF u]] obtain n t where "(step ^^ n) u t" "\<forall>v. \<not> step t v" by blast
    moreover from this(1) u have "(step ^^ Suc n) s t" by (rule relpowp_Suc_I2 [rotated])
    ultimately show ?thesis by blast
  next
    case False
    then have "(step ^^ 0) s s \<and> (\<forall>u. \<not> step s u)" by simp
    then show ?thesis by blast
  qed
qed

lemma reach_run: "(step ^^ n) s t \<Longrightarrow> reach s \<Longrightarrow> reach t"
  by (induction n arbitrary: t) (auto intro: reach_step)

end

end
