(* ===== verification/JsNum.thy ===== *)
theory JsNum
  imports Prelude "HOL-Library.Log_Nat"
begin

text \<open>
  JavaScript numbers. A number is an IEEE 754 binary64 value: a finite one is the rational
  it denotes, and every arithmetic operation is the exact rational operation followed by
  rounding to the nearest representable value, ties to even, with overflow to infinity and
  gradual underflow. The two zeros are one value here: the program never divides by a
  computed zero and prints both as 0. The theory also holds the parts of the language's
  library that the program calls on numbers (\<open>Math.floor\<close>, \<open>Math.round\<close>,
  \<open>Math.abs\<close>, \<open>Math.max\<close>, \<open>Math.min\<close>, \<open>toFixed\<close>, conversion to a string), and
  the exactness lemmas under which the components compute without rounding error.
\<close>

section \<open>Rounding to binary64\<close>

datatype js_number = Fin rat | PInf | NInf | NaN

text \<open>
  A call returns \<open>Inr v\<close> or throws, \<open>Inl e\<close>. The backend rejects with a string; a
  timeout carries the command and the limit its message names; \<open>Undefined\<close> is the value
  \<open>throw lastErr\<close> throws when no attempt was made.
\<close>

datatype js_error = RangeError js_string | ReferenceError js_string
  | SyntaxError js_string | InvokeTimeout js_string js_number | Rejected js_string | Undefined

type_synonym 'a result = "js_error + 'a"

text \<open>Powers of two with an integer exponent, kept folded in the proofs.\<close>

definition pow2 :: "int \<Rightarrow> rat" where
  "pow2 e = 2 powi e"

text \<open>The exponent of a positive rational: \<open>pow2 (ilog2 x) \<le> x < pow2 (ilog2 x + 1)\<close>.\<close>

definition ilog2 :: "rat \<Rightarrow> int" where
  "ilog2 x =
     (let (a, b) = quotient_of x; e = bitlen a - bitlen b
      in if x < pow2 e then e - 1 else e)"

definition round_even :: "rat \<Rightarrow> int" where
  "round_even x =
     (let f = \<lfloor>x\<rfloor>; r = x - of_int f
      in if r < 1 / 2 then f else if 1 / 2 < r then f + 1 else if even f then f else f + 1)"

definition quantum :: "rat \<Rightarrow> rat" where
  "quantum x = pow2 (max (ilog2 \<bar>x\<bar>) (- 1022) - 52)"

definition to_double :: "rat \<Rightarrow> js_number" where
  "to_double x =
     (if x = 0 then Fin 0
      else let y = of_int (round_even (x / quantum x)) * quantum x
           in if \<bar>y\<bar> < pow2 1024 then Fin y else if 0 < x then PInf else NInf)"

text \<open>The rationals that are finite binary64 values.\<close>

definition is_double :: "rat \<Rightarrow> bool" where
  "is_double x \<longleftrightarrow> to_double x = Fin x"

definition wf_number :: "js_number \<Rightarrow> bool" where
  "wf_number n = (case n of Fin x \<Rightarrow> is_double x | _ \<Rightarrow> True)"

section \<open>Operators\<close>

fun js_neg :: "js_number \<Rightarrow> js_number" where
  "js_neg (Fin x) = Fin (- x)"
| "js_neg PInf = NInf"
| "js_neg NInf = PInf"
| "js_neg NaN = NaN"

fun js_add :: "js_number \<Rightarrow> js_number \<Rightarrow> js_number" where
  "js_add (Fin x) (Fin y) = to_double (x + y)"
| "js_add NaN _ = NaN"
| "js_add _ NaN = NaN"
| "js_add PInf NInf = NaN"
| "js_add NInf PInf = NaN"
| "js_add PInf _ = PInf"
| "js_add _ PInf = PInf"
| "js_add NInf _ = NInf"
| "js_add _ NInf = NInf"

definition js_sub :: "js_number \<Rightarrow> js_number \<Rightarrow> js_number" where
  "js_sub m n = js_add m (js_neg n)"

fun js_sign :: "js_number \<Rightarrow> int" where
  "js_sign (Fin x) = (if 0 < x then 1 else if x < 0 then -1 else 0)"
| "js_sign PInf = 1"
| "js_sign NInf = -1"
| "js_sign NaN = 0"

definition js_inf :: "int \<Rightarrow> js_number" where
  "js_inf s = (if 0 < s then PInf else if s < 0 then NInf else NaN)"

fun js_mul :: "js_number \<Rightarrow> js_number \<Rightarrow> js_number" where
  "js_mul (Fin x) (Fin y) = to_double (x * y)"
| "js_mul NaN _ = NaN"
| "js_mul _ NaN = NaN"
| "js_mul m n = js_inf (js_sign m * js_sign n)"

fun js_div :: "js_number \<Rightarrow> js_number \<Rightarrow> js_number" where
  "js_div (Fin x) (Fin y) = (if y = 0 then js_inf (js_sign (Fin x)) else to_double (x / y))"
| "js_div NaN _ = NaN"
| "js_div _ NaN = NaN"
| "js_div (Fin x) _ = Fin 0"
| "js_div m (Fin y) = (if y < 0 then js_neg m else m)"
| "js_div _ _ = NaN"

fun js_lt :: "js_number \<Rightarrow> js_number \<Rightarrow> bool" where
  "js_lt (Fin x) (Fin y) = (x < y)"
| "js_lt NaN _ = False"
| "js_lt _ NaN = False"
| "js_lt PInf _ = False"
| "js_lt _ NInf = False"
| "js_lt _ _ = True"

fun js_eq :: "js_number \<Rightarrow> js_number \<Rightarrow> bool" where
  "js_eq NaN _ = False"
| "js_eq _ NaN = False"
| "js_eq m n = (m = n)"

definition js_le :: "js_number \<Rightarrow> js_number \<Rightarrow> bool" where
  "js_le m n = (js_lt m n \<or> js_eq m n)"

fun is_finite :: "js_number \<Rightarrow> bool" where
  "is_finite (Fin x) = True"
| "is_finite _ = False"

section \<open>The Math functions\<close>

fun math_floor :: "js_number \<Rightarrow> js_number" where
  "math_floor (Fin x) = Fin (of_int \<lfloor>x\<rfloor>)"
| "math_floor n = n"

fun math_round :: "js_number \<Rightarrow> js_number" where
  "math_round (Fin x) = Fin (of_int \<lfloor>x + 1 / 2\<rfloor>)"
| "math_round n = n"

fun math_abs :: "js_number \<Rightarrow> js_number" where
  "math_abs (Fin x) = Fin \<bar>x\<bar>"
| "math_abs NaN = NaN"
| "math_abs _ = PInf"

definition math_max :: "js_number \<Rightarrow> js_number \<Rightarrow> js_number" where
  "math_max m n = (if m = NaN \<or> n = NaN then NaN else if js_lt m n then n else m)"

definition math_min :: "js_number \<Rightarrow> js_number \<Rightarrow> js_number" where
  "math_min m n = (if m = NaN \<or> n = NaN then NaN else if js_lt n m then n else m)"

section \<open>Decimal notation\<close>

text \<open>The decimal digits of a non-negative integer.\<close>

function digits10 :: "int \<Rightarrow> js_string" where
  "digits10 i = (if i < 10 then [48 + i] else digits10 (i div 10) @ [48 + i mod 10])"
  by pat_completeness auto
termination
  by (relation "measure nat") auto

declare digits10.simps [simp del]

definition int_digits :: "int \<Rightarrow> js_string" where
  "int_digits i = (if i < 0 then js ''-'' @ digits10 (- i) else digits10 i)"

text \<open>
  \<open>Number::toString\<close> of a number at least \<open>10 ^ 21\<close>: the shortest digit string that
  rounds to the number, in exponent notation.
\<close>

definition shortest_at :: "rat \<Rightarrow> nat \<Rightarrow> nat \<Rightarrow> int \<times> nat \<times> nat" where
  "shortest_at x n k =
     (let s = \<lfloor>x / 10 ^ (n - k) + 1 / 2\<rfloor> in if s = 10 ^ k then (1, n + 1, 1) else (s, n, k))"

definition big_to_string :: "rat \<Rightarrow> js_string" where
  "big_to_string x =
     (let n = length (digits10 \<lfloor>x\<rfloor>);
          ok = (\<lambda>k. case shortest_at x n k of (s, n', k') \<Rightarrow>
                  to_double (of_int s * 10 ^ (n' - k')) = Fin x);
          k = (case filter ok [1..<17] of [] \<Rightarrow> 17 | k # _ \<Rightarrow> k)
      in case shortest_at x n k of (s, n', k') \<Rightarrow>
           (case digits10 s of [] \<Rightarrow> []
            | d # ds \<Rightarrow> d # (if ds = [] then [] else js ''.'' @ ds) @ js ''e+'' @ digits10 (int n' - 1)))"

text \<open>\<open>Number.prototype.toFixed\<close>: round half up at the last digit kept.\<close>

definition fixed_abs :: "rat \<Rightarrow> nat \<Rightarrow> js_string" where
  "fixed_abs x f =
     (if 10 ^ 21 \<le> x then big_to_string x
      else let m = digits10 \<lfloor>x * 10 ^ f + 1 / 2\<rfloor>
           in if f = 0 then m
              else let m' = replicate (f + 1 - length m) 48 @ m; k = length m' - f
                   in take k m' @ js ''.'' @ drop k m')"

fun to_fixed :: "js_number \<Rightarrow> int \<Rightarrow> js_string result" where
  "to_fixed n f =
     (if f < 0 \<or> 100 < f
      then Inl (RangeError (js ''toFixed() digits argument must be between 0 and 100''))
      else Inr (case n of
          Fin x \<Rightarrow> (if x < 0 then js ''-'' else []) @ fixed_abs \<bar>x\<bar> (nat f)
        | PInf \<Rightarrow> js ''Infinity'' | NInf \<Rightarrow> js ''-Infinity'' | NaN \<Rightarrow> js ''NaN''))"

section \<open>Exactness\<close>

lemma pow2_pos [simp]: "0 < pow2 e" and pow2_nonneg [simp]: "0 \<le> pow2 e"
  and pow2_nonzero [simp]: "pow2 e \<noteq> 0"
  by (simp_all add: pow2_def)

lemma pow2_add: "pow2 (m + n) = pow2 m * pow2 n"
  by (simp add: pow2_def power_int_add)

lemma pow2_diff: "pow2 (m - n) = pow2 m / pow2 n"
  by (simp add: pow2_def power_int_diff)

lemma pow2_le_iff [simp]: "pow2 m \<le> pow2 n \<longleftrightarrow> m \<le> n"
proof -
  have "m < n \<Longrightarrow> pow2 m < pow2 n" for m n
    unfolding pow2_def by (rule power_int_strict_increasing) auto
  then show ?thesis by (metis linorder_not_le order_le_less)
qed

lemma pow2_less_iff [simp]: "pow2 m < pow2 n \<longleftrightarrow> m < n"
  by (meson not_le pow2_le_iff)

lemma pow2_nat: "0 \<le> e \<Longrightarrow> pow2 e = of_int (2 ^ nat e)"
  by (simp add: pow2_def power_int_def)

lemma bitlen_pow2:
  assumes "0 < a"
  shows "pow2 (bitlen a - 1) \<le> of_int a" "of_int a < pow2 (bitlen a)"
proof -
  have pos: "1 \<le> bitlen a"
    using assms bitlen_eq_zero_iff [of a] bitlen_nonneg [of a] by simp
  then show "pow2 (bitlen a - 1) \<le> of_int a" "of_int a < pow2 (bitlen a)"
    using bitlen_bounds [OF assms]
    by (simp_all only: pow2_nat of_int_le_iff of_int_less_iff)
qed

lemma ilog2_bounds:
  assumes "0 < x"
  shows "pow2 (ilog2 x) \<le> x" "x < pow2 (ilog2 x + 1)"
proof -
  obtain a b where q: "quotient_of x = (a, b)" by fastforce
  have b: "0 < b" using quotient_of_denom_pos [OF q] .
  have x: "x = of_int a / of_int b" using quotient_of_div [OF q] .
  have a: "0 < a" using assms b by (simp add: x zero_less_divide_iff)
  note A = bitlen_pow2 [OF a] and B = bitlen_pow2 [OF b]
  let ?e = "bitlen a - bitlen b"
  have "x < pow2 (bitlen a) / pow2 (bitlen b - 1)"
    unfolding x using A B a b by (intro frac_less) auto
  also have "\<dots> = pow2 (?e + 1)"
    by (simp only: diff_diff_eq2 flip: pow2_diff) (simp add: algebra_simps)
  finally have up: "x < pow2 (?e + 1)" .
  have "pow2 (?e - 1) = pow2 (bitlen a - 1) / pow2 (bitlen b)"
    by (simp flip: pow2_diff add: algebra_simps)
  also have "\<dots> \<le> x"
    unfolding x using A B a b by (intro frac_le) auto
  finally have low: "pow2 (?e - 1) \<le> x" .
  show "pow2 (ilog2 x) \<le> x" "x < pow2 (ilog2 x + 1)"
    using up low by (auto simp: ilog2_def q Let_def not_less)
qed

lemma ilog2_less: "0 < x \<Longrightarrow> x < pow2 e \<Longrightarrow> ilog2 x < e"
  using ilog2_bounds(1) [of x] by (meson le_less_trans pow2_less_iff)

lemma ilog2_ge: "0 < x \<Longrightarrow> pow2 e \<le> x \<Longrightarrow> e \<le> ilog2 x"
  using ilog2_bounds(2) [of x] by (smt (verit) le_less_trans pow2_less_iff)

lemma round_even_int [simp]: "round_even (of_int n) = n"
  by (simp add: round_even_def)

lemma round_even_0 [simp]: "round_even 0 = 0"
  by (simp add: round_even_def)

lemma round_even_ge_1: "1 \<le> z \<Longrightarrow> 1 \<le> round_even z"
  by (auto simp: round_even_def Let_def le_floor_iff)

lemma round_even_le: "round_even z \<le> \<lfloor>z\<rfloor> + 1"
  unfolding round_even_def Let_def by (simp split: if_split)

lemma round_even_le_m1: "z \<le> -1 \<Longrightarrow> round_even z \<le> -1"
proof -
  assume z: "z \<le> -1"
  show ?thesis
  proof (cases "\<lfloor>z\<rfloor> \<le> -2")
    case True
    then show ?thesis using round_even_le [of z] by linarith
  next
    case False
    then have "-1 \<le> \<lfloor>z\<rfloor>" by linarith
    then have "z = of_int (-1)" using z by (simp add: le_floor_iff)
    then show ?thesis by (simp only: round_even_int)
  qed
qed

lemma quantum_pos [simp]: "0 < quantum x" and quantum_nonzero [simp]: "quantum x \<noteq> 0"
  by (simp_all add: quantum_def)

lemma to_double_exact:
  assumes "x = of_int n * quantum x" "\<bar>x\<bar> < pow2 1024"
  shows "to_double x = Fin x"
proof -
  have "x / quantum x = of_int n"
    using assms(1) by (metis nonzero_mult_div_cancel_right quantum_nonzero)
  then have "of_int (round_even (x / quantum x)) * quantum x = x"
    using assms(1) by simp
  then show ?thesis using assms(2) by (simp add: to_double_def)
qed

lemma pow2_multiple: "e \<le> k \<Longrightarrow> pow2 k = of_int (2 ^ nat (k - e)) * pow2 e"
  by (simp only: pow2_nat [symmetric] pow2_add [symmetric] diff_ge_0_iff_ge) simp

lemma quantum_div:
  assumes "m \<noteq> 0" "\<bar>m\<bar> < 2 ^ 53" "- 1074 \<le> k"
  shows "\<exists>n. of_int m * pow2 k = of_int n * quantum (of_int m * pow2 k)"
proof -
  let ?x = "of_int m * pow2 k"
  let ?e = "max (ilog2 \<bar>?x\<bar>) (- 1022) - 52"
  have "(of_int \<bar>m\<bar> :: rat) < pow2 53"
    using assms(2) by (simp only: pow2_nat of_int_less_iff) simp
  then have "\<bar>?x\<bar> < pow2 (53 + k)"
    by (simp add: abs_mult pow2_add)
  then have "ilog2 \<bar>?x\<bar> < 53 + k" using assms(1) by (intro ilog2_less) auto
  then have "?e \<le> k" using assms(3) by linarith
  then have "?x = of_int (m * 2 ^ nat (k - ?e)) * quantum ?x"
    unfolding quantum_def by (subst pow2_multiple [of ?e k]) simp_all
  then show ?thesis by blast
qed

lemma is_double_dyadic_less:
  assumes "\<bar>m\<bar> < 2 ^ 53" "- 1074 \<le> k" "\<bar>of_int m * pow2 k\<bar> < pow2 1024"
  shows "is_double (of_int m * pow2 k)"
proof (cases "m = 0")
  case True
  then show ?thesis by (simp add: is_double_def to_double_def)
next
  case False
  then obtain n where "of_int m * pow2 k = of_int n * quantum (of_int m * pow2 k)"
    using quantum_div assms by blast
  then show ?thesis using assms(3) by (metis is_double_def to_double_exact)
qed

lemma is_double_dyadic:
  assumes "\<bar>m\<bar> \<le> 2 ^ 53" "- 1074 \<le> k" "\<bar>of_int m * pow2 k\<bar> < pow2 1024"
  shows "is_double (of_int m * pow2 k)"
proof (cases "\<bar>m\<bar> = 2 ^ 53")
  case True
  then have "m = sgn m * 2 ^ 53"
    by (metis mult.commute mult_sgn_abs)
  then have eq: "of_int m * pow2 k = of_int (sgn m) * pow2 (k + 53)"
    by (metis (no_types) add.commute mult.assoc of_int_mult pow2_add pow2_nat nat_numeral zero_le_numeral)
  have "\<bar>sgn m\<bar> < 2 ^ 53" by (simp add: sgn_if)
  then show ?thesis using assms(2,3) unfolding eq by (intro is_double_dyadic_less) auto
next
  case False
  with assms show ?thesis by (intro is_double_dyadic_less) auto
qed

lemma is_double_int:
  assumes "\<bar>n\<bar> \<le> 2 ^ 53"
  shows "is_double (of_int n)"
proof -
  have "(of_int \<bar>n\<bar> :: rat) \<le> pow2 53"
    using assms by (simp only: pow2_nat of_int_le_iff) simp
  also have "\<dots> < pow2 1024" by simp
  finally have "\<bar>of_int n * pow2 0\<bar> < pow2 1024" by (simp add: pow2_def)
  then show ?thesis using is_double_dyadic [OF assms, of 0] by (simp add: pow2_def)
qed

lemma is_double_quantum:
  assumes "is_double x"
  shows "x = of_int (round_even (x / quantum x)) * quantum x" "\<bar>x\<bar> < pow2 1024"
  using assms by (auto simp: is_double_def to_double_def Let_def split: if_splits)

lemma quantum_minus [simp]: "quantum (- x) = quantum x"
  by (simp add: quantum_def)

lemma is_double_uminus:
  assumes "is_double x"
  shows "is_double (- x)"
proof -
  have "- x = of_int (- round_even (x / quantum x)) * quantum (- x)"
    using is_double_quantum(1) [OF assms] by simp
  moreover have "\<bar>- x\<bar> < pow2 1024" using is_double_quantum(2) [OF assms] by simp
  ultimately show ?thesis unfolding is_double_def by (rule to_double_exact)
qed

lemma is_double_abs: "is_double x \<Longrightarrow> is_double \<bar>x\<bar>"
  by (auto simp: abs_if is_double_uminus)

lemma is_double_multiple:
  assumes "is_double x"
  shows "\<exists>n. x = of_int n * pow2 (- 1074)"
proof -
  let ?e = "max (ilog2 \<bar>x\<bar>) (- 1022) - 52"
  have "- 1074 \<le> ?e" by simp
  then have "x = of_int (round_even (x / quantum x) * 2 ^ nat (?e + 1074)) * pow2 (- 1074)"
    using is_double_quantum(1) [OF assms] pow2_multiple [of "- 1074" ?e]
    by (simp add: quantum_def)
  then show ?thesis by blast
qed

lemma to_double_sign:
  assumes "x = of_int n * pow2 (- 1074)"
  shows "js_sign (to_double x) = (if 0 < x then 1 else if x < 0 then - 1 else 0)"
proof -
  have big: "quantum x \<le> \<bar>x\<bar>" if "x \<noteq> 0"
  proof (cases "ilog2 \<bar>x\<bar> \<le> - 1022")
    case True
    then have "quantum x = pow2 (- 1074)" by (simp add: quantum_def max_def)
    moreover have "1 \<le> \<bar>n\<bar>" using that assms by auto
    then have "1 * pow2 (- 1074) \<le> of_int \<bar>n\<bar> * pow2 (- 1074)"
      by (intro mult_right_mono) (auto simp del: of_int_abs)
    ultimately show ?thesis using assms by (simp add: abs_mult)
  next
    case False
    then have "quantum x \<le> pow2 (ilog2 \<bar>x\<bar>)" by (simp add: quantum_def)
    then show ?thesis using ilog2_bounds(1) [of "\<bar>x\<bar>"] that by linarith
  qed
  consider "x = 0" | "0 < x" | "x < 0" by linarith
  then show ?thesis
  proof cases
    case 1
    then show ?thesis by (simp add: to_double_def)
  next
    case 2
    then have "1 \<le> x / quantum x" using big by (simp add: field_simps)
    from round_even_ge_1 [OF this] 2 show ?thesis
      by (auto simp: to_double_def Let_def)
  next
    case 3
    then have "x / quantum x \<le> - 1" using big by (simp add: field_simps)
    from round_even_le_m1 [OF this] have "of_int (round_even (x / quantum x)) * quantum x < 0"
      by (intro mult_neg_pos) simp_all
    with 3 show ?thesis by (auto simp: to_double_def Let_def)
  qed
qed

lemma js_sub_sign:
  assumes "is_double x" "is_double y"
  shows "js_sign (js_sub (Fin x) (Fin y)) = (if y < x then 1 else if x < y then - 1 else 0)"
proof -
  obtain m n where "x = of_int m * pow2 (- 1074)" "y = of_int n * pow2 (- 1074)"
    using assms is_double_multiple by blast
  then have "x - y = of_int (m - n) * pow2 (- 1074)"
    by (simp add: algebra_simps)
  from to_double_sign [OF this] show ?thesis by (simp add: js_sub_def)
qed

lemma js_sign_mul_unit:
  "js_sign (js_mul n (Fin 1)) = js_sign n" if "wf_number n"
  using that by (cases n) (auto simp: wf_number_def is_double_def js_inf_def)

lemma to_double_int [js_num_simps]: "\<bar>n\<bar> \<le> 2 ^ 53 \<Longrightarrow> to_double (of_int n) = Fin (of_int n)"
  using is_double_int by (simp add: is_double_def)

lemma is_double_scale:
  assumes "is_double x" "pow2 (k - 1022) \<le> \<bar>x\<bar>" "0 \<le> k"
  shows "is_double (x / pow2 k)"
proof -
  have x: "0 < \<bar>x\<bar>" using assms(2) pow2_pos [of "k - 1022"] by linarith
  let ?e = "ilog2 \<bar>x\<bar>"
  have e: "k - 1022 \<le> ?e" using assms(2) x by (intro ilog2_ge)
  then have q: "quantum x = pow2 (?e - 52)" using assms(3) by (simp add: quantum_def max_absorb1)
  let ?n = "round_even (x / quantum x)"
  have xn: "x = of_int ?n * pow2 (?e - 52)" using is_double_quantum(1) [OF assms(1)] q by simp
  have "of_int \<bar>?n\<bar> * pow2 (?e - 52) < pow2 (?e + 1)"
    using ilog2_bounds(2) [OF x] xn by (simp add: abs_mult)
  also have "\<dots> = pow2 53 * pow2 (?e - 52)" by (simp add: add.commute flip: pow2_add)
  finally have "of_int \<bar>?n\<bar> < pow2 53" by simp
  then have n: "\<bar>?n\<bar> < 2 ^ 53" by (simp only: pow2_nat of_int_less_iff) simp
  have "\<bar>x / pow2 k\<bar> \<le> \<bar>x\<bar> / pow2 0"
    using assms(3) by (simp add: abs_divide) (intro divide_left_mono, auto)
  then have "\<bar>x / pow2 k\<bar> < pow2 1024"
    using is_double_quantum(2) [OF assms(1)] by (simp add: pow2_def)
  moreover have "x / pow2 k = of_int ?n * pow2 (?e - 52 - k)"
    by (subst xn) (simp add: pow2_diff)
  ultimately show ?thesis using is_double_dyadic_less [of ?n "?e - 52 - k"] n e by simp
qed

section \<open>Rounding error and integer division\<close>

lemma pow2_0 [simp]: "pow2 0 = 1" and pow2_1: "pow2 1 = 2"
  by (simp_all add: pow2_def)

lemma pow2_minus: "pow2 (- e) = 1 / pow2 e"
  by (simp add: pow2_def power_int_minus divide_inverse)

lemma quantum_nonneg [simp]: "0 \<le> quantum x" and abs_quantum [simp]: "\<bar>quantum x\<bar> = quantum x"
  by (simp_all add: quantum_def)

lemma round_even_error: "\<bar>of_int (round_even z) - z\<bar> \<le> 1 / 2"
proof -
  have "of_int \<lfloor>z\<rfloor> \<le> z" "z < of_int \<lfloor>z\<rfloor> + 1" by linarith+
  moreover have "round_even z = \<lfloor>z\<rfloor> \<and> z - of_int \<lfloor>z\<rfloor> \<le> 1 / 2
      \<or> round_even z = \<lfloor>z\<rfloor> + 1 \<and> 1 / 2 \<le> z - of_int \<lfloor>z\<rfloor>"
    unfolding round_even_def Let_def by auto
  ultimately show ?thesis unfolding abs_le_iff by linarith
qed

lemma round_quantum_error:
  "\<bar>of_int (round_even (x / quantum x)) * quantum x - x\<bar> \<le> quantum x / 2"
proof -
  have "of_int (round_even (x / quantum x)) * quantum x - x
      = (of_int (round_even (x / quantum x)) - x / quantum x) * quantum x"
    by (simp add: field_simps)
  moreover have "\<bar>of_int (round_even (x / quantum x)) - x / quantum x\<bar> * quantum x
      \<le> 1 / 2 * quantum x"
    by (intro mult_right_mono round_even_error quantum_nonneg)
  ultimately show ?thesis by (simp add: abs_mult)
qed

lemma to_double_error:
  assumes "to_double x = Fin y"
  shows "\<bar>y - x\<bar> \<le> quantum x / 2"
proof (cases "x = 0")
  case False
  then have "y = of_int (round_even (x / quantum x)) * quantum x"
    using assms by (auto simp: to_double_def Let_def split: if_splits)
  then show ?thesis using round_quantum_error by simp
next
  case True
  then show ?thesis using assms quantum_pos [of 0] by (simp add: to_double_def)
qed

lemma quantum_le_norm:
  assumes "pow2 (- 1022) \<le> \<bar>x\<bar>"
  shows "quantum x * pow2 52 \<le> \<bar>x\<bar>"
proof -
  have x: "0 < \<bar>x\<bar>" using assms pow2_pos [of "- 1022"] by linarith
  then have "- 1022 \<le> ilog2 \<bar>x\<bar>" using assms by (intro ilog2_ge)
  then have "quantum x * pow2 52 = pow2 (ilog2 \<bar>x\<bar>)"
    by (simp add: quantum_def max_absorb1 flip: pow2_add)
  with ilog2_bounds(1) [OF x] show ?thesis by simp
qed

lemma is_double_upscale:
  assumes "is_double x" "\<bar>x * pow2 k\<bar> < pow2 1024" "0 \<le> k"
  shows "is_double (x * pow2 k)"
proof (cases "x = 0")
  case True
  then show ?thesis using is_double_int [of 0] by simp
next
  case False
  then have pos: "0 < \<bar>x\<bar>" by simp
  let ?e = "max (ilog2 \<bar>x\<bar>) (- 1022)"
  let ?n = "round_even (x / quantum x)"
  have x: "x = of_int ?n * pow2 (?e - 52)"
    using is_double_quantum(1) [OF assms(1)] by (simp add: quantum_def)
  have "\<bar>x\<bar> < pow2 (ilog2 \<bar>x\<bar> + 1)" using ilog2_bounds(2) [OF pos] .
  also have "\<dots> \<le> pow2 (53 + (?e - 52))" by simp
  also have "\<dots> = pow2 53 * pow2 (?e - 52)" by (rule pow2_add)
  finally have "of_int \<bar>?n\<bar> * pow2 (?e - 52) < pow2 53 * pow2 (?e - 52)"
    using x by (metis abs_mult abs_of_pos of_int_abs pow2_pos)
  then have "of_int \<bar>?n\<bar> < pow2 53" by simp
  then have "\<bar>?n\<bar> < 2 ^ 53" by (simp only: pow2_nat of_int_less_iff) simp
  moreover have "x * pow2 k = of_int ?n * pow2 (?e - 52 + k)"
    by (subst x) (simp add: pow2_add)
  ultimately show ?thesis
    using is_double_dyadic_less [of ?n "?e - 52 + k"] assms(2,3) by simp
qed

lemma round_half_error:
  fixes x :: rat
  shows "\<bar>of_int \<lfloor>x * 10 ^ f + 1 / 2\<rfloor> / 10 ^ f - x\<bar> \<le> 1 / (2 * 10 ^ f)"
proof -
  let ?n = "of_int \<lfloor>x * 10 ^ f + 1 / 2\<rfloor> :: rat"
  have "?n \<le> x * 10 ^ f + 1 / 2" "x * 10 ^ f + 1 / 2 < ?n + 1" by linarith+
  then have "\<bar>?n - x * 10 ^ f\<bar> \<le> 1 / 2" unfolding abs_le_iff by linarith
  moreover have "?n / 10 ^ f - x = (?n - x * 10 ^ f) / 10 ^ f" by (simp add: field_simps)
  ultimately show ?thesis by (simp add: abs_divide field_simps)
qed

lemma floor_between:
  fixes y :: rat
  assumes "of_int k \<le> y" "y < of_int k + 1"
  shows "\<lfloor>y\<rfloor> = k"
  using assms by linarith

lemma to_double_finite:
  assumes "\<bar>x\<bar> \<le> pow2 1000"
  shows "\<exists>y. to_double x = Fin y"
proof (cases "x = 0")
  case False
  let ?y = "of_int (round_even (x / quantum x)) * quantum x"
  have "pow2 (ilog2 \<bar>x\<bar>) \<le> pow2 1000"
    using ilog2_bounds(1) [of "\<bar>x\<bar>"] False assms by linarith
  then have "quantum x \<le> pow2 1000" by (simp add: quantum_def)
  then have "\<bar>?y\<bar> \<le> pow2 1000 + pow2 1000"
    using assms round_quantum_error [of x] pow2_pos [of 1000] by linarith
  also have "\<dots> = pow2 1000 * pow2 1" by (simp add: pow2_1)
  also have "\<dots> < pow2 1024" by (simp only: pow2_less_iff flip: pow2_add)
  finally show ?thesis using False by (simp add: to_double_def)
qed (simp add: to_double_def)

lemma floor_js_div:
  assumes "0 \<le> a" "a < 2 ^ 53" "0 < b" "b \<le> 2 ^ 53"
  shows "\<exists>y. to_double (of_int a / of_int b) = Fin y \<and> \<lfloor>y\<rfloor> = a div b"
proof (cases "a mod b = 0")
  case True
  then have eq: "of_int a / of_int b = (of_int (a div b) :: rat)"
    using assms(3) by (simp add: of_int_div mod_0_imp_dvd)
  have "a div b \<le> a" using assms zdiv_mono2 [of a 1 b] by simp
  moreover have "0 \<le> a div b" using assms by (simp add: pos_imp_zdiv_nonneg_iff)
  ultimately have "\<bar>a div b\<bar> \<le> 2 ^ 53" using assms by simp
  then show ?thesis by (simp only: eq to_double_int) simp
next
  case False
  let ?x = "of_int a / of_int b :: rat" and ?k = "a div b" and ?r = "a mod b"
  have a: "1 \<le> a" using False assms(1) by (cases "a = 0") auto
  have bp: "(0::rat) < of_int b" using assms(3) by simp
  have x: "?x = of_int ?k + of_int ?r / of_int b"
    using bp by (simp add: field_simps flip: of_int_mult of_int_add)
  have "1 \<le> ?r" "?r + 1 \<le> b"
    using False pos_mod_sign [OF assms(3), of a] pos_mod_bound [OF assms(3), of a] by linarith+
  then have "(1::rat) \<le> of_int ?r" "of_int ?r + 1 \<le> (of_int b :: rat)" by linarith+
  then have gap: "of_int ?k + 1 / of_int b \<le> ?x" "?x + 1 / of_int b \<le> of_int ?k + 1"
    unfolding x using bp by (auto simp: field_simps)
  have b53: "of_int b \<le> pow2 53" and a53: "of_int a < pow2 53"
    using assms(2,4) by (simp_all only: pow2_nat of_int_le_iff of_int_less_iff) simp_all
  have "pow2 (- 1022) \<le> 1 / pow2 53" by (simp flip: pow2_minus)
  also have "\<dots> \<le> ?x" using a b53 bp by (intro frac_le) auto
  finally have "quantum ?x * pow2 52 \<le> ?x"
    using quantum_le_norm [of ?x] a bp by (simp add: abs_of_nonneg)
  then have "quantum ?x * pow2 52 * of_int b \<le> of_int a" using bp by (simp add: field_simps)
  also have "\<dots> < 2 * pow2 52" using a53 by (simp add: pow2_add [of 1 52, simplified] pow2_1)
  finally have "quantum ?x * of_int b < 2"
    by (metis mult.assoc mult.commute mult_less_cancel_right_pos pow2_pos)
  then have q: "quantum ?x / 2 < 1 / of_int b" using bp by (simp add: field_simps)
  have "?x \<le> of_int a" using a bp assms(3) by (simp add: field_simps)
  then have "\<bar>?x\<bar> \<le> pow2 53" using a53 a bp by (simp add: abs_of_nonneg)
  then have "\<bar>?x\<bar> \<le> pow2 1000" by (rule order_trans) simp
  then obtain y where y: "to_double ?x = Fin y" using to_double_finite by blast
  then have "\<bar>y - ?x\<bar> < 1 / of_int b" using to_double_error q by fastforce
  then have "\<lfloor>y\<rfloor> = ?k" using gap by (intro floor_between) linarith+
  with y show ?thesis by blast
qed

lemma js_le_Fin [simp]: "js_le (Fin x) (Fin y) \<longleftrightarrow> x \<le> y"
  by (auto simp: js_le_def)

lemma js_sub_int [js_num_simps]:
  "\<bar>a - b\<bar> \<le> 2 ^ 53 \<Longrightarrow> js_sub (Fin (of_int a)) (Fin (of_int b)) = Fin (of_int (a - b))"
  using to_double_int [of "a - b"] by (simp add: js_sub_def)

lemma js_add_int [js_num_simps]:
  "\<bar>a + b\<bar> \<le> 2 ^ 53 \<Longrightarrow> js_add (Fin (of_int a)) (Fin (of_int b)) = Fin (of_int (a + b))"
  using to_double_int [of "a + b"] by simp

lemma js_mul_int [js_num_simps]:
  "\<bar>a * b\<bar> \<le> 2 ^ 53 \<Longrightarrow> js_mul (Fin (of_int a)) (Fin (of_int b)) = Fin (of_int (a * b))"
  using to_double_int [of "a * b"] by simp

lemma floor_div_int [js_num_simps]:
  assumes "0 \<le> a" "a < 2 ^ 53" "0 < b" "b \<le> 2 ^ 53"
  shows "math_floor (js_div (Fin (of_int a)) (Fin (of_int b))) = Fin (of_int (a div b))"
  using floor_js_div [OF assms] assms(3) by auto

end
