(* ===== verification/JsString.thy ===== *)
theory JsString
  imports JsNum
begin

text \<open>
  The operations of the language's library that the program calls on strings: \<open>trim\<close>,
  \<open>split\<close> at a separator, \<open>join\<close>, \<open>slice\<close> with its relative and truncated
  indices, \<open>lastIndexOf\<close> of one code unit, and \<open>Number(s)\<close>; with the laws the
  components use.
\<close>

section \<open>White space and trim\<close>

text \<open>The WhiteSpace and LineTerminator code units of ECMAScript, which \<open>trim\<close> and
  the class \<open>\s\<close> share.\<close>

definition is_ws :: "js_char \<Rightarrow> bool" where
  "is_ws c \<longleftrightarrow>
     c \<in> set [9, 10, 11, 12, 13, 32, 160, 5760, 8232, 8233, 8239, 8287, 12288, 65279]
     \<or> 8192 \<le> c \<and> c \<le> 8202"

definition js_trim :: "js_string \<Rightarrow> js_string" where
  "js_trim s = rev (dropWhile is_ws (rev (dropWhile is_ws s)))"

text \<open>A trimmed, non-empty string.\<close>

definition clean :: "js_string \<Rightarrow> bool" where
  "clean s \<longleftrightarrow> s \<noteq> [] \<and> \<not> is_ws (hd s) \<and> \<not> is_ws (last s)"

lemma dropWhile_ws_clean: "clean s \<Longrightarrow> dropWhile is_ws (s @ t) = s @ t"
  by (cases s) (auto simp: clean_def)

lemma clean_rev: "clean (rev s) = clean s"
  by (auto simp: clean_def hd_rev last_rev)

lemma js_trim_pad [js_str_simps]:
  assumes "clean s" "\<forall>c\<in>set u. is_ws c" "\<forall>c\<in>set v. is_ws c"
  shows "js_trim (u @ s @ v) = s"
proof -
  have "dropWhile is_ws (u @ s @ v) = s @ v"
    using assms(1,2) by (simp add: dropWhile_append2 dropWhile_ws_clean)
  moreover have "dropWhile is_ws (rev v @ rev s) = dropWhile is_ws (rev s)"
    using assms(3) by (intro dropWhile_append2) simp
  moreover have "dropWhile is_ws (rev s) = rev s"
    using assms(1) dropWhile_ws_clean [of "rev s" "[]"] by (simp add: clean_rev)
  ultimately show ?thesis by (simp add: js_trim_def)
qed

lemma js_trim_clean [js_str_simps]: "clean s \<Longrightarrow> js_trim s = s"
  using js_trim_pad [of s "[]" "[]"] by simp

lemma clean_js_trim:
  assumes "js_trim s \<noteq> []"
  shows "clean (js_trim s)"
proof -
  let ?d = "dropWhile is_ws s" and ?t = "dropWhile is_ws (rev (dropWhile is_ws s))"
  have t: "?t \<noteq> []" using assms by (simp add: js_trim_def)
  then have d: "?d \<noteq> []" by (metis dropWhile.simps(1) rev.simps(1))
  have "\<not> is_ws (hd ?t)" "\<not> is_ws (hd ?d)"
    using hd_dropWhile_not [OF t] hd_dropWhile_not [OF d] .
  moreover have "last ?t = hd ?d" using t d by (simp add: last_dropWhile last_rev)
  ultimately show ?thesis using t by (simp add: clean_def js_trim_def hd_rev last_rev)
qed

lemma set_js_trim: "set (js_trim s) \<subseteq> set s"
  unfolding js_trim_def set_rev by (metis set_dropWhile_subset set_rev subset_trans)

lemma js_trim_idem [simp]: "js_trim (js_trim s) = js_trim s"
proof (cases "js_trim s = []")
  case True
  then show ?thesis by (simp only: True) (simp add: js_trim_def)
next
  case False
  then show ?thesis by (intro js_trim_clean clean_js_trim)
qed

section \<open>split and join\<close>

text \<open>\<open>s.split(sep)\<close> where the separator is one code unit out of a class.\<close>

fun js_split :: "(js_char \<Rightarrow> bool) \<Rightarrow> js_string \<Rightarrow> js_string list" where
  "js_split P [] = [[]]"
| "js_split P (c # s) =
     (if P c then [] # js_split P s
      else case js_split P s of [] \<Rightarrow> [[c]] | p # ps \<Rightarrow> (c # p) # ps)"

fun js_join :: "js_string \<Rightarrow> js_string list \<Rightarrow> js_string" where
  "js_join sep [] = []"
| "js_join sep [x] = x"
| "js_join sep (x # y # xs) = x @ sep @ js_join sep (y # xs)"

lemma js_split_nonempty [simp]: "js_split P s \<noteq> []"
  by (cases s) (auto split: list.splits)

lemma js_split_no_sep: "x \<in> set (js_split P s) \<Longrightarrow> c \<in> set x \<Longrightarrow> \<not> P c"
  by (induction s arbitrary: x) (fastforce split: if_splits list.splits)+

lemma js_split_none: "\<forall>c\<in>set s. \<not> P c \<Longrightarrow> js_split P s = [s]"
  by (induction s) auto

lemma js_split_append_sep:
  "\<forall>c\<in>set x. \<not> P c \<Longrightarrow> P c \<Longrightarrow> js_split P (x @ c # s) = x # js_split P s"
  by (induction x) auto

lemma js_join_Cons: "xs \<noteq> [] \<Longrightarrow> js_join sep (x # xs) = x @ sep @ js_join sep xs"
  by (cases xs) auto

lemma js_join_split: "js_join [c] (js_split (\<lambda>d. d = c) s) = s"
proof (induction s)
  case (Cons d s)
  obtain p ps where ps: "js_split (\<lambda>d. d = c) s = p # ps"
    by (metis js_split_nonempty list.exhaust)
  with Cons show ?case by (cases ps) auto
qed simp

lemma length_js_join_split_le: "x \<in> set (js_split P s) \<Longrightarrow> length x \<le> length s"
  by (induction s arbitrary: x) (fastforce split: if_splits list.splits)+

section \<open>slice, lastIndexOf\<close>

definition trunc_int :: "rat \<Rightarrow> int" where
  "trunc_int x = (if 0 \<le> x then \<lfloor>x\<rfloor> else \<lceil>x\<rceil>)"

fun rel_index :: "nat \<Rightarrow> js_number \<Rightarrow> nat" where
  "rel_index len (Fin x) =
     (let i = trunc_int x in if i < 0 then nat (int len + i) else min (nat i) len)"
| "rel_index len PInf = len"
| "rel_index len _ = 0"

definition js_slice :: "js_string \<Rightarrow> js_number \<Rightarrow> js_number option \<Rightarrow> js_string" where
  "js_slice s a b =
     (let n = length s; i = rel_index n a; j = (case b of None \<Rightarrow> n | Some k \<Rightarrow> rel_index n k)
      in take (j - i) (drop i s))"

fun js_last_index :: "js_char \<Rightarrow> js_string \<Rightarrow> int" where
  "js_last_index c [] = -1"
| "js_last_index c (d # s) =
     (let k = js_last_index c s in if 0 \<le> k then k + 1 else if d = c then 0 else -1)"

definition js_length :: "js_string \<Rightarrow> js_number" where
  "js_length s = Fin (of_nat (length s))"

lemma trunc_int_of_int [simp]: "trunc_int (of_int i) = i"
  by (simp add: trunc_int_def)

lemma rel_index_int:
  "rel_index n (Fin (of_int i)) = (if i < 0 then nat (int n + i) else min (nat i) n)"
  by (simp add: Let_def)

lemma js_slice_prefix: "js_slice s (Fin 0) (Some k) = take (rel_index (length s) k) s"
  by (simp add: js_slice_def trunc_int_def)

lemma js_slice_suffix: "js_slice s k None = drop (rel_index (length s) k) s"
  by (simp add: js_slice_def)

lemma js_last_index_less: "js_last_index c s < int (length s)"
  by (induction s) (auto simp: Let_def)

section \<open>Number(s)\<close>

definition is_digit :: "js_char \<Rightarrow> bool" where
  "is_digit c \<longleftrightarrow> 48 \<le> c \<and> c \<le> 57"

definition digits_value :: "js_string \<Rightarrow> int" where
  "digits_value s = foldl (\<lambda>a c. 10 * a + (c - 48)) 0 s"

text \<open>The optional exponent part, which must use up the rest of the string.\<close>

definition exponent_part :: "js_string \<Rightarrow> int option" where
  "exponent_part s =
     (case s of [] \<Rightarrow> Some 0
      | c # r \<Rightarrow>
         if c \<noteq> 101 \<and> c \<noteq> 69 then None
         else let (neg, ds) = (case r of d # r' \<Rightarrow>
                    if d = 45 then (True, r') else if d = 43 then (False, r') else (False, r)
                    | [] \<Rightarrow> (False, []))
              in if ds = [] \<or> \<not> list_all is_digit ds then None
                 else Some (if neg then - digits_value ds else digits_value ds))"

text \<open>A StrUnsignedDecimalLiteral without \<open>Infinity\<close>, before rounding.\<close>

definition decimal_value :: "js_string \<Rightarrow> rat option" where
  "decimal_value s =
     (let ip = takeWhile is_digit s; r = dropWhile is_digit s;
          (fp, r') = (case r of c # q \<Rightarrow>
              if c = 46 then (takeWhile is_digit q, dropWhile is_digit q) else ([], r)
              | [] \<Rightarrow> ([], []))
      in if ip = [] \<and> fp = [] then None
         else map_option (\<lambda>e. of_int (digits_value (ip @ fp)) * 10 powi (e - int (length fp)))
                (exponent_part r'))"

definition unsigned_value :: "js_string \<Rightarrow> js_number" where
  "unsigned_value s =
     (if s = js ''Infinity'' then PInf
      else case decimal_value s of None \<Rightarrow> NaN | Some x \<Rightarrow> to_double x)"

definition radix_digit :: "js_char \<Rightarrow> int option" where
  "radix_digit c =
     (if 48 \<le> c \<and> c \<le> 57 then Some (c - 48)
      else if 97 \<le> c \<and> c \<le> 102 then Some (c - 87)
      else if 65 \<le> c \<and> c \<le> 70 then Some (c - 55) else None)"

fun radix_value :: "int \<Rightarrow> int \<Rightarrow> js_string \<Rightarrow> int option" where
  "radix_value b acc [] = Some acc"
| "radix_value b acc (c # s) =
     (case radix_digit c of None \<Rightarrow> None
      | Some d \<Rightarrow> if d < b then radix_value b (b * acc + d) s else None)"

definition radix_prefix :: "js_string \<Rightarrow> (int \<times> js_string) option" where
  "radix_prefix s =
     (case s of z # x # r \<Rightarrow>
        if z \<noteq> 48 then None
        else if x = 120 \<or> x = 88 then Some (16, r)
        else if x = 111 \<or> x = 79 then Some (8, r)
        else if x = 98 \<or> x = 66 then Some (2, r) else None
      | _ \<Rightarrow> None)"

definition js_Number :: "js_string \<Rightarrow> js_number" where
  "js_Number s =
     (let t = js_trim s in
      case t of [] \<Rightarrow> Fin 0
      | c # r \<Rightarrow>
        (case radix_prefix t of
          Some (b, ds) \<Rightarrow>
            if ds = [] then NaN
            else (case radix_value b 0 ds of None \<Rightarrow> NaN | Some v \<Rightarrow> to_double (of_int v))
        | None \<Rightarrow> if c = 45 then js_neg (unsigned_value r)
                  else if c = 43 then unsigned_value r else unsigned_value t))"

text \<open>\<open>Number(v)\<close> of a value that may be missing: \<open>undefined\<close> gives \<open>NaN\<close>.\<close>

definition js_Number_opt :: "js_string option \<Rightarrow> js_number" where
  "js_Number_opt v = (case v of None \<Rightarrow> NaN | Some s \<Rightarrow> js_Number s)"

section \<open>Reading back what toFixed writes\<close>

lemma digits10_digit: "0 \<le> i \<Longrightarrow> c \<in> set (digits10 i) \<Longrightarrow> is_digit c"
proof (induction i rule: digits10.induct)
  case (1 i)
  then show ?case
    by (subst (asm) (2) digits10.simps) (auto simp: is_digit_def split: if_splits)
qed

lemma digits10_nonempty [simp]: "digits10 i \<noteq> []"
  by (subst digits10.simps) simp

lemma digits_value_snoc: "digits_value (s @ [c]) = 10 * digits_value s + (c - 48)"
  by (simp add: digits_value_def)

lemma digits_value_digits10: "0 \<le> i \<Longrightarrow> digits_value (digits10 i) = i"
proof (induction i rule: digits10.induct)
  case (1 i)
  show ?case
  proof (cases "i < 10")
    case True
    then show ?thesis by (subst digits10.simps) (simp add: digits_value_def)
  next
    case False
    then show ?thesis
      using "1.IH" "1.prems" by (subst digits10.simps) (simp add: digits_value_snoc)
  qed
qed

lemma digits_value_zeros: "digits_value (replicate n 48 @ s) = digits_value s"
  by (induction n) (simp_all add: digits_value_def)

lemma decimal_value_point:
  assumes "list_all is_digit (a @ b)" "a \<noteq> []"
  shows "decimal_value (a @ 46 # b) = Some (of_int (digits_value (a @ b)) / 10 ^ length b)"
proof -
  have a: "takeWhile is_digit (a @ 46 # b) = a" "dropWhile is_digit (a @ 46 # b) = 46 # b"
    using assms(1) by (auto simp: takeWhile_append2 dropWhile_append2 list_all_iff is_digit_def)
  have b: "takeWhile is_digit b = b" "dropWhile is_digit b = []"
    using assms(1) by (auto simp: takeWhile_eq_all_conv dropWhile_eq_Nil_conv list_all_iff)
  show ?thesis
    using assms(2)
    by (simp add: decimal_value_def Let_def exponent_part_def a b power_int_minus divide_inverse)
qed

lemma decimal_value_int:
  assumes "list_all is_digit a" "a \<noteq> []"
  shows "decimal_value a = Some (of_int (digits_value a))"
proof -
  have a: "takeWhile is_digit a = a" "dropWhile is_digit a = []"
    using assms(1) by (auto simp: takeWhile_eq_all_conv dropWhile_eq_Nil_conv list_all_iff)
  show ?thesis using assms(2) by (simp add: decimal_value_def Let_def exponent_part_def a)
qed

lemma decimal_value_fixed_abs:
  assumes "0 \<le> x" "x < 10 ^ 21"
  shows "decimal_value (fixed_abs x f) = Some (of_int \<lfloor>x * 10 ^ f + 1 / 2\<rfloor> / 10 ^ f)"
proof -
  define n where "n = \<lfloor>x * 10 ^ f + 1 / 2\<rfloor>"
  have n: "0 \<le> n" using assms(1) by (simp add: n_def)
  define m where "m = replicate (f + 1 - length (digits10 n)) 48 @ digits10 n"
  have "is_digit 48" by (simp add: is_digit_def)
  then have m: "list_all is_digit m" "digits_value m = n" "f < length m"
    using n by (auto simp: m_def list_all_iff digits10_digit digits_value_zeros
        digits_value_digits10)
  show ?thesis
  proof (cases "f = 0")
    case True
    then have "fixed_abs x f = digits10 n" using assms(2) by (simp add: fixed_abs_def n_def)
    moreover have "list_all is_digit (digits10 n)"
      using n by (auto simp: list_all_iff digits10_digit)
    ultimately show ?thesis
      using True n by (simp add: decimal_value_int digits_value_digits10 n_def)
  next
    case False
    let ?k = "length m - f"
    have "fixed_abs x f = take ?k m @ 46 # drop ?k m"
      using assms(2) False by (simp add: fixed_abs_def Let_def n_def m_def)
    moreover have "take ?k m \<noteq> []" using m(3) by auto
    ultimately show ?thesis
      using decimal_value_point [of "take ?k m" "drop ?k m"] m by (simp add: n_def)
  qed
qed

end
