(* ===== verification/StringUtil.thy ===== *)
theory StringUtil
  imports JsString
begin

text \<open>
  \<open>src/utils/string.ts\<close>: the comma separated text fields of the index page. The
  roots and the exclude patterns live in the state of the App component as one string
  each; \<open>join(', ')\<close> writes them there and \<open>parseCSV\<close> reads them back. The locale
  \<open>text_codec\<close> states what a client of such a pair may rely on, and the interpretation
  \<open>csv\<close> proves it for the program's pair.
\<close>

definition parseCSV :: "js_string \<Rightarrow> js_string list" where
  "parseCSV input = filter (\<lambda>s. s \<noteq> []) (map js_trim (js_split (\<lambda>c. c = 44) input))"

text \<open>\<open>(cfg.scan_roots || []).join(', ')\<close>\<close>

definition joinCSV :: "js_string list \<Rightarrow> js_string" where
  "joinCSV xs = js_join (js '', '') xs"

text \<open>The items a comma separated field can hold.\<close>

definition csv_item :: "js_string \<Rightarrow> bool" where
  "csv_item s \<longleftrightarrow> clean s \<and> 44 \<notin> set s"

section \<open>A pair that writes a list as text and reads it back\<close>

locale text_codec =
  fixes encode :: "'a list \<Rightarrow> 'b"
    and decode :: "'b \<Rightarrow> 'a list"
    and item :: "'a \<Rightarrow> bool"
  assumes decode_items: "list_all item (decode t)"
    and decode_encode: "list_all item xs \<Longrightarrow> decode (encode xs) = xs"
begin

lemma round_trip_iff: "decode (encode xs) = xs \<longleftrightarrow> list_all item xs"
  using decode_encode decode_items by metis

lemma decode_stable: "decode (encode (decode t)) = decode t"
  by (simp add: decode_encode decode_items)

lemma encode_inj: "list_all item xs \<Longrightarrow> list_all item ys \<Longrightarrow> encode xs = encode ys \<Longrightarrow> xs = ys"
  by (metis decode_encode)

end

section \<open>The comma separated fields\<close>

lemma parseCSV_item:
  assumes "x \<in> set (parseCSV t)"
  shows "csv_item x"
proof -
  obtain y where y: "y \<in> set (js_split (\<lambda>c. c = 44) t)" and x: "x = js_trim y" "x \<noteq> []"
    using assms by (auto simp: parseCSV_def)
  have "44 \<notin> set y" using js_split_no_sep [OF y] by blast
  with x show ?thesis using clean_js_trim set_js_trim by (auto simp: csv_item_def)
qed

lemma joinCSV_pieces:
  assumes "list_all csv_item (x # xs)" "44 \<notin> set p"
  shows "js_split (\<lambda>c. c = 44) (p @ joinCSV (x # xs)) = (p @ x) # map (\<lambda>y. 32 # y) xs"
  using assms
proof (induction xs arbitrary: p x)
  case Nil
  then show ?case by (auto simp: joinCSV_def csv_item_def intro!: js_split_none)
next
  case (Cons y ys)
  have "js_split (\<lambda>c. c = 44) (p @ joinCSV (x # y # ys))
      = js_split (\<lambda>c. c = 44) ((p @ x) @ 44 # ([32] @ joinCSV (y # ys)))"
    by (simp add: joinCSV_def)
  also have "\<dots> = (p @ x) # js_split (\<lambda>c. c = 44) ([32] @ joinCSV (y # ys))"
    using Cons.prems by (intro js_split_append_sep) (auto simp: csv_item_def)
  also have "\<dots> = (p @ x) # map (\<lambda>z. 32 # z) (y # ys)"
    using Cons.IH [of y "[32]"] Cons.prems by simp
  finally show ?case .
qed

lemma parseCSV_joinCSV:
  assumes "list_all csv_item xs"
  shows "parseCSV (joinCSV xs) = xs"
proof (cases xs)
  case Nil
  then show ?thesis by (simp add: parseCSV_def joinCSV_def js_trim_def)
next
  case (Cons x ys)
  have clean: "clean y" "js_trim y = y" "js_trim (32 # y) = y" if "y \<in> set xs" for y
    using assms that js_trim_pad [of y "[32]" "[]"]
    by (auto simp: list_all_iff csv_item_def js_trim_clean is_ws_def)
  have "js_split (\<lambda>c. c = 44) (joinCSV xs) = x # map (\<lambda>y. 32 # y) ys"
    using joinCSV_pieces [of x ys "[]"] assms Cons by simp
  then have "parseCSV (joinCSV xs) = filter (\<lambda>s. s \<noteq> []) xs"
    using clean Cons by (simp add: parseCSV_def comp_def cong: map_cong)
  also have "\<dots> = xs" using clean(1) by (simp add: filter_id_conv clean_def)
  finally show ?thesis .
qed

interpretation csv: text_codec joinCSV parseCSV csv_item
  by unfold_locales (auto simp: list_all_iff parseCSV_item parseCSV_joinCSV)

text \<open>
  C25. A list of roots or patterns survives being shown in a text field and parsed back
  exactly when every entry is non-empty, has no white space at either end and contains no
  comma: \<open>parseCSV(xs.join(', '))\<close> is \<open>xs\<close> for those lists and for no others.
\<close>

theorem parseCSV_round_trip: "parseCSV (joinCSV xs) = xs \<longleftrightarrow> list_all csv_item xs"
  by (rule csv.round_trip_iff)

end
