(* ===== verification/PathUtil.thy ===== *)
theory PathUtil
  imports JsString
begin

text \<open>
  \<open>src/utils/path.ts\<close>: \<open>shortenPath\<close>, which every page uses to show a path. The
  limit is a JavaScript number, since it comes from the configuration, from an environment
  variable or from a number field that the user can empty. The lemmas reduce the code to
  integer arithmetic for integral limits and give the bound on what is shown.
\<close>

definition is_path_sep :: "js_char \<Rightarrow> bool" where
  "is_path_sep c \<longleftrightarrow> c = 92 \<or> c = 47"

definition ellipsis :: js_string where
  "ellipsis = js ''...''"

definition shortenPath :: "js_string \<Rightarrow> js_number \<Rightarrow> js_string" where
  "shortenPath p maxLen =
     (if p = [] then []
      else if js_le (js_length p) maxLen then p
      else
        let useBackslash = 92 \<in> set p;
            sep = (if useBackslash then [92] else [47]);
            parts = js_split is_path_sep p
        in if length parts \<le> 2
           then js_slice p (Fin 0) (Some (js_sub maxLen (Fin 3))) @ ellipsis
           else
             let candidate = parts ! 0 @ sep @ ellipsis @ sep @ parts ! (length parts - 2) @ sep
                               @ parts ! (length parts - 1)
             in if js_le (js_length candidate) maxLen then candidate
                else
                  let keep = js_sub maxLen (Fin 3);
                      head = math_max (Fin 10) (math_floor (js_div keep (Fin 2)));
                      tail = js_sub keep head
                  in js_slice p (Fin 0) (Some head) @ ellipsis
                       @ js_slice p (js_sub (js_length p) tail) None)"

section \<open>Integral limits\<close>

text \<open>The abbreviation of a path with at least three parts.\<close>

definition path_candidate :: "js_string \<Rightarrow> js_string" where
  "path_candidate p =
     (let sep = (if 92 \<in> set p then [92] else [47]); parts = js_split is_path_sep p
      in parts ! 0 @ sep @ ellipsis @ sep @ parts ! (length parts - 2) @ sep
           @ parts ! (length parts - 1))"

text \<open>The same function over the integers.\<close>

definition shorten_int :: "js_string \<Rightarrow> int \<Rightarrow> js_string" where
  "shorten_int p m =
     (if int (length p) \<le> m then p
      else if length (js_split is_path_sep p) \<le> 2 then take (nat (m - 3)) p @ ellipsis
      else if int (length (path_candidate p)) \<le> m then path_candidate p
      else let head = max 10 ((m - 3) div 2); tail = m - 3 - head
           in take (nat head) p @ ellipsis @ drop (nat (int (length p) - tail)) p)"

lemma length_ellipsis [simp]: "length ellipsis = 3"
  by (simp add: ellipsis_def)

lemma js_le_length_int: "js_le (js_length s) (Fin (of_int m)) \<longleftrightarrow> int (length s) \<le> m"
  by (simp add: js_length_def) (metis of_int_le_iff of_int_of_nat_eq)

lemma js_slice_take: "0 \<le> k \<Longrightarrow> js_slice s (Fin 0) (Some (Fin (of_int k))) = take (nat k) s"
  by (simp add: js_slice_prefix rel_index_int min_def del: rel_index.simps)

lemma js_slice_drop: "0 \<le> k \<Longrightarrow> js_slice s (Fin (of_int k)) None = drop (nat k) s"
  by (simp add: js_slice_suffix rel_index_int min_def del: rel_index.simps)

lemma math_max_int: "math_max (Fin (of_int a)) (Fin (of_int b)) = Fin (of_int (max a b))"
  by (simp add: math_max_def max_def)

lemma shortenPath_int:
  assumes "3 \<le> m" "m \<le> 2 ^ 52" "length p \<le> 2 ^ 52"
  shows "shortenPath p (Fin (of_int m)) = shorten_int p m"
proof -
  define n h where "n = int (length p)" and "h = max 10 ((m - 3) div 2)"
  have keep: "js_sub (Fin (of_int m)) (Fin 3) = Fin (of_int (m - 3))"
    using js_sub_int [of m 3] assms by simp
  have "math_floor (js_div (Fin (of_int (m - 3))) (Fin 2)) = Fin (of_int ((m - 3) div 2))"
    using floor_div_int [of "m - 3" 2] assms by (simp del: of_int_diff)
  then have head: "math_max (Fin 10) (math_floor (js_div (Fin (of_int (m - 3))) (Fin 2)))
      = Fin (of_int h)"
    using math_max_int [of 10 "(m - 3) div 2"] by (simp add: h_def)
  have bounds: "10 \<le> h" "h \<le> 2 ^ 52" "0 \<le> n" "n \<le> 2 ^ 52"
    using assms by (auto simp: h_def n_def)
  have tail: "js_sub (Fin (of_int (m - 3))) (Fin (of_int h)) = Fin (of_int (m - 3 - h))"
    using assms bounds by (intro js_sub_int) simp
  have rest: "js_sub (js_length p) (Fin (of_int (m - 3 - h))) = Fin (of_int (n - (m - 3 - h)))"
    using js_sub_int [of n "m - 3 - h"] assms bounds by (simp add: js_length_def n_def)
  have nonneg: "0 \<le> n - (m - 3 - h)" if "\<not> n \<le> m" using that bounds by linarith
  show ?thesis
  proof (cases "p = []")
    case True
    then show ?thesis using assms(1) by (simp add: shortenPath_def shorten_int_def)
  next
    case False
    with assms(1) bounds nonneg show ?thesis
      by (simp add: shortenPath_def shorten_int_def path_candidate_def Let_def js_le_length_int
          keep head tail rest js_slice_take js_slice_drop
          del: of_int_diff js_div.simps math_floor.simps flip: n_def h_def)
  qed
qed

lemma length_shorten_int:
  assumes "3 \<le> m"
  shows "int (length (shorten_int p m)) \<le> max m 13"
  using assms by (auto simp: shorten_int_def Let_def max_def min_def)

section \<open>What is left out\<close>

lemma js_join_split_uniform:
  assumes "\<And>d. d \<in> set s \<Longrightarrow> P d \<Longrightarrow> d = c"
  shows "js_join [c] (js_split P s) = s"
  using assms
proof (induction s)
  case (Cons d s)
  obtain p ps where ps: "js_split P s = p # ps"
    by (metis js_split_nonempty list.exhaust)
  with Cons show ?case by (cases ps) auto
qed simp

lemma js_join_append:
  "xs \<noteq> [] \<Longrightarrow> ys \<noteq> [] \<Longrightarrow> js_join sep (xs @ ys) = js_join sep xs @ sep @ js_join sep ys"
  by (induction xs rule: list_nonempty_induct) (auto simp: js_join_Cons)

lemma list_ends: "3 \<le> length xs \<Longrightarrow> \<exists>x mid y z. xs = x # mid @ [y, z]"
  by (cases xs; cases "tl xs" rule: rev_cases; cases "butlast (tl xs)" rule: rev_cases)
    (auto simp: butlast_append)

lemma path_candidate_elides:
  assumes "\<not> (92 \<in> set p \<and> 47 \<in> set p)"
    and "3 \<le> length (js_split is_path_sep p)" "length (path_candidate p) < length p"
  shows "\<exists>u v w. p = u @ v @ w \<and> path_candidate p = u @ ellipsis @ w"
proof -
  define c :: js_char where "c = (if 92 \<in> set p then 92 else 47)"
  let ?parts = "js_split is_path_sep p"
  have p: "p = js_join [c] ?parts"
    using assms(1) by (intro js_join_split_uniform [symmetric]) (auto simp: c_def is_path_sep_def)
  obtain x mid y z where parts: "?parts = x # mid @ [y, z]"
    using list_ends [OF assms(2)] by blast
  have cand: "path_candidate p = x @ [c] @ ellipsis @ [c] @ y @ [c] @ z"
    by (simp add: path_candidate_def parts c_def nth_append)
  show ?thesis
  proof (cases "mid = []")
    case True
    then have "length p < length (path_candidate p)"
      by (subst p, subst cand) (simp add: parts)
    then show ?thesis using assms(3) by simp
  next
    case False
    then have "p = (x @ [c]) @ js_join [c] mid @ ([c] @ y @ [c] @ z)"
      by (subst p) (simp add: parts js_join_Cons js_join_append)
    then show ?thesis using cand
      by (intro exI [of _ "x @ [c]"] exI [of _ "js_join [c] mid"] exI [of _ "[c] @ y @ [c] @ z"])
        simp
  qed
qed

lemma take_drop_elides:
  assumes "i \<le> j"
  shows "\<exists>u v w. p = u @ v @ w \<and> take i p @ ellipsis @ drop j p = u @ ellipsis @ w"
proof -
  have "p = take i p @ drop i (take j p) @ drop j p"
    using assms by (metis append.assoc append_take_drop_id min_absorb1 take_take)
  then show ?thesis by blast
qed

lemma shorten_int_elides:
  assumes "13 \<le> m" "m < int (length p)" "\<not> (92 \<in> set p \<and> 47 \<in> set p)"
  shows "\<exists>u v w. p = u @ v @ w \<and> shorten_int p m = u @ ellipsis @ w"
proof -
  let ?h = "max 10 ((m - 3) div 2)"
  consider (two) "length (js_split is_path_sep p) \<le> 2"
    | (cand) "3 \<le> length (js_split is_path_sep p)" "int (length (path_candidate p)) \<le> m"
    | (mid) "3 \<le> length (js_split is_path_sep p)" "m < int (length (path_candidate p))"
    by linarith
  then show ?thesis
  proof cases
    case two
    then show ?thesis
      using take_drop_elides [of "nat (m - 3)" "length p" p] assms by (simp add: shorten_int_def)
  next
    case cand
    then show ?thesis
      using path_candidate_elides [of p] assms by (simp add: shorten_int_def)
  next
    case mid
    have "?h \<le> int (length p) - (m - 3 - ?h)" using assms by linarith
    then show ?thesis
      using mid take_drop_elides [of "nat ?h" "nat (int (length p) - (m - 3 - ?h))" p] assms
      by (simp add: shorten_int_def Let_def)
  qed
qed

text \<open>
  C26. For every integral limit of at least 13, what \<open>shortenPath\<close> returns is no longer
  than the limit, whatever the path.
\<close>

theorem shortenPath_fits:
  assumes "13 \<le> m" "m \<le> 2 ^ 52" "length p \<le> 2 ^ 52"
  shows "int (length (shortenPath p (Fin (of_int m)))) \<le> m"
  using assms length_shorten_int [of m p] by (simp add: shortenPath_int)

theorem shortenPath_fits_witness:
  "int (length (shortenPath (replicate 40 47) (Fin (of_int 20)))) \<le> 20"
  using shortenPath_fits [of 20 "replicate 40 47"] by simp

text \<open>
  A path that is too long for the limit and uses one kind of separator is shown with
  exactly one middle block replaced by three dots: the rest of what is shown is a prefix
  and a suffix of the path itself, in every branch of the code.
\<close>

theorem shortenPath_elides:
  assumes "13 \<le> m" "m \<le> 2 ^ 52" "m < int (length p)" "length p \<le> 2 ^ 52"
    and "\<not> (92 \<in> set p \<and> 47 \<in> set p)"
  shows "\<exists>u v w. p = u @ v @ w \<and> shortenPath p (Fin (of_int m)) = u @ ellipsis @ w"
  using assms shorten_int_elides [of m p] by (simp add: shortenPath_int)

theorem shortenPath_elides_witness:
  "\<exists>u v w. replicate 40 47 = u @ v @ w
     \<and> shortenPath (replicate 40 47) (Fin (of_int 20)) = u @ ellipsis @ w"
  using shortenPath_elides [of 20 "replicate 40 47"] by simp

text \<open>
  Below 13 the limit is not kept: the head of the middle abbreviation has at least ten
  code units, so a long path of three or more parts is shown with 13 code units. The
  guard of \<open>PATH_MAX_LEN\<close> in \<open>src/constants/ui.ts\<close> admits the limits 11 and 12.
\<close>

theorem shortenPath_small_limit:
  assumes "3 \<le> m" "m \<le> 12" "12 < length p" "length p \<le> 2 ^ 52"
    and "2 < length (js_split is_path_sep p)" "m < int (length (path_candidate p))"
  shows "length (shortenPath p (Fin (of_int m))) = 13"
  using assms by (simp add: shortenPath_int shorten_int_def Let_def)

theorem shortenPath_small_limit_witness:
  "length (shortenPath (js ''C:/folder/archive/report.txt'') (Fin (of_int 11))) = 13"
  using shortenPath_small_limit [of 11 "js ''C:/folder/archive/report.txt''"]
  by (simp add: path_candidate_def is_path_sep_def)

end
