(* ===== verification/SizeUtil.thy ===== *)
theory SizeUtil
  imports JsString
begin

text \<open>
  \<open>src/utils/size.ts\<close>: \<open>formatBytes\<close> and \<open>toBytesMb\<close>. The scaling loop divides
  by 1024, which is exact on binary64 values of that size, so the unit and the value shown
  can be stated over the rationals.
\<close>

section \<open>Units\<close>

datatype size_unit = KB | MB | GB | TB

definition units :: "size_unit list" where
  "units = [KB, MB, GB, TB]"

fun unit_index :: "size_unit \<Rightarrow> nat" where
  "unit_index KB = 0"
| "unit_index MB = 1"
| "unit_index GB = 2"
| "unit_index TB = 3"

fun unit_name :: "size_unit \<Rightarrow> js_string" where
  "unit_name KB = js ''KB''"
| "unit_name MB = js ''MB''"
| "unit_name GB = js ''GB''"
| "unit_name TB = js ''TB''"

text \<open>Units are ordered by magnitude.\<close>

instantiation size_unit :: linorder
begin

definition less_eq_size_unit :: "size_unit \<Rightarrow> size_unit \<Rightarrow> bool" where
  "less_eq_size_unit u v \<longleftrightarrow> unit_index u \<le> unit_index v"

definition less_size_unit :: "size_unit \<Rightarrow> size_unit \<Rightarrow> bool" where
  "less_size_unit u v \<longleftrightarrow> unit_index u < unit_index v"

instance
proof
  fix u v :: size_unit
  show "u \<le> v \<Longrightarrow> v \<le> u \<Longrightarrow> u = v"
    by (cases u; cases v) (auto simp: less_eq_size_unit_def)
qed (auto simp: less_eq_size_unit_def less_size_unit_def)

end

section \<open>formatBytes\<close>

record digit_opts =
  digitsB :: "int option"
  digitsKB :: "int option"
  digitsMB :: "int option"
  digitsGB :: "int option"
  digitsTB :: "int option"

text \<open>\<open>opts?.digitsKB ?? 0\<close> and its siblings.\<close>

definition opt_digits :: "digit_opts option \<Rightarrow> (digit_opts \<Rightarrow> int option) \<Rightarrow> int \<Rightarrow> int" where
  "opt_digits opts f d =
     (case opts of None \<Rightarrow> d | Some r \<Rightarrow> (case f r of None \<Rightarrow> d | Some k \<Rightarrow> k))"

definition unit_digits :: "digit_opts option \<Rightarrow> size_unit \<Rightarrow> int" where
  "unit_digits opts u =
     (case u of KB \<Rightarrow> opt_digits opts digitsKB 0 | MB \<Rightarrow> opt_digits opts digitsMB 2
      | GB \<Rightarrow> opt_digits opts digitsGB 2 | TB \<Rightarrow> opt_digits opts digitsTB 2)"

text \<open>The loop \<open>while (val >= 1024 && idx < units.length - 1)\<close>.\<close>

function scale_loop :: "js_number \<Rightarrow> nat \<Rightarrow> js_number \<times> nat" where
  "scale_loop val idx =
     (if js_le (Fin 1024) val \<and> idx < length units - 1
      then scale_loop (js_div val (Fin 1024)) (idx + 1) else (val, idx))"
  by pat_completeness auto
termination
  by (relation "measure (\<lambda>(val, idx). length units - idx)") auto

declare scale_loop.simps [simp del]

text \<open>A template literal prints an integer of this size by its decimal digits.\<close>

definition int_to_string :: "js_number \<Rightarrow> js_string" where
  "int_to_string n = (case n of Fin x \<Rightarrow> int_digits \<lfloor>x\<rfloor> | PInf \<Rightarrow> js ''Infinity''
     | NInf \<Rightarrow> js ''-Infinity'' | NaN \<Rightarrow> js ''NaN'')"

definition formatBytes :: "js_number \<Rightarrow> digit_opts option \<Rightarrow> js_string result" where
  "formatBytes bytes opts =
     (if \<not> is_finite bytes then Inr (js ''-'')
      else let a = math_abs bytes in
        if js_lt a (Fin 1024) then Inr (int_to_string (math_round bytes) @ js '' B'')
        else let (val, idx) = scale_loop (js_div a (Fin 1024)) 0;
                 u = units ! idx;
                 sign = (if js_lt bytes (Fin 0) then js ''-'' else [])
             in case to_fixed val (unit_digits opts u) of
                  Inl e \<Rightarrow> Inl e
                | Inr s \<Rightarrow> Inr (sign @ s @ js '' '' @ unit_name u))"

definition toBytesMb :: "js_number \<Rightarrow> js_number" where
  "toBytesMb mb = math_round (js_mul (js_mul mb (Fin 1024)) (Fin 1024))"

section \<open>The unit chosen\<close>

text \<open>The largest unit not above the magnitude.\<close>

definition unit_of :: "rat \<Rightarrow> size_unit" where
  "unit_of x = (if x < 1024 ^ 2 then KB else if x < 1024 ^ 3 then MB
     else if x < 1024 ^ 4 then GB else TB)"

definition unit_bytes :: "size_unit \<Rightarrow> rat" where
  "unit_bytes u = 1024 ^ (unit_index u + 1)"

lemma pow2_10: "pow2 10 = 1024"
  by (simp add: pow2_def power_int_def)

lemma js_div_1024:
  assumes "is_double x" "1 \<le> x"
  shows "js_div (Fin x) (Fin 1024) = Fin (x / 1024) \<and> is_double (x / 1024)"
proof -
  have "pow2 (10 - 1022) \<le> pow2 0" by (simp only: pow2_le_iff)
  then have "is_double (x / pow2 10)"
    using assms by (intro is_double_scale) (auto intro: order_trans)
  then show ?thesis by (simp add: pow2_10 is_double_def)
qed

lemma scale_loop_step:
  assumes "is_double v" "1024 \<le> v" "k < 3"
  shows "scale_loop (Fin v) k = scale_loop (Fin (v / 1024)) (k + 1)"
  using assms js_div_1024 [of v]
  by (subst scale_loop.simps) (simp add: units_def del: js_div.simps)

lemma scale_loop_stop: "v < 1024 \<or> 3 \<le> k \<Longrightarrow> scale_loop (Fin v) k = (Fin v, k)"
  by (subst scale_loop.simps) (auto simp: units_def)

lemma scale_loop_unit:
  assumes "is_double b" "1024 \<le> b"
  shows "scale_loop (js_div (Fin b) (Fin 1024)) 0
       = (Fin (b / unit_bytes (unit_of b)), unit_index (unit_of b))"
proof -
  have d1: "js_div (Fin b) (Fin 1024) = Fin (b / 1024)" "is_double (b / 1024)"
    using js_div_1024 [of b] assms by auto
  have d2: "is_double (b / 1024 / 1024)" if "1024 ^ 2 \<le> b"
    using js_div_1024 [of "b / 1024"] d1(2) that by auto
  have d3: "is_double (b / 1024 / 1024 / 1024)" if "1024 ^ 3 \<le> b"
    using js_div_1024 [of "b / 1024 / 1024"] d2 that by auto
  consider "b < 1024 ^ 2" | "1024 ^ 2 \<le> b" "b < 1024 ^ 3"
    | "1024 ^ 3 \<le> b" "b < 1024 ^ 4" | "1024 ^ 4 \<le> b" by linarith
  then have "scale_loop (Fin (b / 1024)) 0
      = (Fin (b / unit_bytes (unit_of b)), unit_index (unit_of b))"
  proof cases
    case 1
    then show ?thesis by (simp add: scale_loop_stop unit_of_def unit_bytes_def)
  next
    case 2
    then show ?thesis using d1(2)
      by (simp add: scale_loop_step scale_loop_stop unit_of_def unit_bytes_def)
  next
    case 3
    then show ?thesis using d1(2) d2
      by (simp add: scale_loop_step scale_loop_stop unit_of_def unit_bytes_def)
  next
    case 4
    then show ?thesis using d1(2) d2 d3
      by (simp add: scale_loop_step scale_loop_stop unit_of_def unit_bytes_def)
  qed
  then show ?thesis by (simp only: d1(1))
qed

lemma unit_of_bounds:
  assumes "1024 \<le> x"
  shows "unit_bytes (unit_of x) \<le> x" "unit_of x = TB \<or> x < 1024 * unit_bytes (unit_of x)"
  using assms by (auto simp: unit_of_def unit_bytes_def)

lemma units_index: "units ! unit_index u = u"
  by (cases u) (simp_all add: units_def)

lemma to_fixed_ok: "0 \<le> f \<Longrightarrow> f \<le> 100 \<Longrightarrow> \<exists>s. to_fixed n f = Inr s"
  by (simp split: js_number.splits)

lemma formatBytes_unit:
  assumes "is_double b" "1024 \<le> \<bar>b\<bar>"
  shows "formatBytes (Fin b) opts =
     (case to_fixed (Fin (\<bar>b\<bar> / unit_bytes (unit_of \<bar>b\<bar>))) (unit_digits opts (unit_of \<bar>b\<bar>)) of
        Inl e \<Rightarrow> Inl e
      | Inr s \<Rightarrow> Inr ((if b < 0 then js ''-'' else []) @ s @ js '' '' @ unit_name (unit_of \<bar>b\<bar>)))"
proof -
  have "is_double \<bar>b\<bar>" using assms(1) by (rule is_double_abs)
  from scale_loop_unit [OF this assms(2)] show ?thesis
    using assms(2)
    by (simp add: formatBytes_def Let_def units_index split: sum.split
        del: js_div.simps to_fixed.simps)
qed

lemma formatBytes_ok: "\<exists>s. formatBytes n None = Inr s"
proof -
  have d: "unit_digits None u = 0 \<or> unit_digits None u = 2" for u
    by (cases u) (auto simp: unit_digits_def opt_digits_def)
  have "\<exists>s. to_fixed v (unit_digits None u) = Inr s" for v u
    using d [of u] by (intro to_fixed_ok) auto
  then show ?thesis
    by (auto simp: formatBytes_def Let_def split: prod.splits sum.splits simp del: to_fixed.simps)
      (metis Inl_Inr_False)
qed

text \<open>
  For every finite number of magnitude at least 1024 the scaling loop ends in the
  largest unit not above it, capped at TB, without rounding error: the text is the sign,
  the magnitude divided by that unit under \<open>toFixed\<close> with the digits of the unit, and the
  unit's name.
\<close>

theorem formatBytes_scaled:
  assumes "is_double b" "1024 \<le> \<bar>b\<bar>"
  shows "formatBytes (Fin b) opts =
     map_sum id (\<lambda>s. (if b < 0 then js ''-'' else []) @ s @ js '' '' @ unit_name (unit_of \<bar>b\<bar>))
       (to_fixed (Fin (\<bar>b\<bar> / unit_bytes (unit_of \<bar>b\<bar>))) (unit_digits opts (unit_of \<bar>b\<bar>)))"
  using formatBytes_unit [OF assms] by (simp split: sum.split del: to_fixed.simps)

theorem formatBytes_scaled_witness:
  "formatBytes (Fin 1536) None = map_sum id (\<lambda>s. s @ js '' '' @ js ''KB'') (to_fixed (Fin (3 / 2)) 0)"
  using formatBytes_scaled [of 1536 None] is_double_int [of 1536]
  by (simp add: unit_of_def unit_bytes_def unit_digits_def opt_digits_def del: to_fixed.simps)

text \<open>
  With the default digits \<open>formatBytes\<close> never throws, and a number that is not
  finite is shown as a dash.
\<close>

theorem formatBytes_total:
  "(\<exists>s. formatBytes n None = Inr s) \<and> (formatBytes PInf None = Inr (js ''-''))
     \<and> formatBytes NaN None = Inr (js ''-'')"
  using formatBytes_ok by (simp add: formatBytes_def)



section \<open>toBytesMb\<close>

text \<open>
  Every finite number of megabytes below \<open>2 ^ 1000\<close> becomes the nearest whole number of
  bytes, halves rounded up: the two multiplications are exact.
\<close>

theorem toBytesMb_exact:
  assumes "is_double x" "\<bar>x\<bar> < pow2 1000"
  shows "toBytesMb (Fin x) = Fin (of_int \<lfloor>x * 2 ^ 20 + 1 / 2\<rfloor>)"
proof -
  have small: "\<bar>y * pow2 10\<bar> < pow2 (k + 10)" if "\<bar>y\<bar> < pow2 k" for y k
    using that by (simp add: abs_mult pow2_add)
  have "\<bar>x * pow2 10\<bar> < pow2 1010" using small [of x 1000] assms(2) by simp
  moreover have "\<bar>x * pow2 10 * pow2 10\<bar> < pow2 1020"
    using small [of "x * pow2 10" 1010] \<open>\<bar>x * pow2 10\<bar> < pow2 1010\<close> by simp
  ultimately have b: "\<bar>x * pow2 10\<bar> < pow2 1024" "\<bar>x * pow2 10 * pow2 10\<bar> < pow2 1024"
    by (auto elim: less_le_trans)
  have "is_double (x * pow2 10)" "is_double (x * pow2 10 * pow2 10)"
    using assms(1) b is_double_upscale by (simp_all add: is_double_upscale)
  then show ?thesis by (simp add: toBytesMb_def is_double_def pow2_10 mult.commute)
qed

theorem toBytesMb_exact_witness: "toBytesMb (Fin (5 / 2)) = Fin 2621440"
proof -
  have "pow2 3 = 8" by (simp add: pow2_def)
  moreover have "pow2 3 < pow2 1000" "pow2 3 < pow2 1024" by simp_all
  ultimately have big: "8 < pow2 1000" "8 < pow2 1024" by simp_all
  then have "is_double (of_int 5 * pow2 (- 1))"
    by (intro is_double_dyadic) (simp_all add: pow2_minus pow2_1)
  then have "is_double (5 / 2)" by (simp add: pow2_minus pow2_1)
  then show ?thesis using toBytesMb_exact [of "5 / 2"] big by (simp add: floor_eq_iff)
qed

end
