(* ===== verification/DateUtil.thy ===== *)
theory DateUtil
  imports SizeUtil
begin

text \<open>
  \<open>src/utils/date.ts\<close>: absolute and relative times. The rendering of an instant by
  \<open>Date.prototype.toLocaleString\<close> depends on the locale and the time zone of the
  machine, so it is a parameter \<open>locale_string\<close> on milliseconds; the current time
  \<open>Date.now()\<close> is a parameter as well. The backend sends seconds.
\<close>

definition formatTs :: "(js_number \<Rightarrow> js_string) \<Rightarrow> js_number option \<Rightarrow> js_string" where
  "formatTs locale_string ts =
     (case ts of None \<Rightarrow> js ''-''
      | Some t \<Rightarrow> if \<not> is_finite t then js ''-'' else locale_string (js_mul t (Fin 1000)))"

text \<open>The texts of the relative form: just now, seconds, minutes, hours and days ago.\<close>

definition just_now :: js_string where
  "just_now = [0x521A, 0x521A]"

definition seconds_ago :: js_string where
  "seconds_ago = [32, 0x79D2, 0x524D]"

definition minutes_ago :: js_string where
  "minutes_ago = [32, 0x5206, 0x949F, 0x524D]"

definition hours_ago :: js_string where
  "hours_ago = [32, 0x5C0F, 0x65F6, 0x524D]"

definition days_ago :: js_string where
  "days_ago = [32, 0x5929, 0x524D]"

definition formatRelativeTs ::
  "(js_number \<Rightarrow> js_string) \<Rightarrow> js_number \<Rightarrow> js_number option \<Rightarrow> js_string" where
  "formatRelativeTs locale_string now ts =
     (case ts of None \<Rightarrow> js ''-''
      | Some t \<Rightarrow>
        if \<not> is_finite t then js ''-''
        else
          let ms = js_mul t (Fin 1000); diffMs = js_sub now ms in
          if js_lt diffMs (Fin 0) then formatTs locale_string ts
          else
            let sec = math_floor (js_div diffMs (Fin 1000)) in
            if js_lt sec (Fin 5) then just_now
            else if js_lt sec (Fin 60) then int_to_string sec @ seconds_ago
            else
              let min = math_floor (js_div sec (Fin 60)) in
              if js_lt min (Fin 60) then int_to_string min @ minutes_ago
              else
                let hr = math_floor (js_div min (Fin 60)) in
                if js_lt hr (Fin 24) then int_to_string hr @ hours_ago
                else
                  let day = math_floor (js_div hr (Fin 24)) in
                  if js_lt day (Fin 30) then int_to_string day @ days_ago
                  else formatTs locale_string ts)"

section \<open>Whole seconds\<close>

text \<open>The intended result for an age of \<open>d\<close> milliseconds, over the integers.\<close>

definition relative_spec :: "int \<Rightarrow> js_string option" where
  "relative_spec d =
     (let sec = d div 1000 in
      if d < 0 then None
      else if sec < 5 then Some just_now
      else if sec < 60 then Some (int_digits sec @ seconds_ago)
      else if sec < 3600 then Some (int_digits (sec div 60) @ minutes_ago)
      else if sec < 86400 then Some (int_digits (sec div 3600) @ hours_ago)
      else if sec < 2592000 then Some (int_digits (sec div 86400) @ days_ago)
      else None)"

lemma int_to_string_int [simp]: "int_to_string (Fin (of_int i)) = int_digits i"
  by (simp add: int_to_string_def)

text \<open>
  C31. For whole seconds within the exact integers of binary64, the relative text is the
  one of the age in seconds, minutes, hours or days rounded down; from thirty days on, and
  for an instant in the future, it is the absolute time. The nested divisions lose nothing
  against dividing the seconds once.
\<close>

theorem formatRelativeTs_spec:
  assumes "\<bar>1000 * t\<bar> \<le> 2 ^ 53" "\<bar>now - 1000 * t\<bar> < 2 ^ 53"
  shows "formatRelativeTs loc (Fin (of_int now)) (Some (Fin (of_int t)))
       = (case relative_spec (now - 1000 * t) of
            Some s \<Rightarrow> s | None \<Rightarrow> loc (Fin (of_int (1000 * t))))"
proof -
  define e d sec where "e = 1000 * t" and "d = now - e" and "sec = d div 1000"
  have ms: "js_mul (Fin (of_int t)) (Fin 1000) = Fin (of_int e)"
    using js_mul_int [of t 1000] assms(1) by (simp add: e_def mult.commute)
  have diff: "js_sub (Fin (of_int now)) (Fin (of_int e)) = Fin (of_int d)"
    using js_sub_int [of now e] assms(2) by (simp add: d_def e_def)
  have abs: "formatTs loc (Some (Fin (of_int t))) = loc (Fin (of_int e))"
    using ms by (simp add: formatTs_def)
  have "formatRelativeTs loc (Fin (of_int now)) (Some (Fin (of_int t)))
      = (case relative_spec d of Some s \<Rightarrow> s | None \<Rightarrow> loc (Fin (of_int e)))"
  proof (cases "d < 0")
    case True
    then show ?thesis
      by (simp add: formatRelativeTs_def relative_spec_def Let_def ms diff abs
          del: js_mul.simps)
  next
    case False
    have d: "d < 2 ^ 53" using assms(2) by (simp add: d_def e_def)
    then have s: "0 \<le> sec" "sec < 2 ^ 53" using False by (auto simp: sec_def)
    have quot: "math_floor (js_div (Fin (of_int d)) (Fin 1000)) = Fin (of_int sec)"
      "math_floor (js_div (Fin (of_int sec)) (Fin 60)) = Fin (of_int (sec div 60))"
      "math_floor (js_div (Fin (of_int (sec div 60))) (Fin 60)) = Fin (of_int (sec div 3600))"
      "math_floor (js_div (Fin (of_int (sec div 3600))) (Fin 24)) = Fin (of_int (sec div 86400))"
      using floor_div_int [of d 1000] floor_div_int [of sec 60] floor_div_int [of "sec div 60" 60]
        floor_div_int [of "sec div 3600" 24] False d s
      by (simp_all add: sec_def flip: zdiv_zmult2_eq)
    have "sec div 60 < 60 \<longleftrightarrow> sec < 3600" "sec div 3600 < 24 \<longleftrightarrow> sec < 86400"
      "sec div 86400 < 30 \<longleftrightarrow> sec < 2592000" by linarith+
    with False show ?thesis
      by (simp add: formatRelativeTs_def ms diff abs quot relative_spec_def Let_def
          del: js_mul.simps js_div.simps math_floor.simps flip: sec_def)
  qed
  then show ?thesis by (simp only: d_def e_def)
qed

theorem formatRelativeTs_spec_witness:
  "formatRelativeTs (\<lambda>_. []) (Fin (of_int 10000000)) (Some (Fin (of_int 2800)))
     = int_digits 2 @ hours_ago"
  using formatRelativeTs_spec [of 2800 10000000 "\<lambda>_. []"] by (simp add: relative_spec_def)

end
