(* ===== verification/Regex.thy ===== *)
theory Regex
  imports JsString
begin

text \<open>
  What the program uses of regular expressions. A compiled expression is a matcher: given
  a subject and a position, the end of the match that starts there and its capture groups,
  or nothing. On top of any matcher stand \<open>String.prototype.split\<close> and
  \<open>RegExp.prototype.test\<close> with its \<open>lastIndex\<close>, as the language defines them. For the
  patterns the program builds itself, an alternation of escaped literals in one group, the
  matcher is defined here from the pattern text.
\<close>

type_synonym matcher = "js_string \<Rightarrow> nat \<Rightarrow> (nat \<times> js_string option list) option"

section \<open>split\<close>

text \<open>\<open>AdvanceStringIndex\<close>: with the \<open>u\<close> flag a surrogate pair counts as one step.\<close>

definition advance :: "bool \<Rightarrow> js_string \<Rightarrow> nat \<Rightarrow> nat" where
  "advance unicode s i =
     (if unicode \<and> i + 1 < length s \<and> 0xD800 \<le> s ! i \<and> s ! i \<le> 0xDBFF
         \<and> 0xDC00 \<le> s ! (i + 1) \<and> s ! (i + 1) \<le> 0xDFFF then i + 2 else i + 1)"

text \<open>
  The loop of \<open>RegExp.prototype[Symbol.split]\<close> from the last split point \<open>p\<close> and the
  current position \<open>q\<close>. A part is \<open>None\<close> where a group took no part in the match. The
  end of a match is never before its start, so the \<open>max\<close> is the identity.
\<close>

function split_loop :: "bool \<Rightarrow> matcher \<Rightarrow> js_string \<Rightarrow> nat \<Rightarrow> nat \<Rightarrow> js_string option list" where
  "split_loop unicode m s p q =
     (if length s \<le> q then [Some (drop p s)]
      else case m s q of
          None \<Rightarrow> split_loop unicode m s p (advance unicode s q)
        | Some (e0, caps) \<Rightarrow>
            let e = max q (min e0 (length s)) in
            if e = p then split_loop unicode m s p (advance unicode s q)
            else Some (take (q - p) (drop p s)) # caps @ split_loop unicode m s e e)"
  by pat_completeness auto
termination
  by (relation "measures [\<lambda>(u, m, s, p, q). length s - q, \<lambda>(u, m, s, p, q). if p = q then 0 else 1]")
    (auto simp: advance_def)

declare split_loop.simps [simp del]

definition re_split :: "bool \<Rightarrow> matcher \<Rightarrow> js_string \<Rightarrow> js_string option list" where
  "re_split unicode m s =
     (if s = [] then (if m s 0 = None then [Some s] else []) else split_loop unicode m s 0 0)"

section \<open>test\<close>

text \<open>The search of \<open>RegExpBuiltinExec\<close> from position \<open>i\<close>: where the match ends.\<close>

function find_match :: "bool \<Rightarrow> bool \<Rightarrow> matcher \<Rightarrow> js_string \<Rightarrow> nat \<Rightarrow> nat option" where
  "find_match sticky unicode m s i =
     (if length s < i then None
      else case m s i of
          Some (e, _) \<Rightarrow> Some e
        | None \<Rightarrow> if sticky then None else find_match sticky unicode m s (advance unicode s i))"
  by pat_completeness auto
termination
  by (relation "measure (\<lambda>(st, u, m, s, i). length s + 1 - i)") (auto simp: advance_def)

declare find_match.simps [simp del]

text \<open>
  \<open>re.test(s)\<close> with \<open>lastIndex\<close> as state: only with the \<open>g\<close> or \<open>y\<close> flag does the
  search start at \<open>lastIndex\<close> and write it back, 0 after a failure.
\<close>

definition re_test :: "bool \<Rightarrow> bool \<Rightarrow> bool \<Rightarrow> matcher \<Rightarrow> js_string \<Rightarrow> nat \<Rightarrow> bool \<times> nat" where
  "re_test global sticky unicode m s lastIndex =
     (let keep = global \<or> sticky in
      case find_match sticky unicode m s (if keep then lastIndex else 0) of
        None \<Rightarrow> (False, if keep then 0 else lastIndex)
      | Some e \<Rightarrow> (True, if keep then e else lastIndex))"

section \<open>Alternations of literals\<close>

text \<open>The code units with a meaning of their own in a pattern.\<close>

definition syntax_char :: "js_char \<Rightarrow> bool" where
  "syntax_char c \<longleftrightarrow> c \<in> set (js ''.*+?^${}()|[]'') \<or> c = 92"

text \<open>\<open>t.replace(/[.*+?^${}()|[\]\\]/g, '\\$&')\<close>\<close>

definition escapeRe :: "js_string \<Rightarrow> js_string" where
  "escapeRe t = concat (map (\<lambda>c. if syntax_char c then [92, c] else [c]) t)"

text \<open>
  The reading of a pattern that consists of literal code units, escaped syntax characters
  and bars: the alternatives in order. Any other pattern is outside this fragment.
\<close>

fun read_alts :: "js_string \<Rightarrow> js_string \<Rightarrow> js_string list option" where
  "read_alts cur [] = Some [cur]"
| "read_alts cur (c # s) =
     (if c = 92 then
        (case s of [] \<Rightarrow> None
         | d # r \<Rightarrow> if syntax_char d then read_alts (cur @ [d]) r else None)
      else if c = 124 then map_option ((#) cur) (read_alts [] s)
      else if syntax_char c then None
      else read_alts (cur @ [c]) s)"

text \<open>The pattern is one group around the alternatives.\<close>

definition read_group :: "js_string \<Rightarrow> js_string list option" where
  "read_group src =
     (case src of [] \<Rightarrow> None
      | c # r \<Rightarrow> if c = 40 \<and> r \<noteq> [] \<and> last r = 41 then read_alts [] (butlast r) else None)"

text \<open>
  The matcher of an alternation of literals under the \<open>i\<close> flag: code units are compared
  after \<open>canon\<close>, the case canonicalisation of the Unicode tables. The first alternative
  that matches wins; the only group captures the match.
\<close>

definition lit_at :: "(js_char \<Rightarrow> js_char) \<Rightarrow> js_string \<Rightarrow> nat \<Rightarrow> js_string \<Rightarrow> bool" where
  "lit_at canon s i t \<longleftrightarrow>
     i + length t \<le> length s \<and> map canon (take (length t) (drop i s)) = map canon t"

definition lit_matcher :: "(js_char \<Rightarrow> js_char) \<Rightarrow> js_string list \<Rightarrow> matcher" where
  "lit_matcher canon alts s i =
     (case filter (lit_at canon s i) alts of [] \<Rightarrow> None
      | t # _ \<Rightarrow> Some (i + length t, [Some (take (length t) (drop i s))]))"

definition compile_group :: "(js_char \<Rightarrow> js_char) \<Rightarrow> js_string \<Rightarrow> matcher result" where
  "compile_group canon src =
     (case read_group src of None \<Rightarrow> Inl (SyntaxError src) | Some alts \<Rightarrow> Inr (lit_matcher canon alts))"

section \<open>Escaping is read back\<close>

lemma read_alts_escape:
  "read_alts cur (escapeRe t @ r) = read_alts (cur @ t) r"
proof (induction t arbitrary: cur)
  case (Cons c t)
  show ?case
    using Cons.IH [of "cur @ [c]"]
    by (cases "syntax_char c") (auto simp: escapeRe_def syntax_char_def)
qed (simp add: escapeRe_def)

lemma read_alts_join:
  "ts \<noteq> [] \<Longrightarrow> read_alts [] (js_join [124] (map escapeRe ts)) = Some ts"
proof (induction ts rule: list_nonempty_induct)
  case (single t)
  show ?case using read_alts_escape [of "[]" t "[]"] by simp
next
  case (cons t ts)
  have "js_join [124] (map escapeRe (t # ts)) = escapeRe t @ 124 # js_join [124] (map escapeRe ts)"
    using cons.hyps by (simp add: js_join_Cons)
  with cons.IH show ?case by (simp add: read_alts_escape)
qed

lemma read_group_join:
  "ts \<noteq> [] \<Longrightarrow> read_group (40 # js_join [124] (map escapeRe ts) @ [41]) = Some ts"
  by (simp add: read_group_def read_alts_join)

section \<open>Matchers that keep the text together\<close>

text \<open>The text of all parts, and for each of its code units whether its part satisfies \<open>f\<close>.\<close>

definition parts_text :: "js_string option list \<Rightarrow> js_string" where
  "parts_text ps = concat (map (\<lambda>x. case x of None \<Rightarrow> [] | Some t \<Rightarrow> t) ps)"

definition parts_mask :: "(js_string \<Rightarrow> bool) \<Rightarrow> js_string option list \<Rightarrow> bool list" where
  "parts_mask f ps =
     concat (map (\<lambda>x. case x of None \<Rightarrow> [] | Some t \<Rightarrow> replicate (length t) (f t)) ps)"

text \<open>
  A matcher whose matches stay inside the subject and capture exactly the text they cover,
  as a pattern does whose only group is the outer one. Splitting by it loses nothing.
\<close>

locale exact_matcher =
  fixes m :: matcher
  assumes exact: "m s i = Some (e, caps) \<Longrightarrow>
    i \<le> e \<and> e \<le> length s \<and> caps = [Some (take (e - i) (drop i s))]"
begin

lemma split_loop_match:
  assumes "m s q = Some (e, caps)" "q < length s" "p \<le> q" "e \<noteq> p"
  shows "split_loop u m s p q
       = Some (take (q - p) (drop p s)) # Some (take (e - q) (drop q s)) # split_loop u m s e e"
  using exact [OF assms(1)] assms by (subst split_loop.simps) (simp add: Let_def max_def min_def)

lemma split_loop_skip:
  "m s q = None \<Longrightarrow> q < length s \<Longrightarrow> split_loop u m s p q = split_loop u m s p (advance u s q)"
  by (subst split_loop.simps) simp

lemma split_loop_stall:
  "m s q = Some (p, caps) \<Longrightarrow> q < length s
     \<Longrightarrow> split_loop u m s p q = split_loop u m s p (advance u s q)"
  using exact [of s q p caps] by (subst split_loop.simps) (simp add: max_def min_def)

lemma split_loop_end: "length s \<le> q \<Longrightarrow> split_loop u m s p q = [Some (drop p s)]"
  by (subst split_loop.simps) simp

lemma cover_induct [case_names finish skip stall hit]:
  assumes "\<And>p q. length s \<le> q \<Longrightarrow> P p q"
    and "\<And>p q. q < length s \<Longrightarrow> m s q = None \<Longrightarrow> P p (advance u s q) \<Longrightarrow> P p q"
    and "\<And>p q caps. q < length s \<Longrightarrow> m s q = Some (p, caps) \<Longrightarrow> P p (advance u s q) \<Longrightarrow> P p q"
    and "\<And>p q e caps. q < length s \<Longrightarrow> m s q = Some (e, caps) \<Longrightarrow> e \<noteq> p \<Longrightarrow> P e e \<Longrightarrow> P p q"
  shows "P p q"
proof (induction "2 * (length s - q) + (if p = q then 0 else 1)" arbitrary: p q rule: less_induct)
  case less
  have adv: "P p (advance u s q)" if "q < length s"
    using that by (intro less.hyps) (auto simp: advance_def)
  consider "length s \<le> q" | "q < length s" "m s q = None"
    | e caps where "q < length s" "m s q = Some (e, caps)" by (metis linorder_not_le option.exhaust surj_pair)
  then show ?case
  proof cases
    case 1
    then show ?thesis by (rule assms(1))
  next
    case 2
    show ?thesis by (rule assms(2) [OF 2 adv [OF 2(1)]])
  next
    case 3
    show ?thesis
    proof (cases "e = p")
      case True
      with 3 show ?thesis using adv assms(3) by blast
    next
      case False
      have "P e e" using exact [OF 3(2)] 3(1) False by (intro less.hyps) auto
      then show ?thesis by (rule assms(4) [OF 3 False])
    qed
  qed
qed

lemma split_loop_text:
  assumes "p \<le> q" "p \<le> length s"
  shows "parts_text (split_loop u m s p q) = drop p s"
  using assms
proof (induction p q rule: cover_induct [where s = s and u = u])
  case (finish p q)
  then show ?case by (simp add: split_loop_end parts_text_def)
next
  case (skip p q)
  then show ?case by (simp add: split_loop_skip advance_def split: if_splits)
next
  case (stall p q caps)
  then show ?case by (simp add: split_loop_stall advance_def split: if_splits)
next
  case (hit p q e caps)
  have e: "q \<le> e" "e \<le> length s" using exact [OF hit(2)] by auto
  have "drop p s = take (q - p) (drop p s) @ drop q s"
    using hit.prems(1) append_take_drop_id [of "q - p" "drop p s"] by simp
  also have "drop q s = take (e - q) (drop q s) @ drop e s"
    using e append_take_drop_id [of "e - q" "drop q s"] by simp
  finally show ?case
    using hit e by (simp add: split_loop_match parts_text_def)
qed

lemma re_split_text: "parts_text (re_split u m s) = s"
  using split_loop_text [of 0 0 s u] by (auto simp: re_split_def parts_text_def)

lemma re_split_no_gap: "None \<notin> set (re_split u m s)"
proof -
  have "None \<notin> set (split_loop u m s p q)" if "p \<le> q" for p q
    using that
  proof (induction p q rule: cover_induct [where s = s and u = u])
    case (skip p q)
    then show ?case by (simp add: split_loop_skip advance_def split: if_splits)
  next
    case (stall p q caps)
    then show ?case by (simp add: split_loop_stall advance_def split: if_splits)
  next
    case (hit p q e caps)
    then show ?case by (simp add: split_loop_match)
  qed (simp add: split_loop_end)
  then show ?thesis by (simp add: re_split_def)
qed

end

text \<open>
  If in addition no match is empty, every place where the pattern matches lies in a
  captured part.
\<close>

locale covering_matcher = exact_matcher +
  assumes progress: "m s i = Some (e, caps) \<Longrightarrow> i < e"
begin

lemma split_loop_mask:
  assumes "p \<le> q" "p \<le> i" "i < length s" "m s i \<noteq> None"
    and "\<And>j. p \<le> j \<Longrightarrow> j < q \<Longrightarrow> m s j = None"
    and mark: "\<And>j e caps. m s j = Some (e, caps) \<Longrightarrow> f (take (e - j) (drop j s))"
  shows "parts_mask f (split_loop False m s p q) ! (i - p)"
  using assms(1-5)
proof (induction p q rule: cover_induct [where s = s and u = False])
  case (finish p q)
  then show ?case using linorder_not_less by fastforce
next
  case (skip p q)
  then have "m s j = None" if "p \<le> j" "j < Suc q" for j
    using that by (cases "j = q") auto
  with skip show ?case by (simp add: split_loop_skip advance_def)
next
  case (stall p q caps)
  then show ?case using progress [OF stall(2)] by simp
next
  case (hit p q e caps)
  have e: "q < e" "e \<le> length s" using progress [OF hit(2)] exact [OF hit(2)] by auto
  have split: "parts_mask f (split_loop False m s p q)
      = replicate (q - p) (f (take (q - p) (drop p s))) @ replicate (e - q) True
        @ parts_mask f (split_loop False m s e e)"
    using hit e mark [OF hit(2)] by (simp add: split_loop_match parts_mask_def)
  have "q \<le> i" using hit.prems(2,4,5) by (meson not_le)
  show ?case
  proof (cases "i < e")
    case True
    then have "\<not> i - p < q - p" "i - p - (q - p) < e - q" using \<open>q \<le> i\<close> hit.prems(1) by linarith+
    then show ?thesis by (simp add: split nth_append)
  next
    case False
    then have "parts_mask f (split_loop False m s e e) ! (i - e)"
      using hit by auto
    moreover have "\<not> i - p < q - p" "\<not> i - p - (q - p) < e - q"
      "i - p - (q - p) - (e - q) = i - e"
      using False \<open>q \<le> i\<close> hit.prems(1) e by linarith+
    ultimately show ?thesis by (simp add: split nth_append)
  qed
qed

lemma re_split_mask:
  assumes "i < length s" "m s i \<noteq> None"
    and "\<And>j e caps. m s j = Some (e, caps) \<Longrightarrow> f (take (e - j) (drop j s))"
  shows "parts_mask f (re_split False m s) ! i"
proof -
  have "s \<noteq> []" using assms(1) by auto
  then show ?thesis
    using split_loop_mask [of 0 0 i s f] assms by (simp add: re_split_def)
qed

end

section \<open>The literal matcher\<close>

text \<open>An alternation of non-empty literals.\<close>

definition nonempty_alts :: "js_string list \<Rightarrow> js_string list" where
  "nonempty_alts alts = filter (\<lambda>t. t \<noteq> []) alts"

lemma lit_matcher_Some:
  assumes "lit_matcher canon alts s i = Some (e, caps)"
  shows "\<exists>t\<in>set alts. lit_at canon s i t \<and> e = i + length t \<and> caps = [Some (take (length t) (drop i s))]"
proof -
  obtain t ts where f: "filter (lit_at canon s i) alts = t # ts"
    using assms by (auto simp: lit_matcher_def split: list.splits)
  then have "t \<in> set (filter (lit_at canon s i) alts)" by simp
  then have "t \<in> set alts" "lit_at canon s i t" by simp_all
  with f assms show ?thesis by (auto simp: lit_matcher_def)
qed

lemma lit_matcher_hit: "t \<in> set alts \<Longrightarrow> lit_at canon s i t \<Longrightarrow> lit_matcher canon alts s i \<noteq> None"
  by (auto simp: lit_matcher_def filter_empty_conv split: list.splits)

interpretation lit: covering_matcher "lit_matcher canon (nonempty_alts alts)" for canon alts
  by unfold_locales (auto dest!: lit_matcher_Some simp: nonempty_alts_def lit_at_def)

lemma nonempty_alts_id: "[] \<notin> set alts \<Longrightarrow> nonempty_alts alts = alts"
  by (auto simp: nonempty_alts_def filter_id_conv)

end
