(* ===== verification/Highlight.thy ===== *)
theory Highlight
  imports Regex
begin

text \<open>
  \<open>src/utils/highlight.tsx\<close>: the marking of search terms in names and summaries. Three
  modes follow each other: a quoted phrase, a \<open>/pattern/flags\<close> query, and white space
  separated terms, which is also the fallback for a pattern that does not compile. Two
  parameters stand for the Unicode case tables (\<open>canon\<close>, the canonicalisation of the
  \<open>i\<close> flag on one code unit, and \<open>lower\<close>, \<open>toLowerCase\<close>), one for the regular
  expression compiler on patterns typed by the user (\<open>compile\<close>, \<open>None\<close> for a
  syntax error). The patterns the code builds itself are compiled by \<open>compile_group\<close>.
\<close>

section \<open>The rendered element\<close>

text \<open>A child of the rendered span; its content is \<open>None\<close> where \<open>undefined\<close> is shown,
  that is, nothing.\<close>

datatype node = Mark "js_string option" | Plain "js_string option"

datatype rendered = Whole js_string | Parts "node list"

fun node_text :: "node \<Rightarrow> js_string option" where
  "node_text (Mark t) = t"
| "node_text (Plain t) = t"

definition shown :: "rendered \<Rightarrow> js_string" where
  "shown r = (case r of Whole t \<Rightarrow> t | Parts ns \<Rightarrow> parts_text (map node_text ns))"

text \<open>For each code unit shown, whether it lies in a mark.\<close>

definition mark_mask :: "rendered \<Rightarrow> bool list" where
  "mark_mask r = (case r of Whole t \<Rightarrow> replicate (length t) False
     | Parts ns \<Rightarrow> concat (map (\<lambda>n. case node_text n of None \<Rightarrow> []
         | Some t \<Rightarrow> replicate (length t) (case n of Mark _ \<Rightarrow> True | Plain _ \<Rightarrow> False)) ns))"

section \<open>Reading the query\<close>

text \<open>\<open>q.match(/^"([\s\S]*)"$/)\<close>\<close>

definition quoted_phrase :: "js_string \<Rightarrow> js_string option" where
  "quoted_phrase q =
     (if 2 \<le> length q \<and> hd q = 34 \<and> last q = 34 then Some (butlast (tl q)) else None)"

definition line_terminator :: "js_char \<Rightarrow> bool" where
  "line_terminator c \<longleftrightarrow> c \<in> set [10, 13, 0x2028, 0x2029]"

text \<open>\<open>q.match(/^\/(.*)\/(.*)$/)\<close>: the first group is greedy and runs to the last slash.\<close>

definition regex_query :: "js_string \<Rightarrow> (js_string \<times> js_string) option" where
  "regex_query q =
     (case q of [] \<Rightarrow> None
      | c # r \<Rightarrow>
        let k = js_last_index 47 r in
        if c = 47 \<and> 0 \<le> k \<and> list_all (\<lambda>d. \<not> line_terminator d) r
        then Some (take (nat k) r, drop (nat k + 1) r) else None)"

definition safe_flags :: "js_string \<Rightarrow> js_string" where
  "safe_flags f =
     (let flagsRaw = (if f = [] then js ''i'' else f);
          kept = filter (\<lambda>c. c \<in> set (js ''gimsuy'')) flagsRaw
      in if kept = [] then js ''i'' else kept)"

text \<open>The matcher of the class \<open>\s+\<close>, greedy and without groups.\<close>

definition ws_run :: matcher where
  "ws_run s i =
     (let n = length (takeWhile is_ws (drop i s)) in if n = 0 then None else Some (i + n, []))"

text \<open>\<open>q.split(/\s+/).map(t => t.trim()).filter(Boolean)\<close>\<close>

definition query_terms :: "js_string \<Rightarrow> js_string list" where
  "query_terms q =
     filter (\<lambda>t. t \<noteq> []) (map js_trim (List.map_filter (\<lambda>x. x) (re_split False ws_run q)))"

section \<open>highlight\<close>

text \<open>The children of a literal mode: a part is marked when it equals a term up to case.\<close>

definition literal_nodes ::
  "(js_string \<Rightarrow> js_string) \<Rightarrow> js_string list \<Rightarrow> js_string option list \<Rightarrow> node list" where
  "literal_nodes lower terms parts =
     map (\<lambda>p. case p of None \<Rightarrow> Plain None
        | Some t \<Rightarrow> if list_ex (\<lambda>u. lower t = lower u) terms then Mark p else Plain p) parts"

text \<open>The children of the pattern mode: \<open>re.test\<close> on each part, with its \<open>lastIndex\<close>.\<close>

fun regex_nodes ::
  "bool \<Rightarrow> bool \<Rightarrow> bool \<Rightarrow> matcher \<Rightarrow> nat \<Rightarrow> js_string option list \<Rightarrow> node list" where
  "regex_nodes g y u m lastIndex [] = []"
| "regex_nodes g y u m lastIndex (p # ps) =
     (let (hit, lastIndex') =
            re_test g y u m (case p of None \<Rightarrow> js ''undefined'' | Some t \<Rightarrow> t) lastIndex
      in (if hit then Mark p else Plain p) # regex_nodes g y u m lastIndex' ps)"

definition literal_mode ::
  "(js_char \<Rightarrow> js_char) \<Rightarrow> (js_string \<Rightarrow> js_string) \<Rightarrow> js_string \<Rightarrow> js_string list \<Rightarrow> rendered result" where
  "literal_mode canon lower text terms =
     (let union = js_join [124] (map escapeRe terms) in
      case compile_group canon (40 # union @ [41]) of
        Inl e \<Rightarrow> Inl e
      | Inr m \<Rightarrow> Inr (Parts (literal_nodes lower terms (re_split False m text))))"

definition highlight ::
  "(js_char \<Rightarrow> js_char) \<Rightarrow> (js_string \<Rightarrow> js_string) \<Rightarrow> (js_string \<Rightarrow> js_string \<Rightarrow> matcher option)
     \<Rightarrow> js_string \<Rightarrow> js_string \<Rightarrow> rendered result" where
  "highlight canon lower compile text q =
     (if q = [] then Inr (Whole text)
      else case quoted_phrase q of
          Some phrase \<Rightarrow>
            if phrase = [] then Inr (Whole text) else literal_mode canon lower text [phrase]
        | None \<Rightarrow>
          (let by_terms = (let terms = query_terms q in
                 if terms = [] then Inr (Whole text) else literal_mode canon lower text terms)
           in case regex_query q of
                None \<Rightarrow> by_terms
              | Some (pattern, flags) \<Rightarrow>
                (case compile (40 # pattern @ [41]) (safe_flags flags) of
                   None \<Rightarrow> by_terms
                 | Some m \<Rightarrow>
                   let f = set (safe_flags flags); g = 103 \<in> f; y = 121 \<in> f; u = 117 \<in> f
                   in Inr (Parts (regex_nodes g y u m 0 (re_split u m text))))))"

section \<open>Literal modes\<close>

text \<open>The literals a query asks for, when it is not a pattern that compiles.\<close>

definition literal_terms ::
  "(js_string \<Rightarrow> js_string \<Rightarrow> matcher option) \<Rightarrow> js_string \<Rightarrow> js_string list option" where
  "literal_terms compile q =
     (case quoted_phrase q of
        Some phrase \<Rightarrow> Some (filter (\<lambda>t. t \<noteq> []) [phrase])
      | None \<Rightarrow>
        (case regex_query q of
           None \<Rightarrow> Some (query_terms q)
         | Some (pattern, flags) \<Rightarrow>
             (case compile (40 # pattern @ [41]) (safe_flags flags) of
                None \<Rightarrow> Some (query_terms q) | Some _ \<Rightarrow> None)))"

lemma query_terms_nonempty: "[] \<notin> set (query_terms q)"
  by (simp add: query_terms_def)

lemma literal_mode_parts:
  assumes "terms \<noteq> []" "[] \<notin> set terms"
  shows "literal_mode canon lower body terms
       = Inr (Parts (literal_nodes lower terms (re_split False (lit_matcher canon terms) body)))"
  using assms by (simp add: literal_mode_def compile_group_def read_group_join)

lemma highlight_literal:
  assumes "q \<noteq> []" "literal_terms compile q = Some terms"
  shows "[] \<notin> set terms"
    "highlight canon lower compile body q =
       (if terms = [] then Inr (Whole body)
        else Inr (Parts (literal_nodes lower terms (re_split False (lit_matcher canon terms) body))))"
proof -
  show nonempty: "[] \<notin> set terms"
    using assms(2) by (auto simp: literal_terms_def query_terms_nonempty
        split: option.splits prod.splits if_splits)
  show "highlight canon lower compile body q =
       (if terms = [] then Inr (Whole body)
        else Inr (Parts (literal_nodes lower terms (re_split False (lit_matcher canon terms) body))))"
    using assms nonempty
    by (auto simp: highlight_def literal_terms_def literal_mode_parts Let_def
        split: option.splits prod.splits if_splits)
qed

lemma literal_nodes_text: "map node_text (literal_nodes lower terms parts) = parts"
  by (auto simp: literal_nodes_def comp_def split: option.splits intro!: map_idI)

lemma literal_nodes_mask:
  "mark_mask (Parts (literal_nodes lower terms parts))
     = parts_mask (\<lambda>t. list_ex (\<lambda>u. lower t = lower u) terms) parts"
  by (induction parts) (auto simp: mark_mask_def parts_mask_def literal_nodes_def split: option.splits)

lemma regex_nodes_text: "map node_text (regex_nodes g y u m k parts) = parts"
  by (induction parts arbitrary: k) (auto simp: Let_def split: prod.splits)

lemma literal_split_text:
  "[] \<notin> set terms \<Longrightarrow> parts_text (re_split u (lit_matcher canon terms) body) = body"
  using lit.re_split_text [of u canon terms body] by (simp add: nonempty_alts_id)

lemma length_parts_mask: "length (parts_mask f ps) = length (parts_text ps)"
  by (induction ps) (auto simp: parts_mask_def parts_text_def split: option.splits)

lemma lit_at_inside: "[] \<notin> set terms \<Longrightarrow> t \<in> set terms \<Longrightarrow> lit_at canon s i t \<Longrightarrow> i < length s"
  by (cases t) (auto simp: lit_at_def)

lemma literal_split_mask:
  assumes "[] \<notin> set terms" "t \<in> set terms" "lit_at canon s i t"
    and same: "\<And>x y. map canon x = map canon y \<Longrightarrow> lower x = lower y"
  shows "parts_mask (\<lambda>p. list_ex (\<lambda>u. lower p = lower u) terms)
           (re_split False (lit_matcher canon terms) s) ! i"
proof -
  have m: "lit_matcher canon (nonempty_alts terms) = lit_matcher canon terms"
    using assms(1) by (simp add: nonempty_alts_id)
  have "i < length s" using assms(1-3) by (rule lit_at_inside)
  moreover have "lit_matcher canon terms s i \<noteq> None" using assms(2,3) by (rule lit_matcher_hit)
  moreover have "list_ex (\<lambda>u. lower (take (e - j) (drop j s)) = lower u) terms"
    if hit: "lit_matcher canon terms s j = Some (e, caps)" for j e caps
  proof -
    obtain u where u: "u \<in> set terms" "lit_at canon s j u" "e = j + length u"
      using lit_matcher_Some [OF hit] by blast
    then have "lower (take (e - j) (drop j s)) = lower u" by (intro same) (simp add: lit_at_def)
    with u(1) show ?thesis by (auto simp: list_ex_iff)
  qed
  ultimately show ?thesis
    using lit.re_split_mask [of i s canon terms "\<lambda>p. list_ex (\<lambda>u. lower p = lower u) terms"]
    by (simp only: m) blast
qed

text \<open>The matcher of \<open>(a(b))\<close>, for the examples.\<close>

definition ab_group :: matcher where
  "ab_group s i =
     (if take 2 (drop i s) = js ''ab'' then Some (i + 2, [Some (js ''ab''), Some (js ''b'')]) else None)"

section \<open>Properties\<close>

text \<open>
  C12. A query that is a quoted phrase, a list of terms or a pattern that does not compile
  never makes \<open>highlight\<close> throw, whatever syntax characters it holds: the element is
  rendered, the text it shows is the given text with nothing lost, added or moved, and the
  parts it marks are exactly the parts that equal one of the query's terms up to case.
\<close>

theorem highlight_keeps_text:
  assumes "q \<noteq> []" "literal_terms compile q = Some terms"
  shows "\<exists>r. highlight canon lower compile body q = Inr r \<and> shown r = body
     \<and> (\<forall>ns p. r = Parts ns \<and> Mark (Some p) \<in> set ns \<longrightarrow> lower p \<in> lower ` set terms)
     \<and> (\<forall>ns p. r = Parts ns \<and> Plain (Some p) \<in> set ns \<longrightarrow> lower p \<notin> lower ` set terms)"
  using highlight_literal(1) [OF assms]
    highlight_literal(2) [OF assms, where canon = canon and lower = lower and body = body]
  by (auto simp: shown_def literal_nodes_text literal_split_text)
    (auto simp: literal_nodes_def list_ex_iff split: option.splits if_splits)

theorem highlight_keeps_text_witness:
  "\<exists>r. highlight ascii_lower (map ascii_lower) (\<lambda>_ _. None) (js ''xA+B'') (js ''a+b'') = Inr r
     \<and> shown r = js ''xA+B''"
proof -
  have "literal_terms (\<lambda>_ _. None) (js ''a+b'') = Some [js ''a+b'']" by code_simp
  from highlight_keeps_text [OF _ this, of ascii_lower "map ascii_lower" "js ''xA+B''"]
  show ?thesis by auto
qed



text \<open>
  A pattern query whose compiled expression has no group of its own (its matches lie in
  the text and the one outer group captures each whole match) shows exactly the given text,
  for every combination of flags.
\<close>

theorem highlight_pattern_keeps_text:
  assumes "quoted_phrase q = None" "regex_query q = Some (pattern, flags)"
    and "compile (40 # pattern @ [41]) (safe_flags flags) = Some m"
    and "exact_matcher m"
  shows "\<exists>ns. highlight canon lower compile body q = Inr (Parts ns) \<and> shown (Parts ns) = body"
proof -
  have "q \<noteq> []" using assms(2) by (auto simp: regex_query_def)
  then show ?thesis
    using assms(1-3) exact_matcher.re_split_text [OF assms(4)]
    by (simp add: highlight_def Let_def shown_def regex_nodes_text)
qed

theorem highlight_pattern_keeps_text_witness:
  "\<exists>ns. highlight ascii_lower (map ascii_lower)
          (\<lambda>src _. case compile_group ascii_lower src of Inl _ \<Rightarrow> None | Inr m \<Rightarrow> Some m)
          (js ''report'') (js ''/PO/g'') = Inr (Parts ns)
     \<and> shown (Parts ns) = js ''report''"
proof -
  have 1: "quoted_phrase (js ''/PO/g'') = None" by code_simp
  have 2: "regex_query (js ''/PO/g'') = Some (js ''PO'', js ''g'')" by code_simp
  have 3: "read_group (40 # js ''PO'' @ [41]) = Some (nonempty_alts [js ''PO''])" by code_simp
  show ?thesis
    using highlight_pattern_keeps_text [OF 1 2, where
        compile = "\<lambda>src _. case compile_group ascii_lower src of Inl _ \<Rightarrow> None | Inr m \<Rightarrow> Some m"
        and canon = ascii_lower and lower = "map ascii_lower" and body = "js ''report''",
        OF _ lit.exact_matcher_axioms [of ascii_lower "[js ''PO'']"]] 3
    by (simp add: compile_group_def)
qed

text \<open>
  A capture group inside a typed pattern is not harmless: \<open>split\<close> returns the inner
  group as one more part, so the text of that group is shown twice. The pattern
  \<open>/a(b)/\<close> on \<open>ab\<close> shows \<open>abb\<close>.
\<close>

theorem highlight_nested_group_duplicates:
  "map_sum id shown (highlight id id (\<lambda>src _. if src = js ''(a(b))'' then Some ab_group else None)
      (js ''ab'') (js ''/a(b)/'')) = Inr (js ''abb'')"
  by code_simp

end
