(* ===== verification/Types.thy ===== *)
theory Types
  imports JsNum
begin

text \<open>
  \<open>src/types.ts\<close>: the data the frontend exchanges with the backend. An optional field
  is an \<open>option\<close>; a union of string literals is a \<open>datatype\<close>.
\<close>

record FileMeta =
  fm_path :: js_string
  fm_file_name :: js_string
  fm_ext :: js_string
  fm_size :: js_number
  fm_modified_ts :: js_number

record SearchResult =
  sr_path :: js_string
  sr_name :: js_string
  sr_ext :: js_string
  sr_score :: js_number
  sr_size :: "js_number option"
  sr_modified_ts :: "js_number option"
  sr_summary :: "js_string option"

record AppConfig =
  search_mode :: js_string
  scan_roots :: "js_string list"
  exclude_patterns :: "js_string list"
  index_dir :: js_string
  path_max_len :: "js_number option"
  auto_scan_enabled :: "bool option"

datatype PageKey = PSearch | PIndex | PDup | PSettings | PAbout

datatype ThemeKey = TLight | TDark | TEye | TTech | TSky | TPurple | TGray

datatype DupKind = KHash | KName

record DupGroup =
  dg_kind :: DupKind
  dg_key :: js_string
  dg_files :: "js_string list"

record IndexProgressPayload =
  ip_current :: "js_number option"
  ip_total :: "js_number option"
  ip_name :: "js_string option"
  ip_path :: "js_string option"
  ip_skipped :: "bool option"

record SearchFilters =
  sf_ext :: "js_string list option"
  sf_min_size :: "js_number option"
  sf_max_size :: "js_number option"

record SearchRequest =
  rq_query :: js_string
  rq_filters :: "SearchFilters option"
  rq_indexDir :: js_string

record DiagnosticsReport =
  dr_index_dir :: js_string
  dr_index_open_ok :: bool
  dr_index_doc_count :: "js_number option"
  dr_schema_fields :: "js_string list option"
  dr_config_scan_roots_count :: js_number
  dr_config_auto_scan_enabled :: bool
  dr_pipeline_started :: bool
  dr_pipeline_completed :: bool
  dr_pipeline_last_day :: "js_string option"
  dr_sys_cpu_avg :: "js_number option"
  dr_sys_total_mem_kib :: "js_number option"
  dr_sys_free_mem_kib :: "js_number option"
  dr_warnings :: "js_string list"

text \<open>\<open>src/constants/themes.ts\<close>: the keys the theme menu offers, in order.\<close>

definition themeOptions :: "ThemeKey list" where
  "themeOptions = [TEye, TLight, TDark, TTech, TSky, TPurple, TGray]"

end
