(* ===== verification/Runtime.thy ===== *)
theory Runtime
  imports JsString
begin

text \<open>
  \<open>src/constants/runtime.ts\<close>, \<open>src/constants/ui.ts\<close> and \<open>src/utils/env.ts\<close>: the
  numbers the services and the pages take from build variables or globals, with their
  guards and defaults, and the test for the desktop shell.
\<close>

section \<open>Variables\<close>

text \<open>A variable is a string at build time; a global may hold a number as well.\<close>

datatype env_value = EStr js_string | ENum js_number

record runtime_env =
  meta_env :: "string \<Rightarrow> env_value option"
  global_env :: "string \<Rightarrow> env_value option"

text \<open>\<open>(import.meta as any).env?.K ?? (globalThis as any).K\<close>\<close>

definition env_lookup :: "runtime_env \<Rightarrow> string \<Rightarrow> env_value option" where
  "env_lookup e k = (case meta_env e k of Some v \<Rightarrow> Some v | None \<Rightarrow> global_env e k)"

definition env_number :: "runtime_env \<Rightarrow> string \<Rightarrow> js_number" where
  "env_number e k =
     (case env_lookup e k of None \<Rightarrow> NaN | Some (ENum n) \<Rightarrow> n | Some (EStr s) \<Rightarrow> js_Number s)"

section \<open>Defaults of the service layer\<close>

record invoke_defaults =
  def_timeoutMs :: js_number
  def_retries :: js_number

definition INVOKE_DEFAULTS :: "runtime_env \<Rightarrow> invoke_defaults" where
  "INVOKE_DEFAULTS e =
     (let envTimeout = env_number e ''VITE_INVOKE_TIMEOUT_MS'';
          envRetries = env_number e ''VITE_INVOKE_RETRIES''
      in \<lparr>def_timeoutMs =
            (if is_finite envTimeout \<and> js_lt (Fin 0) envTimeout then envTimeout else Fin 60000),
          def_retries =
            (if is_finite envRetries \<and> js_le (Fin 0) envRetries then envRetries else Fin 0)\<rparr>)"

record invoke_timeouts =
  to_readConfig :: js_number
  to_writeConfig :: js_number
  to_scanPaths :: js_number
  to_buildIndex :: js_number
  to_searchQuery :: js_number
  to_openLocation :: js_number
  to_pipelineStart :: js_number
  to_startAutoScanNow :: js_number
  to_diagnosticsReport :: js_number

definition INVOKE_TIMEOUTS :: invoke_timeouts where
  "INVOKE_TIMEOUTS =
     \<lparr>to_readConfig = Fin 30000, to_writeConfig = Fin 30000, to_scanPaths = Fin 120000,
      to_buildIndex = Fin 300000, to_searchQuery = Fin 60000, to_openLocation = Fin 30000,
      to_pipelineStart = Fin 600000, to_startAutoScanNow = Fin 60000,
      to_diagnosticsReport = Fin 45000\<rparr>"

section \<open>The length of a path on screen\<close>

definition PATH_MAX_LEN :: "runtime_env \<Rightarrow> js_number" where
  "PATH_MAX_LEN e =
     (let envLen = env_number e ''VITE_PATH_MAX_LEN''
      in if is_finite envLen \<and> js_lt (Fin 10) envLen then envLen else Fin 80)"

section \<open>The desktop shell\<close>

text \<open>
  \<open>isTauri\<close>: \<open>None\<close> stands for a missing \<open>window\<close>, \<open>Some (Inl e)\<close> for a
  property read that throws, \<open>Some (Inr b)\<close> for the truth value of
  \<open>window.__TAURI__\<close>.
\<close>

definition isTauri :: "bool result option \<Rightarrow> bool" where
  "isTauri window = (case window of None \<Rightarrow> False | Some (Inl e) \<Rightarrow> False | Some (Inr b) \<Rightarrow> b)"

text \<open>
  Whatever the variables hold, the timeout is a positive finite number, the number of
  retries is finite and not negative, and the path limit is finite and above ten.
\<close>

theorem runtime_defaults_valid:
  "\<exists>t r n. def_timeoutMs (INVOKE_DEFAULTS e) = Fin t \<and> 0 < t
     \<and> def_retries (INVOKE_DEFAULTS e) = Fin r \<and> 0 \<le> r
     \<and> PATH_MAX_LEN e = Fin n \<and> 10 < n"
proof -
  have fin: "is_finite n \<longleftrightarrow> (\<exists>x. n = Fin x)" for n by (cases n) auto
  have "\<exists>t. def_timeoutMs (INVOKE_DEFAULTS e) = Fin t \<and> 0 < t"
    by (auto simp: INVOKE_DEFAULTS_def Let_def fin)
  moreover have "\<exists>r. def_retries (INVOKE_DEFAULTS e) = Fin r \<and> 0 \<le> r"
    by (auto simp: INVOKE_DEFAULTS_def Let_def fin)
  moreover have "\<exists>n. PATH_MAX_LEN e = Fin n \<and> 10 < n"
    by (auto simp: PATH_MAX_LEN_def Let_def fin)
  ultimately show ?thesis by blast
qed

end
