(* ===== verification/Api.thy ===== *)
theory Api
  imports Types Runtime
begin

text \<open>
  \<open>src/services/api.ts\<close>: \<open>safeInvoke\<close>, which races a backend command against a timer
  and retries, and one function per command with the payload it sends. The outcome of the
  race of attempt \<open>i\<close> is the environment's choice, a function of \<open>i\<close>; every attempt
  calls the backend once, so the number of attempts is the number of backend calls.
\<close>

section \<open>safeInvoke\<close>

datatype 'a race = CallSettles "'a result" | TimerFires

text \<open>What \<open>await Promise.race([call, timeout])\<close> returns or throws in attempt \<open>i\<close>.\<close>

definition race_outcome :: "(nat \<Rightarrow> 'a race) \<Rightarrow> js_string \<Rightarrow> js_number \<Rightarrow> nat \<Rightarrow> 'a result" where
  "race_outcome race cmd timeoutMs i =
     (case race i of CallSettles r \<Rightarrow> r | TimerFires \<Rightarrow> Inl (InvokeTimeout cmd timeoutMs))"

text \<open>
  The loop \<open>while (attempt <= retries)\<close>. The result pairs what is returned or thrown with
  the number of backend calls made; \<open>None\<close> means that the loop never ends.
\<close>

partial_function (option) invoke_loop ::
  "(nat \<Rightarrow> 'a race) \<Rightarrow> js_string \<Rightarrow> js_number \<Rightarrow> js_number \<Rightarrow> nat \<Rightarrow> js_error
     \<Rightarrow> ('a result \<times> nat) option" where
  "invoke_loop race cmd timeoutMs retries attempt lastErr =
     (if js_le (Fin (of_nat attempt)) retries
      then (case race_outcome race cmd timeoutMs attempt of
              Inr v \<Rightarrow> Some (Inr v, attempt + 1)
            | Inl e \<Rightarrow>
                if js_lt retries (Fin (of_nat (attempt + 1))) then Some (Inl e, attempt + 1)
                else invoke_loop race cmd timeoutMs retries (attempt + 1) e)
      else Some (Inl lastErr, attempt))"

text \<open>A JSON value as it is sent to the backend.\<close>

datatype json = JNull | JBool bool | JNum js_number | JStr js_string | JArr "json list"
  | JObj "(string \<times> json) list"

record invocation =
  inv_cmd :: string
  inv_payload :: "json option"
  inv_timeoutMs :: js_number
  inv_retries :: js_number

text \<open>\<open>safeInvoke(cmd, payload, opts)\<close> with the defaults of \<open>INVOKE_DEFAULTS\<close> for the
  options that are left out.\<close>

definition mk_invocation ::
  "runtime_env \<Rightarrow> string \<Rightarrow> json option \<Rightarrow> js_number option \<Rightarrow> js_number option \<Rightarrow> invocation" where
  "mk_invocation e cmd payload timeoutMs retries =
     \<lparr>inv_cmd = cmd, inv_payload = payload,
      inv_timeoutMs = (case timeoutMs of None \<Rightarrow> def_timeoutMs (INVOKE_DEFAULTS e) | Some t \<Rightarrow> t),
      inv_retries = (case retries of None \<Rightarrow> def_retries (INVOKE_DEFAULTS e) | Some r \<Rightarrow> r)\<rparr>"

definition safeInvoke :: "(nat \<Rightarrow> 'a race) \<Rightarrow> invocation \<Rightarrow> ('a result \<times> nat) option" where
  "safeInvoke race call =
     invoke_loop race (js (inv_cmd call)) (inv_timeoutMs call) (inv_retries call) 0 Undefined"

section \<open>Payloads\<close>

definition jstrs :: "js_string list \<Rightarrow> json" where
  "jstrs xs = JArr (map JStr xs)"

text \<open>A field whose value is \<open>undefined\<close> is dropped when the payload is written.\<close>

definition opt_field :: "string \<Rightarrow> ('a \<Rightarrow> json) \<Rightarrow> 'a option \<Rightarrow> (string \<times> json) list" where
  "opt_field k f v = (case v of None \<Rightarrow> [] | Some x \<Rightarrow> [(k, f x)])"

definition json_FileMeta :: "FileMeta \<Rightarrow> json" where
  "json_FileMeta f = JObj [(''path'', JStr (fm_path f)), (''file_name'', JStr (fm_file_name f)),
     (''ext'', JStr (fm_ext f)), (''size'', JNum (fm_size f)),
     (''modified_ts'', JNum (fm_modified_ts f))]"

definition json_AppConfig :: "AppConfig \<Rightarrow> json" where
  "json_AppConfig c = JObj ([(''search_mode'', JStr (search_mode c)),
     (''scan_roots'', jstrs (scan_roots c)), (''exclude_patterns'', jstrs (exclude_patterns c)),
     (''index_dir'', JStr (index_dir c))]
     @ opt_field ''path_max_len'' JNum (path_max_len c)
     @ opt_field ''auto_scan_enabled'' JBool (auto_scan_enabled c))"

record scan_opts =
  so_roots :: "js_string list"
  so_exclude_patterns :: "js_string list"
  so_max_file_size_mb :: js_number
  so_follow_symlinks :: bool

definition json_scan_opts :: "scan_opts \<Rightarrow> json" where
  "json_scan_opts o1 = JObj [(''roots'', jstrs (so_roots o1)),
     (''exclude_patterns'', jstrs (so_exclude_patterns o1)),
     (''max_file_size_mb'', JNum (so_max_file_size_mb o1)),
     (''follow_symlinks'', JBool (so_follow_symlinks o1))]"

record index_opts =
  io_indexDir :: js_string
  io_enable_content_parse :: bool

definition json_index_opts :: "index_opts \<Rightarrow> json" where
  "json_index_opts o1 = JObj [(''index_dir'', JStr (io_indexDir o1)),
     (''enable_content_parse'', JBool (io_enable_content_parse o1))]"

definition json_filters :: "SearchFilters \<Rightarrow> json" where
  "json_filters f = JObj (opt_field ''ext'' jstrs (sf_ext f)
     @ opt_field ''min_size'' JNum (sf_min_size f) @ opt_field ''max_size'' JNum (sf_max_size f))"

section \<open>The commands\<close>

definition readConfig :: "runtime_env \<Rightarrow> invocation" where
  "readConfig e = mk_invocation e ''read_config'' None (Some (to_readConfig INVOKE_TIMEOUTS)) None"

definition writeConfig :: "runtime_env \<Rightarrow> AppConfig \<Rightarrow> invocation" where
  "writeConfig e cfg = mk_invocation e ''write_config'' (Some (JObj [(''cfg'', json_AppConfig cfg)]))
     (Some (to_writeConfig INVOKE_TIMEOUTS)) None"

definition resetConfig :: "runtime_env \<Rightarrow> invocation" where
  "resetConfig e = mk_invocation e ''reset_config'' None (Some (to_readConfig INVOKE_TIMEOUTS)) None"

definition scanPaths :: "runtime_env \<Rightarrow> scan_opts \<Rightarrow> invocation" where
  "scanPaths e opts = mk_invocation e ''scan_paths'' (Some (JObj [(''opts'', json_scan_opts opts)]))
     (Some (to_scanPaths INVOKE_TIMEOUTS)) None"

definition scanPathsProgress :: "runtime_env \<Rightarrow> scan_opts \<Rightarrow> invocation" where
  "scanPathsProgress e opts =
     mk_invocation e ''scan_paths_progress'' (Some (JObj [(''opts'', json_scan_opts opts)]))
       (Some (to_scanPaths INVOKE_TIMEOUTS)) None"

definition buildInvertedIndex :: "runtime_env \<Rightarrow> FileMeta list \<Rightarrow> index_opts \<Rightarrow> invocation" where
  "buildInvertedIndex e files opts =
     mk_invocation e ''build_inverted_index''
       (Some (JObj [(''files'', JArr (map json_FileMeta files)), (''opts'', json_index_opts opts)]))
       (Some (to_buildIndex INVOKE_TIMEOUTS)) None"

definition buildInvertedIndexProgress ::
  "runtime_env \<Rightarrow> FileMeta list \<Rightarrow> index_opts \<Rightarrow> invocation" where
  "buildInvertedIndexProgress e files opts =
     mk_invocation e ''build_inverted_index_progress''
       (Some (JObj [(''files'', JArr (map json_FileMeta files)), (''opts'', json_index_opts opts)]))
       (Some (to_buildIndex INVOKE_TIMEOUTS)) None"

definition scanAndIndexPipeline ::
  "runtime_env \<Rightarrow> js_string list \<Rightarrow> js_string list \<Rightarrow> index_opts \<Rightarrow> invocation" where
  "scanAndIndexPipeline e roots exclude indexOpts =
     mk_invocation e ''scan_and_index_pipeline''
       (Some (JObj [(''opts'', json_scan_opts
                       \<lparr>so_roots = roots, so_exclude_patterns = exclude,
                        so_max_file_size_mb = Fin 500, so_follow_symlinks = False\<rparr>),
                    (''index_opts'', json_index_opts indexOpts),
                    (''indexOpts'', json_index_opts indexOpts)]))
       (Some (to_pipelineStart INVOKE_TIMEOUTS)) None"

definition startAutoScanNow :: "runtime_env \<Rightarrow> invocation" where
  "startAutoScanNow e =
     mk_invocation e ''start_auto_scan_now'' None (Some (to_startAutoScanNow INVOKE_TIMEOUTS)) None"

definition searchQuery :: "runtime_env \<Rightarrow> SearchRequest \<Rightarrow> invocation" where
  "searchQuery e req =
     mk_invocation e ''search_query''
       (Some (JObj [(''req'', JObj [(''query'', JStr (rq_query req)),
          (''filters'', case rq_filters req of None \<Rightarrow> JNull | Some f \<Rightarrow> json_filters f),
          (''index_dir'', JStr (rq_indexDir req))])]))
       (Some (to_searchQuery INVOKE_TIMEOUTS)) (Some (Fin 1))"

definition openLocation :: "runtime_env \<Rightarrow> js_string \<Rightarrow> invocation" where
  "openLocation e path = mk_invocation e ''open_location'' (Some (JObj [(''path'', JStr path)]))
     (Some (to_openLocation INVOKE_TIMEOUTS)) None"

definition detectDuplicates :: "runtime_env \<Rightarrow> js_string list \<Rightarrow> invocation" where
  "detectDuplicates e paths =
     mk_invocation e ''detect_duplicates'' (Some (JObj [(''paths'', jstrs paths)]))
       (Some (to_searchQuery INVOKE_TIMEOUTS)) None"

definition deleteFileAndIndex :: "runtime_env \<Rightarrow> js_string \<Rightarrow> js_string \<Rightarrow> invocation" where
  "deleteFileAndIndex e path indexDir =
     mk_invocation e ''delete_file_and_index''
       (Some (JObj [(''path'', JStr path), (''index_dir'', JStr indexDir), (''indexDir'', JStr indexDir)]))
       (Some (to_buildIndex INVOKE_TIMEOUTS)) None"

definition diagnosticsReport :: "runtime_env \<Rightarrow> invocation" where
  "diagnosticsReport e =
     mk_invocation e ''diagnostics_report'' None (Some (to_diagnosticsReport INVOKE_TIMEOUTS)) None"

section \<open>Termination and number of calls\<close>

text \<open>The first success among the first \<open>n\<close> attempts, or the error of the last one.\<close>

definition retry_spec :: "(nat \<Rightarrow> 'a result) \<Rightarrow> nat \<Rightarrow> 'a result \<times> nat" where
  "retry_spec f n =
     (case filter (\<lambda>i. \<not> isl (f i)) [0..<n] of [] \<Rightarrow> (f (n - 1), n) | i # _ \<Rightarrow> (f i, i + 1))"

lemma filter_upt_first:
  assumes "P k" "\<And>i. i < k \<Longrightarrow> \<not> P i" "k < n"
  shows "\<exists>ks. filter P [0..<n] = k # ks"
proof -
  have "[0..<n] = [0..<k] @ [k..<n]"
    using assms(3) by (metis less_imp_le_nat upt_add_eq_append le_add_diff_inverse zero_le)
  also have "[k..<n] = k # [Suc k..<n]" using assms(3) by (rule upt_conv_Cons)
  finally show ?thesis using assms(1,2) by simp
qed

lemma nat_le_rat_iff: "0 \<le> r \<Longrightarrow> (of_nat k :: rat) \<le> r \<longleftrightarrow> k < nat \<lfloor>r\<rfloor> + 1"
  using le_floor_iff [of "int k" r] by (auto simp: zless_nat_conj less_Suc_eq_le le_nat_iff)

lemma invoke_loop_spec:
  fixes race :: "nat \<Rightarrow> 'a race" and cmd :: js_string and t :: js_number
  defines "f \<equiv> race_outcome race cmd t"
  assumes "0 \<le> r" "n = nat \<lfloor>r\<rfloor> + 1" "k < n" "\<And>i. i < k \<Longrightarrow> isl (f i)"
  shows "invoke_loop race cmd t (Fin r) k e = Some (retry_spec f n)"
  using assms(4,5)
proof (induction "n - k" arbitrary: k e)
  case (Suc d)
  have more: "js_lt (Fin r) (Fin (of_nat (k + 1))) \<longleftrightarrow> k + 1 = n"
    using nat_le_rat_iff [OF assms(2), of "k + 1"] assms(3) Suc.prems(1) by (auto simp: not_less)
  have le: "js_le (Fin (of_nat k)) (Fin r)"
    using nat_le_rat_iff [OF assms(2)] assms(3) Suc.prems(1) by simp
  show ?case
  proof (cases "f k")
    case (Inr v)
    then obtain ks where "filter (\<lambda>i. \<not> isl (f i)) [0..<n] = k # ks"
      using filter_upt_first [of "\<lambda>i. \<not> isl (f i)" k n] Suc.prems by auto
    then have "retry_spec f n = (Inr v, k + 1)" using Inr by (simp add: retry_spec_def)
    with Inr le show ?thesis by (subst invoke_loop.simps) (simp flip: f_def)
  next
    case (Inl e')
    then have bad: "isl (f i)" if "i < k + 1" for i
      using that Suc.prems(2) by (cases "i = k") auto
    show ?thesis
    proof (cases "k + 1 = n")
      case True
      then have "retry_spec f n = (Inl e', n)"
        using bad Inl by (auto simp: retry_spec_def filter_empty_conv split: list.split)
      with True Inl le more show ?thesis by (subst invoke_loop.simps) (simp flip: f_def)
    next
      case False
      then have "invoke_loop race cmd t (Fin r) (k + 1) e' = Some (retry_spec f n)"
        using Suc bad by (intro Suc.hyps(1)) auto
      with False Inl le more show ?thesis
        by (subst invoke_loop.simps) (simp del: of_nat_add flip: f_def)
    qed
  qed
qed simp

lemma safeInvoke_loop:
  assumes "inv_retries call = Fin r" "0 \<le> r" "n = nat \<lfloor>r\<rfloor> + 1"
  shows "safeInvoke race call
       = Some (retry_spec (race_outcome race (js (inv_cmd call)) (inv_timeoutMs call)) n)"
  using assms invoke_loop_spec [of r n 0] by (simp add: safeInvoke_def)

text \<open>
  C14. With a finite, non-negative number of retries \<open>safeInvoke\<close> always ends: it makes
  attempts until one succeeds, at most the whole part of the number plus one of them, returns
  the first success, and otherwise throws the error of the last attempt.
\<close>

theorem safeInvoke_retries:
  assumes "inv_retries call = Fin r" "0 \<le> r"
  shows "safeInvoke race call = Some (retry_spec
           (race_outcome race (js (inv_cmd call)) (inv_timeoutMs call)) (nat \<lfloor>r\<rfloor> + 1))"
  by (rule safeInvoke_loop [OF assms refl])

theorem safeInvoke_retries_witness:
  "safeInvoke (\<lambda>i. if i = 0 then TimerFires else CallSettles (Inr True))
     (mk_invocation \<lparr>meta_env = (\<lambda>_. None), global_env = (\<lambda>_. None)\<rparr> ''x'' None None (Some (Fin 1)))
   = Some (Inr True, 2)"
proof -
  let ?call = "mk_invocation \<lparr>meta_env = (\<lambda>_. None), global_env = (\<lambda>_. None)\<rparr> ''x'' None None (Some (Fin 1))"
  have "inv_retries ?call = Fin 1" by (simp add: mk_invocation_def)
  from safeInvoke_retries [OF this, of "\<lambda>i. if i = 0 then TimerFires else CallSettles (Inr True)"]
  show ?thesis by (simp add: retry_spec_def race_outcome_def upt_rec)
qed

lemma retry_spec_one: "retry_spec f 1 = (f 0, 1)"
  by (simp add: retry_spec_def upt_rec)

lemma retry_spec_bound: "0 < n \<Longrightarrow> 1 \<le> snd (retry_spec f n) \<and> snd (retry_spec f n) \<le> n"
proof -
  assume "0 < n"
  then show ?thesis
  proof (cases "filter (\<lambda>i. \<not> isl (f i)) [0..<n]")
    case (Cons k ks)
    then have "k \<in> set (filter (\<lambda>i. \<not> isl (f i)) [0..<n])" by simp
    then have "k < n" by simp
    with Cons show ?thesis by (simp add: retry_spec_def)
  qed (simp add: retry_spec_def)
qed

text \<open>
  Unless retries are configured, a command that changes files or the index reaches the
  backend exactly once per user action, whether it succeeds, fails or times out; a search
  reaches it once or twice.
\<close>

theorem api_call_counts:
  fixes race :: "nat \<Rightarrow> 'a race"
  assumes "env_lookup e ''VITE_INVOKE_RETRIES'' = None"
  shows "(\<exists>r. safeInvoke race (writeConfig e cfg) = Some (r, 1))
    \<and> (\<exists>r. safeInvoke race (resetConfig e) = Some (r, 1))
    \<and> (\<exists>r. safeInvoke race (buildInvertedIndex e files opts) = Some (r, 1))
    \<and> (\<exists>r. safeInvoke race (scanAndIndexPipeline e roots exc opts) = Some (r, 1))
    \<and> (\<exists>r. safeInvoke race (startAutoScanNow e) = Some (r, 1))
    \<and> (\<exists>r. safeInvoke race (deleteFileAndIndex e path dir) = Some (r, 1))
    \<and> (\<exists>r n. safeInvoke race (searchQuery e req) = Some (r, n) \<and> 1 \<le> n \<and> n \<le> 2)"
proof -
  have "def_retries (INVOKE_DEFAULTS e) = Fin 0"
    using assms by (simp add: INVOKE_DEFAULTS_def env_number_def Let_def)
  then have r: "inv_retries (mk_invocation e c p t None) = Fin 0" for c p t
    by (simp add: mk_invocation_def)
  have one: "\<exists>r. safeInvoke race (mk_invocation e c p t None) = Some (r, 1)" for c p t
    using safeInvoke_loop [OF r [of c p t], of 1 race]
    by (simp add: retry_spec_one [unfolded One_nat_def])
  have "inv_retries (searchQuery e req) = Fin 1" by (simp add: searchQuery_def mk_invocation_def)
  then obtain f where "safeInvoke race (searchQuery e req) = Some (retry_spec f 2)"
    using safeInvoke_loop [of "searchQuery e req" 1 2 race] by auto
  then have "\<exists>r n. safeInvoke race (searchQuery e req) = Some (r, n) \<and> 1 \<le> n \<and> n \<le> 2"
    using retry_spec_bound [of 2 f] by (metis prod.exhaust_sel zero_less_numeral)
  with one show ?thesis
    by (simp add: writeConfig_def resetConfig_def buildInvertedIndex_def
        scanAndIndexPipeline_def startAutoScanNow_def deleteFileAndIndex_def)
qed

theorem api_call_counts_witness:
  "\<exists>r. safeInvoke (\<lambda>_. TimerFires :: unit race)
     (deleteFileAndIndex \<lparr>meta_env = (\<lambda>_. None), global_env = (\<lambda>_. None)\<rparr> (js ''a'') (js ''b''))
   = Some (r, 1)"
  by (rule api_call_counts [THEN conjunct2, THEN conjunct2, THEN conjunct2, THEN conjunct2,
        THEN conjunct2, THEN conjunct1]) (simp add: env_lookup_def)

end
