(* ===== verification/Events.thy ===== *)
theory Events
  imports Types
begin

text \<open>
  \<open>src/services/events.ts\<close> and \<open>src/hooks/useTauriEvents.ts\<close>: subscriptions to backend
  events. \<open>listen\<close> of the Tauri library registers a callback and resolves to a function
  that removes it; a registered callback is identified here by a number. One run of the
  effect of \<open>useTauriEvents\<close> is a state machine: its loop awaits one subscription after the
  other, retrying with a growing delay, and its cleanup may run at any moment in between.
  A second machine lets the hook re-run the effect on every render, as the App component
  does by passing a new array of functions each time.
\<close>

section \<open>useTauriEvents: one run of the effect\<close>

text \<open>Where the loop stands: awaiting \<open>fn()\<close>, awaiting the timer, or finished.\<close>

datatype phase = Awaiting | Backoff int | Finished

record effect =
  fns :: nat
  retries :: int
  backoffMs :: int
  fn_index :: nat
  attempt :: int
  phase :: phase
  calls :: "nat list"
  errors :: "nat list"
  unlisteners :: "nat list"
  cancelled :: bool
  live :: "nat set"

text \<open>
  The loop head \<open>for (let i ...)\<close> together with \<open>let attempt = 0\<close>, the test
  \<open>attempt <= retries\<close> and the call \<open>fn()\<close>. With a negative number of retries the inner
  loop makes no call at all. \<open>calls\<close> logs the index of each \<open>fn\<close> that is called.
\<close>

definition enter_fn :: "nat \<Rightarrow> effect \<Rightarrow> effect" where
  "enter_fn i s =
     (if i < fns s \<and> 0 \<le> retries s
      then s\<lparr>fn_index := i, attempt := 0, phase := Awaiting, calls := calls s @ [i]\<rparr>
      else s\<lparr>fn_index := i, attempt := 0, phase := Finished\<rparr>)"

definition effect_start :: "nat \<Rightarrow> int \<Rightarrow> int \<Rightarrow> effect" where
  "effect_start n r b =
     enter_fn 0 \<lparr>fns = n, retries = r, backoffMs = b, fn_index = 0, attempt = 0, phase = Finished,
       calls = [], errors = [], unlisteners = [], cancelled = False, live = {}\<rparr>"

text \<open>\<open>const un = await fn(); if (!cancelled) unlisteners.push(un); break\<close>\<close>

definition fn_resolves :: "nat \<Rightarrow> effect \<Rightarrow> effect" where
  "fn_resolves un s =
     (let s1 = s\<lparr>live := insert un (live s)\<rparr>;
          s2 = (if \<not> cancelled s1 then s1\<lparr>unlisteners := unlisteners s1 @ [un]\<rparr> else s1)
      in enter_fn (fn_index s + 1) s2)"

text \<open>\<open>catch (e) { onError?.(e, i); attempt++; if (attempt > retries) break; await timer }\<close>\<close>

definition fn_rejects :: "effect \<Rightarrow> effect" where
  "fn_rejects s =
     (let s1 = s\<lparr>errors := errors s @ [fn_index s], attempt := attempt s + 1\<rparr>
      in if retries s1 < attempt s1 then enter_fn (fn_index s + 1) s1
         else s1\<lparr>phase := Backoff (backoffMs s1 * 2 ^ nat (attempt s1 - 1))\<rparr>)"

text \<open>The timer fires, the loop tests \<open>attempt <= retries\<close>, which holds here, and calls again.\<close>

definition timer_fires :: "effect \<Rightarrow> effect" where
  "timer_fires s = s\<lparr>phase := Awaiting, calls := calls s @ [fn_index s]\<rparr>"

text \<open>The cleanup: every \<open>un\<close> collected so far is called, then the list is dropped.\<close>

definition cleanup :: "effect \<Rightarrow> effect" where
  "cleanup s = s\<lparr>cancelled := True, live := live s - set (unlisteners s), unlisteners := []\<rparr>"

inductive loop_step :: "effect \<Rightarrow> effect \<Rightarrow> bool" where
  resolve: "phase s = Awaiting \<Longrightarrow> un \<notin> live s \<Longrightarrow> loop_step s (fn_resolves un s)"
| reject: "phase s = Awaiting \<Longrightarrow> loop_step s (fn_rejects s)"
| timer: "phase s = Backoff d \<Longrightarrow> loop_step s (timer_fires s)"

inductive effect_step :: "effect \<Rightarrow> effect \<Rightarrow> bool" where
  in_loop: "loop_step s t \<Longrightarrow> effect_step s t"
| clean: "\<not> cancelled s \<Longrightarrow> effect_step s (cleanup s)"

inductive_cases loop_stepE: "loop_step s t"
inductive_cases effect_stepE: "effect_step s t"

definition effect_begin :: "nat \<Rightarrow> int \<Rightarrow> int \<Rightarrow> effect \<Rightarrow> bool" where
  "effect_begin n r b s \<longleftrightarrow> s = effect_start n r b"

interpretation eff: transition_system "effect_begin n r b" effect_step for n r b .

lemmas effect_defs [effect_simps] =
  enter_fn_def fn_resolves_def fn_rejects_def timer_fires_def cleanup_def effect_start_def Let_def

section \<open>Invariants of the loop\<close>

text \<open>
  Before the cleanup every live listener is on the list, so that the cleanup will find it;
  after it the list stays empty.
\<close>

definition listeners_ok :: "effect \<Rightarrow> bool" where
  "listeners_ok s \<longleftrightarrow>
     (if cancelled s then unlisteners s = [] else live s = set (unlisteners s)) \<and> finite (live s)"

text \<open>
  The loop calls the functions in order, each at most \<open>retries + 1\<close> times; while it waits,
  the number of calls of the current function is its attempt number, and a wait between two
  attempts doubles from \<open>backoffMs\<close>.
\<close>

definition calls_ok :: "effect \<Rightarrow> bool" where
  "calls_ok s \<longleftrightarrow>
     (\<forall>i\<in>set (calls s). i < fns s \<and> i \<le> fn_index s \<and> int (count_list (calls s) i) \<le> retries s + 1)"

definition wait_ok :: "effect \<Rightarrow> bool" where
  "wait_ok s \<longleftrightarrow> 0 \<le> attempt s
     \<and> (case phase s of
          Awaiting \<Rightarrow> fn_index s < fns s \<and> attempt s \<le> retries s
            \<and> int (count_list (calls s) (fn_index s)) = attempt s + 1
        | Backoff d \<Rightarrow> fn_index s < fns s \<and> 1 \<le> attempt s \<and> attempt s \<le> retries s
            \<and> d = backoffMs s * 2 ^ nat (attempt s - 1)
            \<and> int (count_list (calls s) (fn_index s)) = attempt s
        | Finished \<Rightarrow> True)"

definition effect_ok :: "effect \<Rightarrow> bool" where
  "effect_ok s \<longleftrightarrow> listeners_ok s \<and> calls_ok s \<and> wait_ok s"

lemma count_list_notin: "x \<notin> set xs \<Longrightarrow> count_list xs x = 0"
  by (induction xs) auto

lemma effect_ok_start: "effect_ok (effect_start n r b)"
  by (simp add: effect_ok_def listeners_ok_def calls_ok_def wait_ok_def effect_simps)

lemma enter_fields [simp]:
  "cancelled (enter_fn i s) = cancelled s" "unlisteners (enter_fn i s) = unlisteners s"
  "live (enter_fn i s) = live s" "fns (enter_fn i s) = fns s" "retries (enter_fn i s) = retries s"
  "backoffMs (enter_fn i s) = backoffMs s" "fn_index (enter_fn i s) = i"
  by (simp_all add: enter_fn_def)

lemma resolves_fields [simp]:
  "cancelled (fn_resolves un s) = cancelled s" "live (fn_resolves un s) = insert un (live s)"
  "unlisteners (fn_resolves un s) = (if cancelled s then unlisteners s else unlisteners s @ [un])"
  "fns (fn_resolves un s) = fns s" "retries (fn_resolves un s) = retries s"
  "backoffMs (fn_resolves un s) = backoffMs s"
  by (simp_all add: fn_resolves_def Let_def)

lemma rejects_fields [simp]:
  "cancelled (fn_rejects s) = cancelled s" "live (fn_rejects s) = live s"
  "unlisteners (fn_rejects s) = unlisteners s" "fns (fn_rejects s) = fns s"
  "retries (fn_rejects s) = retries s" "backoffMs (fn_rejects s) = backoffMs s"
  by (simp_all add: fn_rejects_def Let_def)

lemma timer_fields [simp]:
  "cancelled (timer_fires s) = cancelled s" "live (timer_fires s) = live s"
  "unlisteners (timer_fires s) = unlisteners s" "fns (timer_fires s) = fns s"
  "retries (timer_fires s) = retries s" "backoffMs (timer_fires s) = backoffMs s"
  by (simp_all add: timer_fires_def)

lemma cleanup_fields [simp]:
  "phase (cleanup s) = phase s" "fns (cleanup s) = fns s" "fn_index (cleanup s) = fn_index s"
  "retries (cleanup s) = retries s" "backoffMs (cleanup s) = backoffMs s"
  "cancelled (cleanup s)" "unlisteners (cleanup s) = []" "live (cleanup s) = live s - set (unlisteners s)"
  by (simp_all add: cleanup_def)

lemma listeners_ok_step: "effect_step s t \<Longrightarrow> listeners_ok s \<Longrightarrow> listeners_ok t"
  by (auto elim!: effect_stepE loop_stepE simp: listeners_ok_def)

lemma enter_ok:
  assumes "calls_ok s" "i = fn_index s + 1"
  shows "calls_ok (enter_fn i s) \<and> wait_ok (enter_fn i s)"
proof -
  have "i \<notin> set (calls s)" using assms by (auto simp: calls_ok_def)
  then show ?thesis
    using assms by (auto simp: calls_ok_def wait_ok_def enter_fn_def count_list_notin)
qed

lemma calls_ok_frame [simp]:
  "calls_ok (s\<lparr>live := l\<rparr>) = calls_ok s" "calls_ok (s\<lparr>unlisteners := us\<rparr>) = calls_ok s"
  "calls_ok (s\<lparr>errors := es\<rparr>) = calls_ok s" "calls_ok (s\<lparr>attempt := a\<rparr>) = calls_ok s"
  "calls_ok (s\<lparr>phase := p\<rparr>) = calls_ok s"
  by (simp_all add: calls_ok_def)

lemma calls_ok_loop:
  assumes "loop_step s t" "calls_ok s" "wait_ok s"
  shows "calls_ok t \<and> wait_ok t"
  using assms
proof (cases rule: loop_step.cases)
  case (resolve un)
  then show ?thesis
    using assms(2) enter_ok [of "s\<lparr>live := insert un (live s), unlisteners := unlisteners s @ [un]\<rparr>"]
      enter_ok [of "s\<lparr>live := insert un (live s)\<rparr>"] by (simp add: fn_resolves_def Let_def)
next
  case reject
  let ?s = "s\<lparr>errors := errors s @ [fn_index s], attempt := attempt s + 1\<rparr>"
  have "calls_ok ?s" using assms(2) by simp
  note enter = enter_ok [OF this, of "fn_index s + 1"]
  show ?thesis
  proof (cases "retries s < attempt s + 1")
    case True
    then show ?thesis using enter reject by (simp add: fn_rejects_def Let_def)
  next
    case False
    then show ?thesis
      using reject assms(2,3) by (simp add: fn_rejects_def Let_def wait_ok_def)
  qed
next
  case (timer d)
  then show ?thesis using assms(2,3) by (auto simp: timer_fires_def calls_ok_def wait_ok_def)
qed

lemma cleanup_ok [simp]: "calls_ok (cleanup s) = calls_ok s" "wait_ok (cleanup s) = wait_ok s"
  by (simp_all add: cleanup_def calls_ok_def wait_ok_def cong: phase.case_cong)

lemma effect_ok_step: "effect_step s t \<Longrightarrow> effect_ok s \<Longrightarrow> effect_ok t"
  using listeners_ok_step [of s t] calls_ok_loop [of s t]
  by (auto elim!: effect_stepE simp: effect_ok_def)

lemma effect_reach_ok: "eff.reach n r b s \<Longrightarrow> effect_ok s"
  by (rule eff.reach_invariant [of n r b]) (auto simp: effect_begin_def effect_ok_start effect_ok_step)

lemma effect_reach_params: "eff.reach n r b s \<Longrightarrow> fns s = n \<and> retries s = r \<and> backoffMs s = b"
proof (rule eff.reach_invariant [of n r b])
  show "fns t = n \<and> retries t = r \<and> backoffMs t = b"
    if "fns s = n \<and> retries s = r \<and> backoffMs s = b" "effect_step s t" for s t
    using that by (auto elim!: effect_stepE loop_stepE)
qed (auto simp: effect_begin_def effect_simps)

section \<open>Termination\<close>

text \<open>The steps still ahead: two per remaining attempt, and the cleanup.\<close>

definition work :: "effect \<Rightarrow> int" where
  "work s = (if cancelled s then 0 else 1)
     + (case phase s of
          Finished \<Rightarrow> 0
        | Awaiting \<Rightarrow> (int (fns s) - int (fn_index s) - 1) * (2 * retries s + 1)
            + 2 * (retries s - attempt s) + 1
        | Backoff d \<Rightarrow> (int (fns s) - int (fn_index s) - 1) * (2 * retries s + 1)
            + 2 * (retries s - attempt s) + 2)"

lemma work_nonneg: "wait_ok s \<Longrightarrow> 0 \<le> work s"
  by (auto simp: work_def wait_ok_def split: phase.splits)

lemma work_enter:
  assumes "fn_index s < fns s" "0 \<le> retries s"
  shows "work (enter_fn (fn_index s + 1) s)
       = (if cancelled s then 0 else 1) + (int (fns s) - int (fn_index s) - 1) * (2 * retries s + 1)"
proof (cases "fn_index s + 1 < fns s")
  case False
  with assms(1) have "int (fns s) - int (fn_index s) - 1 = 0" by linarith
  with False show ?thesis by (simp add: work_def enter_fn_def)
qed (use assms in \<open>simp add: work_def enter_fn_def algebra_simps\<close>)

lemma work_step:
  assumes "effect_step s t" "wait_ok s"
  shows "work t < work s"
  using assms
proof (cases rule: effect_step.cases)
  case in_loop
  then show ?thesis
  proof (cases rule: loop_step.cases)
    case (resolve un)
    let ?s = "if cancelled s then s\<lparr>live := insert un (live s)\<rparr>
      else s\<lparr>live := insert un (live s), unlisteners := unlisteners s @ [un]\<rparr>"
    have "t = enter_fn (fn_index ?s + 1) ?s" using resolve by (simp add: fn_resolves_def Let_def)
    then show ?thesis
      using resolve assms(2) work_enter [of ?s] by (simp add: work_def wait_ok_def split: if_splits)
  next
    case reject
    let ?s = "s\<lparr>errors := errors s @ [fn_index s], attempt := attempt s + 1\<rparr>"
    show ?thesis
    proof (cases "retries s < attempt s + 1")
      case True
      then have "t = enter_fn (fn_index ?s + 1) ?s" using reject by (simp add: fn_rejects_def Let_def)
      then show ?thesis using reject assms(2) work_enter [of ?s] by (simp add: work_def wait_ok_def)
    next
      case False
      then show ?thesis using reject assms(2) by (simp add: fn_rejects_def Let_def work_def wait_ok_def)
    qed
  next
    case (timer d)
    then show ?thesis using assms(2) by (auto simp: timer_fires_def work_def wait_ok_def)
  qed
qed (auto simp: cleanup_def work_def split: phase.splits)

lemma work_run:
  assumes "(effect_step ^^ k) s t" "effect_ok s"
  shows "int k \<le> work s - work t \<and> effect_ok t"
  using assms(1)
proof (induction k arbitrary: t)
  case (Suc k)
  then obtain u where u: "(effect_step ^^ k) s u" "effect_step u t" by auto
  then have "int k \<le> work s - work u" "effect_ok u" using Suc.IH by auto
  with u(2) show ?case
    using work_step [of u t] effect_ok_step [of u t] by (auto simp: effect_ok_def)
qed (use assms(2) in simp)

lemma work_start: "0 \<le> r \<Longrightarrow> work (effect_start n r b) = 1 + int n * (2 * r + 1)"
  by (cases n) (simp_all add: work_def effect_simps algebra_simps)

section \<open>Listeners after the cleanup\<close>

text \<open>The remaining subscriptions succeed one after the other, with the given listeners.\<close>

lemma loop_resolves_all:
  assumes "phase s = Awaiting" "fn_index s < fns s \<and> 0 \<le> retries s" "finite (live s)" "cancelled s"
  shows "\<exists>t. loop_step\<^sup>*\<^sup>* s t \<and> phase t = Finished \<and> cancelled t \<and> unlisteners t = unlisteners s
     \<and> finite (live t) \<and> card (live t) = card (live s) + (fns s - fn_index s)"
  using assms
proof (induction "fns s - fn_index s" arbitrary: s)
  case 0
  then show ?case by simp
next
  case (Suc d)
  obtain un where un: "un \<notin> live s" using Suc.prems(3) infinite_UNIV_nat ex_new_if_finite by blast
  define t where "t = fn_resolves un s"
  have step: "loop_step s t" unfolding t_def by (rule loop_step.resolve [OF Suc.prems(1) un])
  have r: "0 \<le> retries s" "fn_index s < fns s" using Suc.prems(2) by auto
  have t: "cancelled t" "unlisteners t = unlisteners s" "fns t = fns s" "fn_index t = fn_index s + 1"
    "finite (live t)" "card (live t) = card (live s) + 1" "retries t = retries s" "attempt t = 0"
    "phase t = (if fn_index s + 1 < fns s then Awaiting else Finished)"
    using Suc.prems(3,4) un r by (auto simp: t_def fn_resolves_def enter_fn_def Let_def)
  show ?case
  proof (cases "fn_index s + 1 < fns s")
    case True
    have "loop_step\<^sup>*\<^sup>* s u" if "loop_step\<^sup>*\<^sup>* t u" for u
      using step that by (rule converse_rtranclp_into_rtranclp)
    then show ?thesis using Suc.hyps(1) [of t] Suc.hyps(2) True t r by fastforce
  next
    case False
    then have "fns s - fn_index s = 1" using r by linarith
    with False step t show ?thesis by (intro exI [of _ t]) auto
  qed
qed

section \<open>The hook across renders\<close>

text \<open>
  The dependency list of the effect. Functions and arrays are compared by identity, so an
  array or a function that is built during a render is numbered by that render.
\<close>

record deps =
  d_active :: bool
  d_subscribeFns :: "nat \<times> nat"
  d_onError :: nat
  d_retries :: int
  d_backoffMs :: int

text \<open>The call of \<open>useTauriEvents\<close> in \<open>App.tsx\<close>: four new functions at every render.\<close>

definition app_deps :: "bool \<Rightarrow> nat \<Rightarrow> deps" where
  "app_deps inTauri render = \<lparr>d_active = inTauri, d_subscribeFns = (render, 4), d_onError = render,
     d_retries = 3, d_backoffMs = 600\<rparr>"

record hook =
  h_render :: nat
  h_deps :: deps
  h_runs :: "effect list"

text \<open>\<open>if (!active) return\<close>, else a new run of the effect body.\<close>

definition start_run :: "deps \<Rightarrow> effect list" where
  "start_run d =
     (if d_active d then [effect_start (snd (d_subscribeFns d)) (d_retries d) (d_backoffMs d)] else [])"

definition mount :: "(nat \<Rightarrow> deps) \<Rightarrow> hook \<Rightarrow> bool" where
  "mount deps_at h \<longleftrightarrow> h = \<lparr>h_render = 0, h_deps = deps_at 0, h_runs = start_run (deps_at 0)\<rparr>"

definition rerender :: "(nat \<Rightarrow> deps) \<Rightarrow> hook \<Rightarrow> hook" where
  "rerender deps_at h =
     (let d = deps_at (h_render h + 1); h1 = h\<lparr>h_render := h_render h + 1\<rparr>
      in if d = h_deps h then h1
         else h1\<lparr>h_deps := d,
           h_runs := map (\<lambda>e. if cancelled e then e else cleanup e) (h_runs h) @ start_run d\<rparr>)"

inductive hook_step :: "(nat \<Rightarrow> deps) \<Rightarrow> hook \<Rightarrow> hook \<Rightarrow> bool" for deps_at where
  run_step: "i < length (h_runs h) \<Longrightarrow> loop_step (h_runs h ! i) e
     \<Longrightarrow> hook_step deps_at h (h\<lparr>h_runs := (h_runs h)[i := e]\<rparr>)"
| render: "hook_step deps_at h (rerender deps_at h)"

interpretation hk: transition_system "mount deps_at" "hook_step deps_at" for deps_at .

definition listener_total :: "hook \<Rightarrow> nat" where
  "listener_total h = sum_list (map (\<lambda>e. card (live e)) (h_runs h))"

lemma hook_runs_loop:
  assumes "loop_step\<^sup>*\<^sup>* e f" "hk.reach deps_at h" "h_runs h = es @ e # fs"
  shows "hk.reach deps_at (h\<lparr>h_runs := es @ f # fs\<rparr>)"
  using assms(1)
proof (induction rule: rtranclp_induct)
  case base
  have "h\<lparr>h_runs := es @ e # fs\<rparr> = h" using assms(3) by simp
  with assms(2) show ?case by simp
next
  case (step f g)
  have "hook_step deps_at (h\<lparr>h_runs := es @ f # fs\<rparr>) (h\<lparr>h_runs := es @ g # fs\<rparr>)"
    using hook_step.run_step [of "length es" "h\<lparr>h_runs := es @ f # fs\<rparr>" g deps_at] step(2) by simp
  with step(3) show ?case by (rule hk.reach_step)
qed

lemma effect_start_fields:
  "fns (effect_start n r b) = n" "fn_index (effect_start n r b) = 0" "live (effect_start n r b) = {}"
  "unlisteners (effect_start n r b) = []" "\<not> cancelled (effect_start n r b)"
  "retries (effect_start n r b) = r"
  "phase (effect_start n r b) = (if 0 < n \<and> 0 \<le> r then Awaiting else Finished)"
  by (simp_all add: effect_simps)

lemma app_hook_leaks:
  "\<exists>h es. hk.reach (app_deps True) h \<and> h_render h = k \<and> h_deps h = app_deps True k
     \<and> h_runs h = es @ [effect_start 4 3 600] \<and> sum_list (map (\<lambda>e. card (live e)) es) = 4 * k
     \<and> (\<forall>e\<in>set es. phase e = Finished \<and> cancelled e)"
proof (induction k)
  case 0
  have "hk.reach (app_deps True) \<lparr>h_render = 0, h_deps = app_deps True 0, h_runs = start_run (app_deps True 0)\<rparr>"
    by (rule hk.reach_start) (simp add: mount_def)
  then show ?case by (fastforce simp: start_run_def app_deps_def)
next
  case (Suc k)
  then obtain h es where h: "hk.reach (app_deps True) h" "h_render h = k" "h_deps h = app_deps True k"
    "h_runs h = es @ [effect_start 4 3 600]" "sum_list (map (\<lambda>e. card (live e)) es) = 4 * k"
    "\<forall>e\<in>set es. phase e = Finished \<and> cancelled e" by blast
  let ?c = "cleanup (effect_start 4 3 600)" and ?h = "rerender (app_deps True) h"
  have re: "hk.reach (app_deps True) ?h"
    using h(1) hook_step.render by (rule hk.reach_step)
  have "map (\<lambda>e. if cancelled e then e else cleanup e) es = es" using h(6) by (simp add: map_idI)
  then have runs: "h_runs ?h = es @ ?c # [effect_start 4 3 600]" "h_render ?h = k + 1"
    "h_deps ?h = app_deps True (k + 1)"
    using h(2,3,4) by (simp_all add: rerender_def Let_def start_run_def app_deps_def effect_start_fields)
  obtain f where f: "loop_step\<^sup>*\<^sup>* ?c f" "phase f = Finished" "cancelled f" "card (live f) = 4"
    using loop_resolves_all [of ?c] by (auto simp: cleanup_def effect_start_fields)
  from hook_runs_loop [OF f(1) re runs(1)] f h(5,6) runs show ?case
    by (intro exI [of _ "?h\<lparr>h_runs := es @ f # [effect_start 4 3 600]\<rparr>"] exI [of _ "es @ [f]"]) auto
qed

section \<open>onEventOnce\<close>

text \<open>
  The callback reads the constant \<open>unlisten\<close>, which is bound only when the awaited
  \<open>listen\<close> has resolved; reading it before throws. An event can reach the callback as
  soon as the backend has registered it, which is before.
\<close>

datatype 'p once_signal = Deliver 'p | Settle

record 'p once_listener =
  registered :: bool
  unlisten_bound :: bool
  handled :: "'p list"
  thrown :: "js_error list"

definition once_start :: "'p once_listener" where
  "once_start = \<lparr>registered = True, unlisten_bound = False, handled = [], thrown = []\<rparr>"

fun onEventOnce :: "'p once_listener \<Rightarrow> 'p once_signal \<Rightarrow> 'p once_listener" where
  "onEventOnce s Settle = s\<lparr>unlisten_bound := True\<rparr>"
| "onEventOnce s (Deliver p) =
     (if \<not> registered s then s
      else let s1 = s\<lparr>handled := handled s @ [p]\<rparr> in
           if unlisten_bound s1 then s1\<lparr>registered := False\<rparr>
           else s1\<lparr>thrown := thrown s1 @ [ReferenceError (js ''unlisten'')]\<rparr>)"

lemma once_after_release:
  "\<not> registered s \<Longrightarrow> handled (foldl onEventOnce s (map Deliver ps)) = handled s"
  by (induction ps) auto

lemma once_early:
  "registered s \<Longrightarrow> \<not> unlisten_bound s \<Longrightarrow> foldl onEventOnce s (map Deliver ps)
     = s\<lparr>handled := handled s @ ps, thrown := thrown s @ replicate (length ps) (ReferenceError (js ''unlisten''))\<rparr>"
  by (induction ps arbitrary: s) auto

lemma once_late:
  "registered s \<Longrightarrow> unlisten_bound s
     \<Longrightarrow> handled (foldl onEventOnce s (map Deliver ps)) = handled s @ take 1 ps"
  by (cases ps) (auto simp: once_after_release)

lemma effect_reach_start: "eff.reach n r b (effect_start n r b)"
  by (rule eff.reach_start) (simp add: effect_begin_def)

lemma effect_reach_run: "(effect_step ^^ j) (effect_start n r b) t \<Longrightarrow> eff.reach n r b t"
  by (induction j arbitrary: t) (auto intro: eff.reach_step effect_reach_start)

section \<open>Properties\<close>

text \<open>
  C17. In every reachable state of a run of the effect, the cleanup removes every listener
  registered so far; and if the loop has finished, nothing happens after the cleanup.
\<close>

theorem effect_cleanup_releases:
  assumes "eff.reach n r b s" "\<not> cancelled s"
  shows "live (cleanup s) = {} \<and> (phase s = Finished \<longrightarrow> (\<nexists>t. effect_step (cleanup s) t))"
proof -
  have "listeners_ok s" using effect_reach_ok [OF assms(1)] by (simp add: effect_ok_def)
  then show ?thesis
    using assms(2) by (auto simp: listeners_ok_def cleanup_def elim!: effect_stepE loop_stepE)
qed

theorem effect_cleanup_releases_witness:
  "live (cleanup (fn_resolves 7 (effect_start 1 3 600))) = {}
     \<and> (\<nexists>t. effect_step (cleanup (fn_resolves 7 (effect_start 1 3 600))) t)"
proof -
  have "eff.reach 1 3 600 (fn_resolves 7 (effect_start 1 3 600))"
    by (rule eff.reach_step [OF effect_reach_start], rule in_loop, rule loop_step.resolve)
      (simp_all add: effect_start_fields)
  from effect_cleanup_releases [OF this] show ?thesis by (simp add: effect_simps)
qed

text \<open>
  C16. The effect cannot spin: it calls only the given functions, each at most
  \<open>retries + 1\<close> times, it waits \<open>backoffMs * 2 ^ (attempt - 1)\<close> before a retry, and every
  run, the cleanup included, has at most \<open>1 + n * (2 * retries + 1)\<close> steps.
\<close>

theorem effect_bounded:
  assumes "0 \<le> r" "(effect_step ^^ k) (effect_start n r b) s"
  shows "int k \<le> 1 + int n * (2 * r + 1)
    \<and> (\<forall>i. int (count_list (calls s) i) \<le> (if i < n then r + 1 else 0))
    \<and> (\<forall>d. phase s = Backoff d \<longrightarrow> d = b * 2 ^ nat (attempt s - 1) \<and> 1 \<le> attempt s \<and> attempt s \<le> r)"
proof -
  note run = work_run [OF assms(2) effect_ok_start]
  from effect_reach_params [OF effect_reach_run [OF assms(2)]]
  have p: "fns s = n" "retries s = r" "backoffMs s = b" by auto
  have ok: "calls_ok s" "wait_ok s" using run by (auto simp: effect_ok_def)
  have "int (count_list (calls s) i) \<le> (if i < n then r + 1 else 0)" for i
    using ok(1) p assms(1) by (cases "i \<in> set (calls s)") (auto simp: calls_ok_def count_list_notin)
  moreover have "d = b * 2 ^ nat (attempt s - 1) \<and> 1 \<le> attempt s \<and> attempt s \<le> r"
    if "phase s = Backoff d" for d
    using ok(2) p that by (simp add: wait_ok_def)
  moreover have "int k \<le> 1 + int n * (2 * r + 1)"
    using run work_nonneg [OF ok(2)] work_start [OF assms(1), of n b] by linarith
  ultimately show ?thesis by blast
qed

theorem effect_bounded_witness:
  "int (count_list (calls (fn_rejects (effect_start 4 3 600))) 0) \<le> 4"
proof -
  have "(effect_step ^^ 1) (effect_start 4 3 600) (fn_rejects (effect_start 4 3 600))"
    by (auto simp: effect_start_fields intro!: in_loop loop_step.reject)
  from effect_bounded [OF _ this] show ?thesis by (auto dest: spec [of _ 0])
qed

text \<open>
  A cleanup that runs while a subscription is pending loses listeners: the loop does not
  look at \<open>cancelled\<close> before it subscribes, and a listener that arrives after the cleanup
  is neither stored nor removed. From every reachable state in which the loop awaits a
  subscription, the cleanup can be followed by a run in which the pending and all later
  subscriptions stay registered for good.
\<close>

theorem effect_cancel_leaks:
  assumes "eff.reach n r b s" "phase s = Awaiting" "\<not> cancelled s"
  shows "\<exists>t. effect_step\<^sup>*\<^sup>* (cleanup s) t \<and> card (live t) = n - fn_index s \<and> fn_index s < n
    \<and> (\<nexists>u. effect_step t u)"
proof -
  have ok: "wait_ok s" "listeners_ok s" "fns s = n"
    using effect_reach_ok [OF assms(1)] effect_reach_params [OF assms(1)] by (auto simp: effect_ok_def)
  have idx: "fn_index s < fns s" "0 \<le> retries s" using ok(1) assms(2) by (auto simp: wait_ok_def)
  have l: "live s = set (unlisteners s)" using ok(2) assms(3) by (simp add: listeners_ok_def)
  obtain t where t: "loop_step\<^sup>*\<^sup>* (cleanup s) t" "phase t = Finished" "cancelled t"
    "card (live t) = n - fn_index s"
    using loop_resolves_all [of "cleanup s"] assms(2) idx ok(3) l by auto
  have "effect_step\<^sup>*\<^sup>* (cleanup s) t"
    using mono_rtranclp [of loop_step effect_step, rule_format, OF in_loop t(1)] .
  moreover have "\<nexists>u. effect_step t u" using t(2,3) by (auto elim!: effect_stepE loop_stepE)
  ultimately show ?thesis using t(4) idx ok(3) by auto
qed

theorem effect_cancel_leaks_witness:
  "\<exists>t. effect_step\<^sup>*\<^sup>* (cleanup (effect_start 4 3 600)) t \<and> card (live t) = 4"
  using effect_cancel_leaks [OF effect_reach_start [of 4 3 600]] by (auto simp: effect_start_fields)

text \<open>
  C39. The App component passes a new array and a new error handler at every render, so its
  effect is cleaned up and restarted at every render. There is no bound on the listeners
  this leaves behind: for every \<open>k\<close> a state is reachable after \<open>k\<close> further renders in
  which \<open>4 * k\<close> listeners of finished and cleaned up runs are still registered.
\<close>

theorem app_listeners_unbounded:
  "\<exists>h. hk.reach (app_deps True) h \<and> h_render h = k
     \<and> sum_list (map (\<lambda>e. card (live e)) (filter (\<lambda>e. phase e = Finished \<and> cancelled e) (h_runs h))) = 4 * k"
proof -
  obtain h es where h: "hk.reach (app_deps True) h" "h_render h = k"
    "h_runs h = es @ [effect_start 4 3 600]" "sum_list (map (\<lambda>e. card (live e)) es) = 4 * k"
    "\<forall>e\<in>set es. phase e = Finished \<and> cancelled e" using app_hook_leaks [of k] by blast
  have "filter (\<lambda>e. phase e = Finished \<and> cancelled e) (h_runs h) = es"
    using h(3,5) by (simp add: filter_id_conv effect_start_fields)
  with h show ?thesis by metis
qed

text \<open>
  \<open>onEventOnce\<close> runs its handler once only for events that arrive after the
  subscription has settled: of those it handles the first. Every event that arrives before is
  handled as well, each with a ReferenceError for the unbound \<open>unlisten\<close>.
\<close>

theorem onEventOnce_handles:
  "handled (foldl onEventOnce once_start (map Deliver early @ Settle # map Deliver late)) = early @ take 1 late
   \<and> thrown (foldl onEventOnce once_start (map Deliver early))
       = replicate (length early) (ReferenceError (js ''unlisten''))"
proof -
  let ?s = "foldl onEventOnce once_start (map Deliver early)"
  have s: "?s = once_start\<lparr>handled := early, thrown := replicate (length early) (ReferenceError (js ''unlisten''))\<rparr>"
    using once_early [of once_start early] by (simp add: once_start_def)
  have "handled (foldl onEventOnce (?s\<lparr>unlisten_bound := True\<rparr>) (map Deliver late)) = early @ take 1 late"
    unfolding s by (subst once_late) (simp_all add: once_start_def)
  with s show ?thesis by (simp del: js_Cons)
qed

end
