(* ===== verification/ResultOrder.thy ===== *)
theory ResultOrder
  imports Types "HOL-Library.Multiset"
begin

text \<open>
  The ordering of the result list (\<open>sortedResults\<close> in \<open>src/App.tsx\<close>):
  \<open>Array.prototype.sort\<close> with a comparator that subtracts two numbers and multiplies by 1
  or -1. The language promises a stable sort for a comparator that is consistent; the
  locale \<open>keyed_comparator\<close> says when it is, and the interpretation \<open>res\<close> proves it for
  the program's comparator on results whose numbers are finite.
\<close>

section \<open>Array.prototype.sort\<close>

text \<open>
  A stable sort: an element goes behind another only when the comparator is positive on the
  two, and the elements are inserted from the last one on. On a comparator that is not
  consistent the language leaves the order open; the insertion sort is one choice of it.
\<close>

fun js_insert :: "('a \<Rightarrow> 'a \<Rightarrow> js_number) \<Rightarrow> 'a \<Rightarrow> 'a list \<Rightarrow> 'a list" where
  "js_insert cmp x [] = [x]"
| "js_insert cmp x (y # ys) =
     (if js_lt (Fin 0) (cmp x y) then y # js_insert cmp x ys else x # y # ys)"

definition js_sort :: "('a \<Rightarrow> 'a \<Rightarrow> js_number) \<Rightarrow> 'a list \<Rightarrow> 'a list" where
  "js_sort cmp xs = foldr (js_insert cmp) xs []"

lemma mset_js_insert [simp]: "mset (js_insert cmp x ys) = add_mset x (mset ys)"
  by (induction ys) auto

lemma mset_js_sort [simp]: "mset (js_sort cmp xs) = mset xs"
  by (induction xs) (auto simp: js_sort_def)

lemma set_js_sort [simp]: "set (js_sort cmp xs) = set xs"
  using mset_js_sort by (metis set_mset_mset)

text \<open>A comparator that is positive exactly when the first key is above the second.\<close>

locale keyed_comparator =
  fixes cmp :: "'a \<Rightarrow> 'a \<Rightarrow> js_number"
    and key :: "'a \<Rightarrow> 'k::linorder"
    and ok :: "'a \<Rightarrow> bool"
  assumes positive: "ok x \<Longrightarrow> ok y \<Longrightarrow> js_lt (Fin 0) (cmp x y) \<longleftrightarrow> key y < key x"
begin

lemma js_insert_key:
  "ok x \<Longrightarrow> list_all ok ys \<Longrightarrow> js_insert cmp x ys = insort_key key x ys"
  by (induction ys) (auto simp: positive not_less)

lemma js_sort_key: "list_all ok xs \<Longrightarrow> js_sort cmp xs = sort_key key xs"
proof (induction xs)
  case (Cons x xs)
  then have "list_all ok (js_sort cmp xs)" by (simp add: list_all_iff)
  with Cons show ?case by (simp add: js_sort_def js_insert_key)
qed (simp add: js_sort_def)

lemma js_sort_sorted: "list_all ok xs \<Longrightarrow> sorted (map key (js_sort cmp xs))"
  by (simp add: js_sort_key)

lemma js_sort_stable:
  "list_all ok xs \<Longrightarrow> filter (\<lambda>x. key x = k) (js_sort cmp xs) = filter (\<lambda>x. key x = k) xs"
  by (simp add: js_sort_key sort_key_stable)

end

section \<open>sortedResults\<close>

datatype SortBy = ByScore | ByTime | BySize
datatype SortDir = Asc | Desc

text \<open>\<open>x ?? 0\<close>\<close>

definition or_zero :: "js_number option \<Rightarrow> js_number" where
  "or_zero x = (case x of None \<Rightarrow> Fin 0 | Some n \<Rightarrow> n)"

definition result_compare :: "SortBy \<Rightarrow> SortDir \<Rightarrow> SearchResult \<Rightarrow> SearchResult \<Rightarrow> js_number" where
  "result_compare sortBy sortDir a b =
     (let factor = (case sortDir of Asc \<Rightarrow> Fin 1 | Desc \<Rightarrow> Fin (- 1)) in
      case sortBy of
        ByScore \<Rightarrow> js_mul (js_sub (sr_score a) (sr_score b)) factor
      | ByTime \<Rightarrow> js_mul (js_sub (or_zero (sr_modified_ts a)) (or_zero (sr_modified_ts b))) factor
      | BySize \<Rightarrow> js_mul (js_sub (or_zero (sr_size a)) (or_zero (sr_size b))) factor)"

definition sortedResults :: "SortBy \<Rightarrow> SortDir \<Rightarrow> SearchResult list \<Rightarrow> SearchResult list" where
  "sortedResults sortBy sortDir results = js_sort (result_compare sortBy sortDir) results"

section \<open>The comparator is consistent on finite numbers\<close>

definition finite_number :: "js_number \<Rightarrow> bool" where
  "finite_number n = (case n of Fin x \<Rightarrow> is_double x | _ \<Rightarrow> False)"

fun number_value :: "js_number \<Rightarrow> rat" where
  "number_value (Fin x) = x"
| "number_value _ = 0"

definition sort_field :: "SortBy \<Rightarrow> SearchResult \<Rightarrow> js_number" where
  "sort_field sortBy r =
     (case sortBy of ByScore \<Rightarrow> sr_score r | ByTime \<Rightarrow> or_zero (sr_modified_ts r)
      | BySize \<Rightarrow> or_zero (sr_size r))"

text \<open>The key by which a list is ascending after the sort.\<close>

definition sort_rank :: "SortBy \<Rightarrow> SortDir \<Rightarrow> SearchResult \<Rightarrow> rat" where
  "sort_rank sortBy sortDir r =
     (case sortDir of Asc \<Rightarrow> number_value (sort_field sortBy r)
      | Desc \<Rightarrow> - number_value (sort_field sortBy r))"

lemma to_double_multiple:
  assumes "to_double x = Fin y"
  shows "\<exists>n. y = of_int n * pow2 (- 1074)"
proof (cases "x = 0")
  case True
  then show ?thesis using assms by (auto simp: to_double_def intro: exI [of _ 0])
next
  case False
  let ?e = "max (ilog2 \<bar>x\<bar>) (- 1022) - 52"
  have "y = of_int (round_even (x / quantum x)) * quantum x"
    using assms False by (auto simp: to_double_def Let_def split: if_splits)
  then have "y = of_int (round_even (x / quantum x) * 2 ^ nat (?e + 1074)) * pow2 (- 1074)"
    using pow2_multiple [of "- 1074" ?e] by (simp add: quantum_def)
  then show ?thesis by blast
qed

lemma js_sign_mul_factor:
  assumes "s = 1 \<or> s = - 1"
  shows "js_sign (js_mul (to_double x) (Fin (of_int s))) = s * js_sign (to_double x)"
proof (cases "to_double x")
  case (Fin y)
  then obtain n where "y = of_int n * pow2 (- 1074)" using to_double_multiple by blast
  then have "y * of_int s = of_int (n * s) * pow2 (- 1074)" by simp
  from to_double_sign [OF this] assms Fin show ?thesis by (auto split: if_splits)
qed (use assms in \<open>auto simp: js_inf_def\<close>)

lemma js_lt_0_sign: "js_lt (Fin 0) n \<longleftrightarrow> js_sign n = 1"
  by (cases n) auto

lemma result_compare_field:
  "result_compare sortBy sortDir a b = js_mul (js_sub (sort_field sortBy a) (sort_field sortBy b))
     (Fin (of_int (case sortDir of Asc \<Rightarrow> 1 | Desc \<Rightarrow> - 1)))"
  by (simp add: result_compare_def sort_field_def split: SortBy.split SortDir.split)

definition sortable :: "SortBy \<Rightarrow> SearchResult \<Rightarrow> bool" where
  "sortable sortBy r \<longleftrightarrow> finite_number (sort_field sortBy r)"

lemma result_compare_rank:
  assumes "sortable sortBy a" "sortable sortBy b"
  shows "js_lt (Fin 0) (result_compare sortBy sortDir a b) \<longleftrightarrow> sort_rank sortBy sortDir b < sort_rank sortBy sortDir a"
proof -
  obtain x y where xy: "sort_field sortBy a = Fin x" "sort_field sortBy b = Fin y" "is_double x" "is_double y"
    using assms by (auto simp: sortable_def finite_number_def split: js_number.splits)
  have sub: "js_sub (Fin x) (Fin y) = to_double (x - y)" by (simp add: js_sub_def)
  show ?thesis
    using js_sub_sign [OF xy(3,4)] js_sign_mul_factor [of 1 "x - y"] js_sign_mul_factor [of "- 1" "x - y"]
    by (auto simp: result_compare_field js_lt_0_sign sort_rank_def xy sub split: SortDir.split if_splits
        simp del: js_mul.simps)
qed

interpretation res: keyed_comparator "result_compare sortBy sortDir" "sort_rank sortBy sortDir" "sortable sortBy" for sortBy sortDir
  by unfold_locales (rule result_compare_rank)

section \<open>Properties\<close>

text \<open>
  C11. The list shown is a stable sort of the results by the chosen column and direction: it
  holds the same results the same number of times, its column ascends or descends, and
  results with the same value in the column keep the order the backend gave them. It is the
  reference sort by that key.
\<close>

theorem sortedResults_correct:
  assumes "list_all (sortable sortBy) results"
  shows "sortedResults sortBy sortDir results = sort_key (sort_rank sortBy sortDir) results
    \<and> mset (sortedResults sortBy sortDir results) = mset results
    \<and> sorted (map (sort_rank sortBy sortDir) (sortedResults sortBy sortDir results))
    \<and> (\<forall>k. filter (\<lambda>r. sort_rank sortBy sortDir r = k) (sortedResults sortBy sortDir results)
         = filter (\<lambda>r. sort_rank sortBy sortDir r = k) results)"
  using res.js_sort_key [OF assms, of sortDir] by (simp add: sortedResults_def sort_key_stable)

definition sample_result :: "js_string \<Rightarrow> rat \<Rightarrow> SearchResult" where
  "sample_result p score = \<lparr>sr_path = p, sr_name = p, sr_ext = [], sr_score = Fin score,
     sr_size = None, sr_modified_ts = None, sr_summary = None\<rparr>"

theorem sortedResults_correct_witness:
  "sortedResults ByScore Desc [sample_result (js ''a'') 1, sample_result (js ''b'') 3, sample_result (js ''c'') 1]
     = [sample_result (js ''b'') 3, sample_result (js ''a'') 1, sample_result (js ''c'') 1]"
proof -
  have "is_double 1" "is_double 3" using is_double_int [of 1] is_double_int [of 3] by simp_all
  then have "list_all (sortable ByScore)
      [sample_result (js ''a'') 1, sample_result (js ''b'') 3, sample_result (js ''c'') 1]"
    by (simp add: sortable_def sort_field_def finite_number_def sample_result_def)
  from sortedResults_correct [OF this, of Desc] show ?thesis
    by (simp add: sort_rank_def sort_field_def sample_result_def)
qed

text \<open>
  Turning the direction round reverses the order of the values: the column of the
  descending list is the column of the ascending list read backwards.
\<close>

theorem sortedResults_flip:
  assumes "list_all (sortable sortBy) results"
  shows "map (\<lambda>r. number_value (sort_field sortBy r)) (sortedResults sortBy Desc results)
       = rev (map (\<lambda>r. number_value (sort_field sortBy r)) (sortedResults sortBy Asc results))"
proof -
  let ?v = "\<lambda>r. number_value (sort_field sortBy r)"
  let ?a = "map ?v (sortedResults sortBy Asc results)" and ?d = "map ?v (sortedResults sortBy Desc results)"
  have "sorted ?a" using res.js_sort_sorted [OF assms, of Asc]
    by (simp add: sortedResults_def sort_rank_def [abs_def])
  moreover have "sorted (map uminus ?d)" using res.js_sort_sorted [OF assms, of Desc]
    by (simp add: sortedResults_def sort_rank_def [abs_def] comp_def)
  then have "sorted (rev ?d)" by (simp add: sorted_iff_nth_mono rev_nth) 
  moreover have "mset ?a = mset (rev ?d)" by (simp add: sortedResults_def)
  ultimately have "?a = rev ?d" by (metis properties_for_sort)
  then show ?thesis by simp
qed

theorem sortedResults_flip_witness:
  "map sr_path (sortedResults ByScore Asc [sample_result (js ''b'') 3]) = [js ''b'']
   \<and> map (\<lambda>r. number_value (sort_field ByScore r)) (sortedResults ByScore Desc [sample_result (js ''b'') 3])
     = rev (map (\<lambda>r. number_value (sort_field ByScore r)) (sortedResults ByScore Asc [sample_result (js ''b'') 3]))"
proof -
  have "is_double 3" using is_double_int [of 3] by simp
  then have "list_all (sortable ByScore) [sample_result (js ''b'') 3]"
    by (simp add: sortable_def sort_field_def finite_number_def sample_result_def)
  from sortedResults_flip [OF this] show ?thesis
    by (simp add: sortedResults_def js_sort_def sample_result_def)
qed

end
