(* ===== verification/AppModel.thy ===== *)
theory AppModel
  imports StringUtil SizeUtil Api ResultOrder
begin

text \<open>
  The App component (\<open>src/App.tsx\<close>): its state, its event handlers and the way they
  interleave. A handler is an async function; it runs without interruption up to an
  \<open>await\<close> and goes on when the awaited promise settles. So each handler is a group of
  definitions, one per segment between two awaits, and a world holds the state, the
  suspended handlers in any order, the pending debounce timer and the number of registered
  \<open>scan_progress\<close> listeners. A handler reads the state of the render that created it and
  writes the current one.
\<close>

section \<open>State\<close>

text \<open>The texts of the status line; a failure shows \<open>e.toString()\<close> or a fixed fallback.\<close>

datatype failing = FScan | FIndex | FPipeline | FSave | FReset | FSearch | FDiag | FRoots | FDir
  | FDetect | FDelete

datatype message = MNone | MBrowser | MConfigLoaded | MScanning | MScanDone nat
  | MIndexing js_number js_number js_string | MIndexDone | MAutoScan "js_string option"
  | MIndexBuilding | MPipeline | MSaving | MSaved | MResetting | MReset | MSearching | MFound nat
  | MCleared | MFiltersReset | MDiagRunning | MDiagDone | MRootsPicked | MDirPicked | MAnalysing
  | MDupFound nat | MDeleting | MDeleted | MCopied | MCopyFailed
  | MError js_error | MFallback failing

datatype ViewMode = VTable | VCard
datatype Lang = Zh | En

record AppState =
  indexDir :: js_string
  roots :: js_string
  exclude :: js_string
  scanned :: "FileMeta list"
  scanCount :: js_number
  scanDir :: js_string
  query :: js_string
  results :: "SearchResult list"
  busy :: bool
  msg :: message
  enableContentParse :: bool
  page :: PageKey
  theme :: ThemeKey
  autoScanEnabled :: bool
  viewMode :: ViewMode
  selected :: "SearchResult option"
  extFilter :: js_string
  minSize :: js_string
  maxSize :: js_string
  sortBy :: SortBy
  sortDir :: SortDir
  lang :: Lang
  idxCurrent :: js_number
  idxTotal :: js_number
  idxRunning :: bool
  lastScanTotal :: js_number
  dupGroups :: "DupGroup list"
  dupIncludeHash :: bool
  dupIncludeName :: bool
  diag :: "DiagnosticsReport option"
  showRelativeTime :: bool
  pathMaxLen :: js_number

definition default_index_dir :: js_string where
  "default_index_dir = js ''indexes/main''"

definition default_exclude :: js_string where
  "default_exclude = 92 # js ''Windows, '' @ 92 # js ''Program Files, '' @ 92 # js ''AppData''"

definition initial_state :: "runtime_env \<Rightarrow> AppState" where
  "initial_state e = \<lparr>indexDir = default_index_dir, roots = js ''D:/'', exclude = default_exclude,
     scanned = [], scanCount = Fin 0, scanDir = [], query = [], results = [], busy = False,
     msg = MNone, enableContentParse = False, page = PSearch, theme = TEye, autoScanEnabled = True,
     viewMode = VTable, selected = None, extFilter = [], minSize = [], maxSize = [],
     sortBy = ByScore, sortDir = Desc, lang = Zh, idxCurrent = Fin 0, idxTotal = Fin 0,
     idxRunning = False, lastScanTotal = Fin 0, dupGroups = [], dupIncludeHash = True,
     dupIncludeName = True, diag = None, showRelativeTime = False, pathMaxLen = PATH_MAX_LEN e\<rparr>"

text \<open>The suspended handlers, named by the await they stand at.\<close>

datatype task =
    TLoadConfig
  | TScanListen scan_opts | TScanRun scan_opts
  | TIndex "FileMeta list" index_opts
  | TPipeline "js_string list" "js_string list" index_opts
  | TSaveConfig AppConfig
  | TResetConfig
  | TSearch SearchRequest
  | TDiagnostics
  | TPickRoots | TPickIndexDir
  | TDetectListen scan_opts | TDetectScan scan_opts | TDetect "js_string list"
  | TDelete js_string js_string
  | TAutoScan
  | TOpenLocation js_string
  | TCopyPath js_string

record world =
  app :: AppState
  tasks :: "task list"
  timer :: "AppState option"
  scanListeners :: nat

definition put :: "AppState \<Rightarrow> world \<Rightarrow> world" where
  "put a w = w\<lparr>app := a\<rparr>"

definition await_on :: "task \<Rightarrow> world \<Rightarrow> world" where
  "await_on t w = w\<lparr>tasks := tasks w @ [t]\<rparr>"

text \<open>\<open>setMsg(e?.toString?.() ?? fallback)\<close>\<close>

definition failure_msg :: "failing \<Rightarrow> js_error \<Rightarrow> message" where
  "failure_msg f e = (if e = Undefined then MFallback f else MError e)"

section \<open>Configuration\<close>

text \<open>What the loading effect and \<open>doResetConfig\<close> do with a configuration.\<close>

definition apply_config :: "AppConfig \<Rightarrow> AppState \<Rightarrow> AppState" where
  "apply_config cfg s =
     (let s1 = s\<lparr>indexDir := (if index_dir cfg = [] then default_index_dir else index_dir cfg),
                 roots := joinCSV (scan_roots cfg), exclude := joinCSV (exclude_patterns cfg)\<rparr>;
          s2 = (case path_max_len cfg of
                  None \<Rightarrow> s1 | Some n \<Rightarrow> if is_finite n then s1\<lparr>pathMaxLen := n\<rparr> else s1)
      in case auto_scan_enabled cfg of None \<Rightarrow> s2 | Some b \<Rightarrow> s2\<lparr>autoScanEnabled := b\<rparr>)"

text \<open>The effect on mount; a failed read is ignored.\<close>

definition load_config :: "world \<Rightarrow> world" where
  "load_config w = await_on TLoadConfig w"

definition load_config_done :: "AppConfig result \<Rightarrow> world \<Rightarrow> world" where
  "load_config_done r w =
     (case r of Inl e \<Rightarrow> w
      | Inr cfg \<Rightarrow> put ((apply_config cfg (app w))\<lparr>msg := MConfigLoaded\<rparr>) w)"

definition form_config :: "AppState \<Rightarrow> AppConfig" where
  "form_config s = \<lparr>search_mode = js ''inverted'', scan_roots = parseCSV (roots s),
     exclude_patterns = parseCSV (exclude s), index_dir = indexDir s,
     path_max_len = Some (pathMaxLen s), auto_scan_enabled = Some (autoScanEnabled s)\<rparr>"

definition doSaveConfig :: "world \<Rightarrow> world" where
  "doSaveConfig w =
     await_on (TSaveConfig (form_config (app w))) (put ((app w)\<lparr>busy := True, msg := MSaving\<rparr>) w)"

definition doSaveConfig_done :: "unit result \<Rightarrow> world \<Rightarrow> world" where
  "doSaveConfig_done r w =
     put ((app w)\<lparr>msg := (case r of Inl e \<Rightarrow> failure_msg FSave e | Inr _ \<Rightarrow> MSaved), busy := False\<rparr>) w"

definition doResetConfig :: "world \<Rightarrow> world" where
  "doResetConfig w = await_on TResetConfig (put ((app w)\<lparr>busy := True, msg := MResetting\<rparr>) w)"

definition doResetConfig_done :: "AppConfig result \<Rightarrow> world \<Rightarrow> world" where
  "doResetConfig_done r w =
     (case r of
        Inl e \<Rightarrow> put ((app w)\<lparr>msg := failure_msg FReset e, busy := False\<rparr>) w
      | Inr cfg \<Rightarrow> put ((apply_config cfg (app w))\<lparr>msg := MReset, busy := False\<rparr>) w)"

section \<open>Scanning and indexing\<close>

definition form_scan_opts :: "AppState \<Rightarrow> scan_opts" where
  "form_scan_opts s = \<lparr>so_roots = parseCSV (roots s), so_exclude_patterns = parseCSV (exclude s),
     so_max_file_size_mb = Fin 500, so_follow_symlinks = False\<rparr>"

definition form_index_opts :: "AppState \<Rightarrow> index_opts" where
  "form_index_opts s = \<lparr>io_indexDir = indexDir s, io_enable_content_parse = enableContentParse s\<rparr>"

definition doScan :: "world \<Rightarrow> world" where
  "doScan w =
     await_on (TScanListen (form_scan_opts (app w)))
       (put ((app w)\<lparr>busy := True, msg := MScanning, scanCount := Fin 0, scanDir := []\<rparr>) w)"

definition scan_failed :: "failing \<Rightarrow> js_error \<Rightarrow> world \<Rightarrow> world" where
  "scan_failed f e w = put ((app w)\<lparr>msg := failure_msg f e, busy := False\<rparr>) w"

definition doScan_listening :: "scan_opts \<Rightarrow> unit result \<Rightarrow> world \<Rightarrow> world" where
  "doScan_listening opts r w =
     (case r of Inl e \<Rightarrow> scan_failed FScan e w
      | Inr _ \<Rightarrow> await_on (TScanRun opts) (w\<lparr>scanListeners := scanListeners w + 1\<rparr>))"

definition doScan_done :: "FileMeta list result \<Rightarrow> world \<Rightarrow> world" where
  "doScan_done r w =
     (case r of Inl e \<Rightarrow> scan_failed FScan e w
      | Inr res \<Rightarrow>
          put ((app w)\<lparr>scanned := res, lastScanTotal := Fin (of_nat (length res)),
                      msg := MScanDone (length res), busy := False\<rparr>)
            (w\<lparr>scanListeners := scanListeners w - 1\<rparr>))"

definition doIndex :: "world \<Rightarrow> world" where
  "doIndex w =
     await_on (TIndex (scanned (app w)) (form_index_opts (app w)))
       (put ((app w)\<lparr>busy := True, msg := MIndexBuilding\<rparr>) w)"

definition doIndex_done :: "unit result \<Rightarrow> world \<Rightarrow> world" where
  "doIndex_done r w =
     put ((app w)\<lparr>msg := (case r of Inl e \<Rightarrow> failure_msg FIndex e | Inr _ \<Rightarrow> MIndexDone), busy := False\<rparr>) w"

definition doScanAndIndex :: "world \<Rightarrow> world" where
  "doScanAndIndex w =
     await_on (TPipeline (parseCSV (roots (app w))) (parseCSV (exclude (app w))) (form_index_opts (app w)))
       (put ((app w)\<lparr>busy := True, idxCurrent := Fin 0, idxTotal := Fin 0, idxRunning := True,
                    msg := MPipeline\<rparr>) w)"

definition doScanAndIndex_done :: "unit result \<Rightarrow> world \<Rightarrow> world" where
  "doScanAndIndex_done r w =
     (case r of
        Inl e \<Rightarrow> put ((app w)\<lparr>msg := failure_msg FPipeline e, idxRunning := False, busy := False\<rparr>) w
      | Inr _ \<Rightarrow> put ((app w)\<lparr>busy := False\<rparr>) w)"

section \<open>Search\<close>

text \<open>\<open>minSize.trim() ? Number(minSize) : undefined\<close>, then \<open>toBytesMb\<close> unless it is NaN.\<close>

definition size_bound :: "js_string \<Rightarrow> js_number option" where
  "size_bound s =
     (let v = (if js_trim s = [] then None else Some (js_Number s))
      in case v of None \<Rightarrow> None | Some n \<Rightarrow> if n = NaN then None else Some (toBytesMb n))"

definition search_filters :: "AppState \<Rightarrow> SearchFilters option" where
  "search_filters s =
     (let extArr = parseCSV (extFilter s); minBytes = size_bound (minSize s);
          maxBytes = size_bound (maxSize s)
      in if extArr \<noteq> [] \<or> minBytes \<noteq> None \<or> maxBytes \<noteq> None
         then Some \<lparr>sf_ext = (if extArr = [] then None else Some extArr),
                    sf_min_size = minBytes, sf_max_size = maxBytes\<rparr>
         else None)"

definition search_request :: "AppState \<Rightarrow> SearchRequest" where
  "search_request s = \<lparr>rq_query = query s, rq_filters = search_filters s, rq_indexDir = indexDir s\<rparr>"

text \<open>\<open>doSearch\<close> of the render with the state \<open>c\<close>.\<close>

definition doSearch :: "AppState \<Rightarrow> world \<Rightarrow> world" where
  "doSearch c w =
     await_on (TSearch (search_request c)) (put ((app w)\<lparr>busy := True, msg := MSearching\<rparr>) w)"

definition doSearch_done :: "SearchResult list result \<Rightarrow> world \<Rightarrow> world" where
  "doSearch_done r w =
     (case r of
        Inl e \<Rightarrow> put ((app w)\<lparr>msg := failure_msg FSearch e, busy := False\<rparr>) w
      | Inr res \<Rightarrow>
          put ((app w)\<lparr>results := res, msg := MFound (length res), page := PSearch,
                      selected := (case res of [] \<Rightarrow> None | x # _ \<Rightarrow> Some x), busy := False\<rparr>) w)"

definition clearQuery :: "world \<Rightarrow> world" where
  "clearQuery w = put ((app w)\<lparr>query := [], results := [], selected := None, msg := MCleared\<rparr>) w"

definition resetFilters :: "world \<Rightarrow> world" where
  "resetFilters w =
     put ((app w)\<lparr>extFilter := [], minSize := [], maxSize := [], sortBy := ByScore, sortDir := Desc,
                 viewMode := VTable, msg := MFiltersReset\<rparr>) w"

section \<open>Index page\<close>

definition runDiagnostics :: "world \<Rightarrow> world" where
  "runDiagnostics w = await_on TDiagnostics (put ((app w)\<lparr>msg := MDiagRunning\<rparr>) w)"

definition runDiagnostics_done :: "DiagnosticsReport result \<Rightarrow> world \<Rightarrow> world" where
  "runDiagnostics_done r w =
     (case r of Inl e \<Rightarrow> put ((app w)\<lparr>msg := failure_msg FDiag e\<rparr>) w
      | Inr d \<Rightarrow> put ((app w)\<lparr>diag := Some d, msg := MDiagDone\<rparr>) w)"

text \<open>The effect of \<open>IndexPage\<close> on mount: the diagnostics run unless a report is there.\<close>

definition auto_diagnostics :: "world \<Rightarrow> world" where
  "auto_diagnostics w = (if diag (app w) \<noteq> None then w else runDiagnostics w)"

text \<open>What a dialog returns: several paths, one path, or \<open>null\<close> when it is dismissed.\<close>

datatype selection = SelMany "js_string list" | SelOne js_string | SelNone

definition pickRoots :: "world \<Rightarrow> world" where
  "pickRoots w = await_on TPickRoots w"

definition pickRoots_done :: "selection result \<Rightarrow> world \<Rightarrow> world" where
  "pickRoots_done r w =
     (case r of
        Inl e \<Rightarrow> put ((app w)\<lparr>msg := failure_msg FRoots e\<rparr>) w
      | Inr sel \<Rightarrow>
          let s = (case sel of SelMany ps \<Rightarrow> (app w)\<lparr>roots := joinCSV ps\<rparr>
                    | SelOne p \<Rightarrow> (app w)\<lparr>roots := p\<rparr> | SelNone \<Rightarrow> app w)
          in put (s\<lparr>msg := MRootsPicked\<rparr>) w)"

definition pickIndexDir :: "world \<Rightarrow> world" where
  "pickIndexDir w = await_on TPickIndexDir w"

definition pickIndexDir_done :: "selection result \<Rightarrow> world \<Rightarrow> world" where
  "pickIndexDir_done r w =
     (case r of
        Inl e \<Rightarrow> put ((app w)\<lparr>msg := failure_msg FDir e\<rparr>) w
      | Inr (SelOne p) \<Rightarrow> put ((app w)\<lparr>indexDir := p, msg := MDirPicked\<rparr>) w
      | Inr _ \<Rightarrow> w)"

text \<open>The width of the progress bar in percent, and the number of files still to do.\<close>

definition progress_percent :: "js_number \<Rightarrow> js_number \<Rightarrow> js_number" where
  "progress_percent current tot =
     math_min (Fin 100) (math_round (js_mul (js_div current (math_max (Fin 1) tot)) (Fin 100)))"

definition progress_pending :: "js_number \<Rightarrow> js_number \<Rightarrow> js_number" where
  "progress_pending current tot = math_max (Fin 0) (js_sub tot current)"

text \<open>\<open>(busy || idxRunning) ? scanCount : (scanned.length || lastScanTotal)\<close>\<close>

definition scanned_shown :: "AppState \<Rightarrow> js_number" where
  "scanned_shown s =
     (if busy s \<or> idxRunning s then scanCount s
      else if scanned s \<noteq> [] then Fin (of_nat (length (scanned s))) else lastScanTotal s)"

section \<open>Duplicates page\<close>

definition detect_paths :: "js_string list \<Rightarrow> world \<Rightarrow> world" where
  "detect_paths paths w = await_on (TDetect paths) (put ((app w)\<lparr>msg := MAnalysing\<rparr>) w)"

definition runDetect :: "world \<Rightarrow> world" where
  "runDetect w =
     (let w1 = put ((app w)\<lparr>busy := True, msg := MScanning\<rparr>) w
      in if scanned (app w) \<noteq> [] then detect_paths (map fm_path (scanned (app w))) w1
         else await_on (TDetectListen (form_scan_opts (app w))) w1)"

definition runDetect_listening :: "scan_opts \<Rightarrow> unit result \<Rightarrow> world \<Rightarrow> world" where
  "runDetect_listening opts r w =
     (case r of Inl e \<Rightarrow> scan_failed FDetect e w
      | Inr _ \<Rightarrow> await_on (TDetectScan opts) (w\<lparr>scanListeners := scanListeners w + 1\<rparr>))"

definition runDetect_scanned :: "FileMeta list result \<Rightarrow> world \<Rightarrow> world" where
  "runDetect_scanned r w =
     (case r of Inl e \<Rightarrow> scan_failed FDetect e w
      | Inr res \<Rightarrow>
          detect_paths (map fm_path res)
            (put ((app w)\<lparr>scanned := res\<rparr>) (w\<lparr>scanListeners := scanListeners w - 1\<rparr>)))"

definition runDetect_done :: "DupGroup list result \<Rightarrow> world \<Rightarrow> world" where
  "runDetect_done r w =
     (case r of Inl e \<Rightarrow> scan_failed FDetect e w
      | Inr groups \<Rightarrow>
          put ((app w)\<lparr>dupGroups := groups, msg := MDupFound (length groups), busy := False\<rparr>) w)"

definition filteredGroups :: "AppState \<Rightarrow> DupGroup list" where
  "filteredGroups s =
     filter (\<lambda>g. (dupIncludeHash s \<and> dg_kind g = KHash) \<or> (dupIncludeName s \<and> dg_kind g = KName))
       (dupGroups s)"

text \<open>The update of the groups after a deletion.\<close>

definition remove_path :: "js_string \<Rightarrow> DupGroup list \<Rightarrow> DupGroup list" where
  "remove_path path gs =
     filter (\<lambda>g. 1 < length (dg_files g))
       (map (\<lambda>g. g\<lparr>dg_files := filter (\<lambda>p. p \<noteq> path) (dg_files g)\<rparr>) gs)"

definition handleDelete :: "bool \<Rightarrow> js_string \<Rightarrow> world \<Rightarrow> world" where
  "handleDelete confirmed path w =
     (if \<not> confirmed then w
      else await_on (TDelete path (indexDir (app w)))
             (put ((app w)\<lparr>busy := True, msg := MDeleting\<rparr>) w))"

definition handleDelete_done :: "js_string \<Rightarrow> unit result \<Rightarrow> world \<Rightarrow> world" where
  "handleDelete_done path r w =
     (case r of
        Inl e \<Rightarrow> put ((app w)\<lparr>msg := failure_msg FDelete e, busy := False\<rparr>) w
      | Inr _ \<Rightarrow>
          put ((app w)\<lparr>dupGroups := remove_path path (dupGroups (app w)), msg := MDeleted, busy := False\<rparr>) w)"

section \<open>Backend events\<close>

datatype backend_event =
    EIndexProgress IndexProgressPayload
  | EIndexDone
  | EScanDone "js_number option"
  | EAutoScanStart "js_string option"
  | EScanProgress "js_number option" "js_string option"

definition on_index_progress :: "IndexProgressPayload \<Rightarrow> AppState \<Rightarrow> AppState" where
  "on_index_progress p s =
     s\<lparr>idxCurrent := or_zero (ip_current p), idxTotal := or_zero (ip_total p), idxRunning := True,
       msg := MIndexing (or_zero (ip_current p)) (or_zero (ip_total p))
                (case ip_name p of None \<Rightarrow> [] | Some n \<Rightarrow> n)\<rparr>"

definition on_index_done :: "AppState \<Rightarrow> AppState" where
  "on_index_done s = s\<lparr>idxRunning := False, msg := MIndexDone\<rparr>"

definition on_scan_done :: "js_number option \<Rightarrow> AppState \<Rightarrow> AppState" where
  "on_scan_done tot s =
     (case tot of None \<Rightarrow> s | Some n \<Rightarrow> s\<lparr>idxTotal := n, lastScanTotal := n\<rparr>)"

definition on_auto_scan_start :: "js_string option \<Rightarrow> AppState \<Rightarrow> AppState" where
  "on_auto_scan_start reason s = s\<lparr>msg := MAutoScan reason\<rparr>"

text \<open>The directory of a path: up to the last separator, unless that is the first character.\<close>

definition scan_dir_of :: "js_string \<Rightarrow> js_string" where
  "scan_dir_of p =
     (let idx = max (js_last_index 92 p) (js_last_index 47 p)
      in if 0 < idx then js_slice p (Fin 0) (Some (Fin (of_int idx))) else p)"

definition on_scan_progress :: "js_number option \<Rightarrow> js_string option \<Rightarrow> AppState \<Rightarrow> AppState" where
  "on_scan_progress current path s =
     (let s1 = (case current of None \<Rightarrow> s | Some n \<Rightarrow> s\<lparr>scanCount := n\<rparr>)
      in case path of None \<Rightarrow> s1 | Some p \<Rightarrow> if p \<noteq> [] then s1\<lparr>scanDir := scan_dir_of p\<rparr> else s1)"

text \<open>\<open>scan_progress\<close> has a listener only while, or after, a scan has registered one.\<close>

definition deliver :: "backend_event \<Rightarrow> world \<Rightarrow> world" where
  "deliver ev w =
     (case ev of
        EIndexProgress p \<Rightarrow> put (on_index_progress p (app w)) w
      | EIndexDone \<Rightarrow> put (on_index_done (app w)) w
      | EScanDone tot \<Rightarrow> put (on_scan_done tot (app w)) w
      | EAutoScanStart reason \<Rightarrow> put (on_auto_scan_start reason (app w)) w
      | EScanProgress current path \<Rightarrow>
          if 0 < scanListeners w then put (on_scan_progress current path (app w)) w else w)"

section \<open>Controls\<close>

text \<open>The keys the view tabs react to.\<close>

datatype tab_key = ArrowRight | ArrowLeft | Home | End | OtherKey

definition view_tab_key :: "tab_key \<Rightarrow> ViewMode \<Rightarrow> ViewMode" where
  "view_tab_key k v =
     (if k = ArrowRight \<or> k = ArrowLeft then (if v = VTable then VCard else VTable)
      else if k = Home then VTable else if k = End then VCard else v)"

datatype action =
    Navigate PageKey | SetTheme ThemeKey | SetLang Lang
  | TypeQuery js_string | PressEnter | ClickSearch | ChooseExt js_string
  | ChooseView ViewMode | ViewKey tab_key | ChooseSort SortBy | FlipSort | ToggleTime
  | SelectResult SearchResult | OpenSelected | CopySelected bool
  | TypeRoots js_string | TypeExclude js_string | TypeIndexDir js_string | CheckParse bool
  | ClickPickRoots | ClickPickIndexDir | ClickScanAndIndex | ClickSave | ClickReset
  | ClickAutoScan | ClickDiagnose
  | CheckHash bool | CheckName bool | ClickDetect | OpenDup js_string | ClickDelete bool js_string
  | TypePathMaxLen js_string | CheckAutoScan bool

text \<open>
  What the controls of a page do, \<open>None\<close> for a control that is not there or is disabled.
  The buttons of the backend commands are disabled while \<open>busy\<close>; the Enter key and the
  delete buttons are not.
\<close>

definition button :: "bool \<Rightarrow> world \<Rightarrow> world \<Rightarrow> world option" where
  "button inTauri w w' = (if busy (app w) \<or> \<not> inTauri then None else Some w')"

text \<open>The values of the file type menu.\<close>

definition ext_options :: "js_string list" where
  "ext_options = [[], js ''pdf'', js ''ofd'', js ''doc,docx'', js ''xls,xlsx'', js ''ppt,pptx'', js ''txt'',
     js ''png,jpg,jpeg'', js ''mp3,wav'', js ''mp4,mkv'', js ''gif,bmp,svg'', js ''flac,m4a'', js ''avi,mov,webm'',
     js ''csv'', js ''md,markdown'', js ''rtf'', js ''html,htm'', js ''json'', js ''xml'', js ''zip,rar,7z'', js ''log'']"

fun search_controls :: "bool \<Rightarrow> action \<Rightarrow> world \<Rightarrow> world option" where
  "search_controls inTauri (TypeQuery q) w = Some (put ((app w)\<lparr>query := q\<rparr>) w)"
| "search_controls inTauri PressEnter w = Some (if \<not> inTauri then w else doSearch (app w) w)"
| "search_controls inTauri ClickSearch w = button inTauri w (doSearch (app w) w)"
| "search_controls inTauri (ChooseExt x) w =
     (if x \<in> set ext_options then Some (put ((app w)\<lparr>extFilter := x\<rparr>) w) else None)"
| "search_controls inTauri (ChooseView v) w = Some (put ((app w)\<lparr>viewMode := v\<rparr>) w)"
| "search_controls inTauri (ViewKey k) w =
     Some (put ((app w)\<lparr>viewMode := view_tab_key k (viewMode (app w))\<rparr>) w)"
| "search_controls inTauri (ChooseSort b) w = Some (put ((app w)\<lparr>sortBy := b\<rparr>) w)"
| "search_controls inTauri FlipSort w =
     Some (put ((app w)\<lparr>sortDir := (if sortDir (app w) = Asc then Desc else Asc)\<rparr>) w)"
| "search_controls inTauri ToggleTime w =
     Some (put ((app w)\<lparr>showRelativeTime := \<not> showRelativeTime (app w)\<rparr>) w)"
| "search_controls inTauri _ w = None"

fun result_controls :: "bool \<Rightarrow> action \<Rightarrow> world \<Rightarrow> world option" where
  "result_controls inTauri (SelectResult r) w =
     (if r \<in> set (sortedResults (sortBy (app w)) (sortDir (app w)) (results (app w)))
      then Some (put ((app w)\<lparr>selected := Some r\<rparr>) w) else None)"
| "result_controls inTauri OpenSelected w =
     (case selected (app w) of None \<Rightarrow> None
      | Some r \<Rightarrow> Some (if inTauri then await_on (TOpenLocation (sr_path r)) w else w))"
| "result_controls inTauri (CopySelected has_clipboard) w =
     (case selected (app w) of None \<Rightarrow> None
      | Some r \<Rightarrow> Some (if has_clipboard then await_on (TCopyPath (sr_path r)) w else w))"
| "result_controls inTauri _ w = None"

fun index_controls :: "bool \<Rightarrow> action \<Rightarrow> world \<Rightarrow> world option" where
  "index_controls inTauri (TypeRoots t) w = Some (put ((app w)\<lparr>roots := t\<rparr>) w)"
| "index_controls inTauri (TypeExclude t) w = Some (put ((app w)\<lparr>exclude := t\<rparr>) w)"
| "index_controls inTauri (TypeIndexDir t) w = Some (put ((app w)\<lparr>indexDir := t\<rparr>) w)"
| "index_controls inTauri (CheckParse b) w = Some (put ((app w)\<lparr>enableContentParse := b\<rparr>) w)"
| "index_controls inTauri ClickPickRoots w = (if inTauri then Some (pickRoots w) else None)"
| "index_controls inTauri ClickPickIndexDir w = (if inTauri then Some (pickIndexDir w) else None)"
| "index_controls inTauri ClickScanAndIndex w = button inTauri w (doScanAndIndex w)"
| "index_controls inTauri ClickSave w = button inTauri w (doSaveConfig w)"
| "index_controls inTauri ClickReset w = button inTauri w (doResetConfig w)"
| "index_controls inTauri ClickAutoScan w = button inTauri w (await_on TAutoScan w)"
| "index_controls inTauri ClickDiagnose w = (if inTauri then Some (runDiagnostics w) else None)"
| "index_controls inTauri _ w = None"

text \<open>The path of a button is one that the cards list.\<close>

definition listed :: "js_string \<Rightarrow> AppState \<Rightarrow> bool" where
  "listed p s \<longleftrightarrow> list_ex (\<lambda>g. p \<in> set (dg_files g)) (filteredGroups s)"

fun dup_controls :: "bool \<Rightarrow> action \<Rightarrow> world \<Rightarrow> world option" where
  "dup_controls inTauri (CheckHash b) w = Some (put ((app w)\<lparr>dupIncludeHash := b\<rparr>) w)"
| "dup_controls inTauri (CheckName b) w = Some (put ((app w)\<lparr>dupIncludeName := b\<rparr>) w)"
| "dup_controls inTauri ClickDetect w = button inTauri w (runDetect w)"
| "dup_controls inTauri (OpenDup p) w =
     (if listed p (app w) then Some (await_on (TOpenLocation p) w) else None)"
| "dup_controls inTauri (ClickDelete confirmed p) w =
     (if listed p (app w) then Some (if \<not> inTauri then w else handleDelete confirmed p w) else None)"
| "dup_controls inTauri _ w = None"

text \<open>
  The value of a number input is empty or a number; its bounds and its step do not restrict
  what is typed.
\<close>

fun settings_controls :: "bool \<Rightarrow> action \<Rightarrow> world \<Rightarrow> world option" where
  "settings_controls inTauri (SetLang l) w = Some (put ((app w)\<lparr>lang := l\<rparr>) w)"
| "settings_controls inTauri (TypePathMaxLen t) w =
     (if is_finite (js_Number t) then Some (put ((app w)\<lparr>pathMaxLen := js_Number t\<rparr>) w) else None)"
| "settings_controls inTauri ClickSave w = button inTauri w (doSaveConfig w)"
| "settings_controls inTauri (CheckAutoScan b) w = Some (put ((app w)\<lparr>autoScanEnabled := b\<rparr>) w)"
| "settings_controls inTauri _ w = None"

text \<open>The controls of the page that \<open>renderContent\<close> shows.\<close>

definition page_controls :: "bool \<Rightarrow> action \<Rightarrow> world \<Rightarrow> world option" where
  "page_controls inTauri act w =
     (case page (app w) of
        PSearch \<Rightarrow> (case search_controls inTauri act w of
            None \<Rightarrow> result_controls inTauri act w | Some w' \<Rightarrow> Some w')
      | PIndex \<Rightarrow> index_controls inTauri act w
      | PDup \<Rightarrow> dup_controls inTauri act w
      | PSettings \<Rightarrow> settings_controls inTauri act w
      | PAbout \<Rightarrow> None)"

text \<open>The sidebar and the theme menus; the index page runs its effect when it appears.\<close>

definition navigate :: "bool \<Rightarrow> PageKey \<Rightarrow> world \<Rightarrow> world" where
  "navigate inTauri p w =
     (let w1 = put ((app w)\<lparr>page := p\<rparr>) w
      in if p = PIndex \<and> page (app w) \<noteq> PIndex \<and> inTauri then auto_diagnostics w1 else w1)"

definition user_action :: "bool \<Rightarrow> action \<Rightarrow> world \<Rightarrow> world option" where
  "user_action inTauri act w =
     (case act of
        Navigate p \<Rightarrow> Some (navigate inTauri p w)
      | SetTheme t \<Rightarrow> Some (put ((app w)\<lparr>theme := t\<rparr>) w)
      | _ \<Rightarrow> page_controls inTauri act w)"

section \<open>Interleaving\<close>

datatype response =
    RUnit "unit result" | RConfig "AppConfig result" | RFiles "FileMeta list result"
  | RResults "SearchResult list result" | RDiag "DiagnosticsReport result"
  | RSelection "selection result" | RGroups "DupGroup list result"

text \<open>The value a promise of the given type settled with.\<close>

fun unit_resp :: "response \<Rightarrow> unit result option" where
  "unit_resp (RUnit r) = Some r"
| "unit_resp _ = None"

fun config_of :: "response \<Rightarrow> AppConfig result option" where
  "config_of (RConfig r) = Some r"
| "config_of _ = None"

fun files_of :: "response \<Rightarrow> FileMeta list result option" where
  "files_of (RFiles r) = Some r"
| "files_of _ = None"

fun results_of :: "response \<Rightarrow> SearchResult list result option" where
  "results_of (RResults r) = Some r"
| "results_of _ = None"

fun diag_of :: "response \<Rightarrow> DiagnosticsReport result option" where
  "diag_of (RDiag r) = Some r"
| "diag_of _ = None"

fun selection_of :: "response \<Rightarrow> selection result option" where
  "selection_of (RSelection r) = Some r"
| "selection_of _ = None"

fun groups_of :: "response \<Rightarrow> DupGroup list result option" where
  "groups_of (RGroups r) = Some r"
| "groups_of _ = None"

text \<open>The segment of a handler that runs when its promise settles.\<close>

fun resume :: "task \<Rightarrow> response \<Rightarrow> world \<Rightarrow> world option" where
  "resume TLoadConfig v w = map_option (\<lambda>r. load_config_done r w) (config_of v)"
| "resume (TScanListen opts) v w = map_option (\<lambda>r. doScan_listening opts r w) (unit_resp v)"
| "resume (TScanRun opts) v w = map_option (\<lambda>r. doScan_done r w) (files_of v)"
| "resume (TIndex files opts) v w = map_option (\<lambda>r. doIndex_done r w) (unit_resp v)"
| "resume (TPipeline rs es opts) v w = map_option (\<lambda>r. doScanAndIndex_done r w) (unit_resp v)"
| "resume (TSaveConfig cfg) v w = map_option (\<lambda>r. doSaveConfig_done r w) (unit_resp v)"
| "resume TResetConfig v w = map_option (\<lambda>r. doResetConfig_done r w) (config_of v)"
| "resume (TSearch req) v w = map_option (\<lambda>r. doSearch_done r w) (results_of v)"
| "resume TDiagnostics v w = map_option (\<lambda>r. runDiagnostics_done r w) (diag_of v)"
| "resume TPickRoots v w = map_option (\<lambda>r. pickRoots_done r w) (selection_of v)"
| "resume TPickIndexDir v w = map_option (\<lambda>r. pickIndexDir_done r w) (selection_of v)"
| "resume (TDetectListen opts) v w = map_option (\<lambda>r. runDetect_listening opts r w) (unit_resp v)"
| "resume (TDetectScan opts) v w = map_option (\<lambda>r. runDetect_scanned r w) (files_of v)"
| "resume (TDetect paths) v w = map_option (\<lambda>r. runDetect_done r w) (groups_of v)"
| "resume (TDelete path dir) v w = map_option (\<lambda>r. handleDelete_done path r w) (unit_resp v)"
| "resume TAutoScan v w = map_option (\<lambda>r. w) (unit_resp v)"
| "resume (TOpenLocation path) v w = map_option (\<lambda>r. w) (unit_resp v)"
| "resume (TCopyPath path) v w = map_option (\<lambda>r.
     put ((app w)\<lparr>msg := (case r of Inl e \<Rightarrow> MCopyFailed | Inr _ \<Rightarrow> MCopied)\<rparr>) w) (unit_resp v)"

text \<open>
  The debounce effect: when one of its dependencies changed, the old timer is cleared and,
  on the search page of the desktop program, a new one is started that will search with the
  values of this render.
\<close>

definition search_deps :: "AppState \<Rightarrow> js_string \<times> js_string \<times> js_string \<times> js_string \<times> PageKey" where
  "search_deps s = (query s, extFilter s, minSize s, maxSize s, page s)"

definition arm_timer :: "bool \<Rightarrow> AppState \<Rightarrow> AppState option" where
  "arm_timer inTauri s = (if \<not> inTauri \<or> page s \<noteq> PSearch then None else Some s)"

definition debounce :: "bool \<Rightarrow> AppState \<Rightarrow> world \<Rightarrow> world" where
  "debounce inTauri old w =
     (if search_deps old = search_deps (app w) then w else w\<lparr>timer := arm_timer inTauri (app w)\<rparr>)"

definition search_timer_fires :: "AppState \<Rightarrow> world \<Rightarrow> world" where
  "search_timer_fires c w =
     (let w1 = w\<lparr>timer := None\<rparr> in if js_trim (query c) \<noteq> [] then doSearch c w1 else w1)"

text \<open>The first render and its effects.\<close>

definition initial_world :: "bool \<Rightarrow> runtime_env \<Rightarrow> world" where
  "initial_world inTauri e =
     (let s = initial_state e;
          w = \<lparr>app = s, tasks = [], timer = arm_timer inTauri s, scanListeners = 0\<rparr>
      in if inTauri then load_config w else put (s\<lparr>msg := MBrowser\<rparr>) w)"

inductive app_step :: "bool \<Rightarrow> world \<Rightarrow> world \<Rightarrow> bool" for inTauri where
  user: "user_action inTauri act w = Some w1 \<Longrightarrow> app_step inTauri w (debounce inTauri (app w) w1)"
| settle: "tasks w = xs @ t # ys \<Longrightarrow> resume t r (w\<lparr>tasks := xs @ ys\<rparr>) = Some w1
     \<Longrightarrow> app_step inTauri w (debounce inTauri (app w) w1)"
| event: "inTauri \<Longrightarrow> app_step inTauri w (debounce inTauri (app w) (deliver ev w))"
| fire: "timer w = Some c \<Longrightarrow> app_step inTauri w (debounce inTauri (app w) (search_timer_fires c w))"

inductive_cases app_stepE: "app_step inTauri w w'"

text \<open>
  \<open>src/main.tsx\<close> mounts the component in strict mode, or throws when the page has no root
  element. In a development build React then runs the effects of the first render, their
  cleanups and the effects again: the timer is cleared and armed again, and the configuration,
  whose effect has no cleanup, is read twice.
\<close>

definition first_world :: "bool \<Rightarrow> bool \<Rightarrow> runtime_env \<Rightarrow> world" where
  "first_world development inTauri e =
     (let w = initial_world inTauri e in if development \<and> inTauri then load_config w else w)"

definition render_root :: "bool \<Rightarrow> bool \<Rightarrow> bool \<Rightarrow> runtime_env \<Rightarrow> world result" where
  "render_root has_root development inTauri e =
     (if \<not> has_root then Inl (Rejected (js ''createRoot(...): Target container is not a DOM element.''))
      else Inr (first_world development inTauri e))"

definition app_begin :: "bool \<Rightarrow> world \<Rightarrow> bool" where
  "app_begin inTauri w \<longleftrightarrow> (\<exists>has_root development e. render_root has_root development inTauri e = Inr w)"

interpretation ui: transition_system "app_begin inTauri" "app_step inTauri" for inTauri .

text \<open>The command a suspended handler has sent; dialogs, listeners and the clipboard send none.\<close>

fun task_call :: "runtime_env \<Rightarrow> task \<Rightarrow> invocation option" where
  "task_call e TLoadConfig = Some (readConfig e)"
| "task_call e (TScanListen opts) = None"
| "task_call e (TScanRun opts) = Some (scanPathsProgress e opts)"
| "task_call e (TIndex files opts) = Some (buildInvertedIndex e files opts)"
| "task_call e (TPipeline rs es opts) = Some (scanAndIndexPipeline e rs es opts)"
| "task_call e (TSaveConfig cfg) = Some (writeConfig e cfg)"
| "task_call e TResetConfig = Some (resetConfig e)"
| "task_call e (TSearch req) = Some (searchQuery e req)"
| "task_call e TDiagnostics = Some (diagnosticsReport e)"
| "task_call e TPickRoots = None"
| "task_call e TPickIndexDir = None"
| "task_call e (TDetectListen opts) = None"
| "task_call e (TDetectScan opts) = Some (scanPathsProgress e opts)"
| "task_call e (TDetect paths) = Some (detectDuplicates e paths)"
| "task_call e (TDelete path dir) = Some (deleteFileAndIndex e path dir)"
| "task_call e TAutoScan = Some (startAutoScanNow e)"
| "task_call e (TOpenLocation path) = Some (openLocation e path)"
| "task_call e (TCopyPath path) = None"

section \<open>Running the handlers\<close>

lemmas handler_defs [app_simps] =
  put_def await_on_def load_config_done_def doSaveConfig_def doSaveConfig_done_def
  doResetConfig_def doResetConfig_done_def doScan_def scan_failed_def doScan_listening_def
  doScan_done_def doIndex_def doIndex_done_def doScanAndIndex_def doScanAndIndex_done_def
  doSearch_def doSearch_done_def clearQuery_def resetFilters_def runDiagnostics_def
  runDiagnostics_done_def auto_diagnostics_def pickRoots_def pickRoots_done_def pickIndexDir_def
  pickIndexDir_done_def detect_paths_def runDetect_def runDetect_listening_def
  runDetect_scanned_def runDetect_done_def handleDelete_def handleDelete_done_def
  search_timer_fires_def button_def navigate_def
  user_action_def page_controls_def Let_def

lemmas event_defs [app_simps] =
  deliver_def on_index_progress_def on_index_done_def on_scan_done_def on_auto_scan_start_def
  on_scan_progress_def

lemma apply_config_fields [simp]:
  "busy (apply_config cfg s) = busy s" "selected (apply_config cfg s) = selected s"
  "results (apply_config cfg s) = results s" "query (apply_config cfg s) = query s"
  "dupGroups (apply_config cfg s) = dupGroups s" "scanned (apply_config cfg s) = scanned s"
  "search_deps (apply_config cfg s) = search_deps s"
  by (simp_all add: apply_config_def Let_def search_deps_def split: option.split)

lemma debounce_fields [simp]:
  "app (debounce inTauri old w) = app w" "tasks (debounce inTauri old w) = tasks w"
  "scanListeners (debounce inTauri old w) = scanListeners w"
  by (simp_all add: debounce_def)

lemma app_begin_cases:
  assumes "app_begin inTauri w"
  shows "\<exists>e. w = initial_world inTauri e \<or> inTauri \<and> w = load_config (initial_world inTauri e)"
  using assms by (auto simp: app_begin_def render_root_def first_world_def Let_def split: if_splits)

end
