(* ===== verification/AppProps.thy ===== *)
theory AppProps
  imports AppModel
begin

text \<open>
  Invariants of the App component over every interleaving of user actions, backend answers,
  backend events and the debounce timer. The locale \<open>world_invariant\<close> collects what a
  predicate on worlds has to satisfy for each source of change; each invariant is an
  interpretation of it.
\<close>

locale world_invariant =
  fixes inTauri :: bool
    and I :: "world \<Rightarrow> bool"
  assumes initial: "I (initial_world inTauri e)"
    and remount: "inTauri \<Longrightarrow> I w \<Longrightarrow> I (load_config w)"
    and action: "I w \<Longrightarrow> user_action inTauri act w = Some w' \<Longrightarrow> I w'"
    and answer: "I w \<Longrightarrow> tasks w = xs @ t # ys \<Longrightarrow> resume t v (w\<lparr>tasks := xs @ ys\<rparr>) = Some w' \<Longrightarrow> I w'"
    and delivery: "inTauri \<Longrightarrow> I w \<Longrightarrow> I (deliver ev w)"
    and timeout: "I w \<Longrightarrow> timer w = Some c \<Longrightarrow> I (search_timer_fires c w)"
    and render: "I w \<Longrightarrow> I (debounce inTauri old w)"
begin

lemma step:
  assumes "app_step inTauri w w'" "I w"
  shows "I w'"
  using assms(1)
proof (cases rule: app_step.cases)
  case (user act w1)
  then show ?thesis using assms(2) by (auto intro: render action)
next
  case (settle xs t ys r w1)
  then show ?thesis using assms(2) by (auto intro: render answer)
next
  case (event ev)
  then show ?thesis using assms(2) by (metis render delivery)
next
  case (fire c)
  then show ?thesis using assms(2) by (auto intro: render timeout)
qed

lemma holds: "ui.reach inTauri w \<Longrightarrow> I w"
proof (rule ui.reach_invariant [of inTauri])
  fix w assume "app_begin inTauri w"
  from app_begin_cases [OF this] show "I w" using initial remount by blast
qed (rule step)

end

section \<open>The busy flag\<close>

text \<open>The handlers that set \<open>busy\<close> and clear it in their \<open>finally\<close>.\<close>

fun busy_task :: "task \<Rightarrow> bool" where
  "busy_task (TScanListen _) = True"
| "busy_task (TScanRun _) = True"
| "busy_task (TIndex _ _) = True"
| "busy_task (TPipeline _ _ _) = True"
| "busy_task (TSaveConfig _) = True"
| "busy_task TResetConfig = True"
| "busy_task (TSearch _) = True"
| "busy_task (TDetectListen _) = True"
| "busy_task (TDetectScan _) = True"
| "busy_task (TDetect _) = True"
| "busy_task (TDelete _ _) = True"
| "busy_task _ = False"

definition busy_ok :: "world \<Rightarrow> bool" where
  "busy_ok w \<longleftrightarrow> (busy (app w) \<longrightarrow> list_ex busy_task (tasks w))"

lemma busy_ok_user: "user_action inTauri act w = Some w' \<Longrightarrow> busy_ok w \<Longrightarrow> busy_ok w'"
  by (cases act) (auto simp: busy_ok_def app_simps split: PageKey.splits if_splits option.splits)

lemma busy_ok_resume:
  "resume t v (w\<lparr>tasks := xs @ ys\<rparr>) = Some w' \<Longrightarrow> tasks w = xs @ t # ys \<Longrightarrow> busy_ok w \<Longrightarrow> busy_ok w'"
  by (cases t; cases v) (auto simp: busy_ok_def app_simps split: sum.splits selection.splits)

lemma busy_ok_rest:
  "busy_ok (initial_world inTauri e)" "busy_ok w \<Longrightarrow> busy_ok (load_config w)" "busy_ok w \<Longrightarrow> busy_ok (deliver ev w)"
  "busy_ok w \<Longrightarrow> busy_ok (search_timer_fires c w)" "busy_ok w \<Longrightarrow> busy_ok (debounce inTauri old w)"
  by (auto simp: busy_ok_def initial_world_def initial_state_def load_config_def app_simps split: backend_event.splits option.splits)

interpretation busy: world_invariant inTauri busy_ok for inTauri
  by unfold_locales (blast intro: busy_ok_rest busy_ok_user busy_ok_resume)+

section \<open>The selected result\<close>

definition selection_ok :: "world \<Rightarrow> bool" where
  "selection_ok w \<longleftrightarrow> (\<forall>r. selected (app w) = Some r \<longrightarrow> r \<in> set (results (app w)))"

lemma selection_ok_user: "user_action inTauri act w = Some w' \<Longrightarrow> selection_ok w \<Longrightarrow> selection_ok w'"
  by (cases act) (auto simp: selection_ok_def sortedResults_def app_simps split: PageKey.splits if_splits option.splits)

lemma selection_ok_resume:
  "resume t v (w\<lparr>tasks := ts\<rparr>) = Some w' \<Longrightarrow> selection_ok w \<Longrightarrow> selection_ok w'"
  by (cases t; cases v)
    (auto simp: selection_ok_def app_simps split: sum.splits selection.splits list.splits)

lemma selection_ok_rest:
  "selection_ok (initial_world inTauri e)" "selection_ok w \<Longrightarrow> selection_ok (load_config w)" "selection_ok w \<Longrightarrow> selection_ok (deliver ev w)"
  "selection_ok w \<Longrightarrow> selection_ok (search_timer_fires c w)" "selection_ok w \<Longrightarrow> selection_ok (debounce inTauri old w)"
  by (auto simp: selection_ok_def initial_world_def initial_state_def load_config_def app_simps split: backend_event.splits option.splits)

interpretation sel: world_invariant inTauri selection_ok for inTauri
  by unfold_locales (blast intro: selection_ok_rest selection_ok_user selection_ok_resume)+

section \<open>Listeners of scans\<close>

fun scan_task :: "task \<Rightarrow> bool" where
  "scan_task (TScanRun _) = True"
| "scan_task (TDetectScan _) = True"
| "scan_task _ = False"

text \<open>Every scan that runs has a listener registered for its progress.\<close>

definition listeners_ok :: "world \<Rightarrow> bool" where
  "listeners_ok w \<longleftrightarrow> length (filter scan_task (tasks w)) \<le> scanListeners w"

lemma listeners_ok_user: "user_action inTauri act w = Some w' \<Longrightarrow> listeners_ok w \<Longrightarrow> listeners_ok w'"
  by (cases act) (auto simp: listeners_ok_def app_simps split: PageKey.splits if_splits option.splits)

lemma listeners_ok_resume:
  "resume t v (w\<lparr>tasks := xs @ ys\<rparr>) = Some w' \<Longrightarrow> tasks w = xs @ t # ys
     \<Longrightarrow> listeners_ok w \<Longrightarrow> listeners_ok w'"
  by (cases t; cases v) (auto simp: listeners_ok_def app_simps split: sum.splits selection.splits)

lemma listeners_ok_rest:
  "listeners_ok (initial_world inTauri e)" "listeners_ok w \<Longrightarrow> listeners_ok (load_config w)" "listeners_ok w \<Longrightarrow> listeners_ok (deliver ev w)"
  "listeners_ok w \<Longrightarrow> listeners_ok (search_timer_fires c w)" "listeners_ok w \<Longrightarrow> listeners_ok (debounce inTauri old w)"
  by (auto simp: listeners_ok_def initial_world_def initial_state_def load_config_def app_simps split: backend_event.splits option.splits)

interpretation lis: world_invariant inTauri listeners_ok for inTauri
  by unfold_locales (blast intro: listeners_ok_rest listeners_ok_user listeners_ok_resume)+

section \<open>What is sent to the backend\<close>

text \<open>Roots and patterns that were parsed from the text fields.\<close>

fun clean_task :: "task \<Rightarrow> bool" where
  "clean_task (TScanListen o1) \<longleftrightarrow> list_all csv_item (so_roots o1) \<and> list_all csv_item (so_exclude_patterns o1)"
| "clean_task (TScanRun o1) \<longleftrightarrow> list_all csv_item (so_roots o1) \<and> list_all csv_item (so_exclude_patterns o1)"
| "clean_task (TDetectListen o1) \<longleftrightarrow> list_all csv_item (so_roots o1) \<and> list_all csv_item (so_exclude_patterns o1)"
| "clean_task (TDetectScan o1) \<longleftrightarrow> list_all csv_item (so_roots o1) \<and> list_all csv_item (so_exclude_patterns o1)"
| "clean_task (TPipeline rs es _) \<longleftrightarrow> list_all csv_item rs \<and> list_all csv_item es"
| "clean_task (TSaveConfig c) \<longleftrightarrow> list_all csv_item (scan_roots c) \<and> list_all csv_item (exclude_patterns c)"
| "clean_task (TSearch req) \<longleftrightarrow>
     (\<forall>f. rq_filters req = Some f \<longrightarrow> (\<forall>xs. sf_ext f = Some xs \<longrightarrow> xs \<noteq> [] \<and> list_all csv_item xs))"
| "clean_task _ \<longleftrightarrow> True"

lemma clean_search_request: "clean_task (TSearch (search_request s))"
  by (auto simp: search_request_def search_filters_def Let_def csv.decode_items split: if_splits)

lemmas form_defs = form_scan_opts_def form_index_opts_def form_config_def

definition clean_ok :: "world \<Rightarrow> bool" where
  "clean_ok w \<longleftrightarrow> list_all clean_task (tasks w)"

lemma clean_ok_user: "user_action inTauri act w = Some w' \<Longrightarrow> clean_ok w \<Longrightarrow> clean_ok w'"
  by (cases act) (auto simp: clean_ok_def app_simps form_defs csv.decode_items clean_search_request
      simp del: clean_task.simps(7) split: PageKey.splits if_splits option.splits)

lemma clean_ok_resume:
  "resume t v (w\<lparr>tasks := xs @ ys\<rparr>) = Some w' \<Longrightarrow> tasks w = xs @ t # ys \<Longrightarrow> clean_ok w \<Longrightarrow> clean_ok w'"
  by (cases t; cases v) (auto simp: clean_ok_def app_simps split: sum.splits selection.splits)

lemma clean_ok_rest:
  "clean_ok (initial_world inTauri e)" "clean_ok w \<Longrightarrow> clean_ok (load_config w)" "clean_ok w \<Longrightarrow> clean_ok (deliver ev w)"
  "clean_ok w \<Longrightarrow> clean_ok (search_timer_fires c w)" "clean_ok w \<Longrightarrow> clean_ok (debounce inTauri old w)"
  by (auto simp: clean_ok_def initial_world_def load_config_def app_simps clean_search_request
      simp del: clean_task.simps(7) split: backend_event.splits option.splits)

interpretation cln: world_invariant inTauri clean_ok for inTauri
  by unfold_locales (blast intro: clean_ok_rest clean_ok_user clean_ok_resume)+

section \<open>Browser preview\<close>

definition browser_ok :: "world \<Rightarrow> bool" where
  "browser_ok w \<longleftrightarrow> tasks w = [] \<and> timer w = None \<and> results (app w) = [] \<and> selected (app w) = None
     \<and> dupGroups (app w) = []"

lemma browser_ok_user: "user_action False act w = Some w' \<Longrightarrow> browser_ok w \<Longrightarrow> browser_ok w'"
  by (cases act) (auto simp: browser_ok_def filteredGroups_def sortedResults_def listed_def app_simps
      split: PageKey.splits if_splits)

interpretation brw: world_invariant False browser_ok
  by unfold_locales (auto simp: browser_ok_def initial_world_def initial_state_def arm_timer_def
      debounce_def put_def dest!: browser_ok_user [unfolded browser_ok_def])

end
