(* ===== verification/AppTheorems.thy ===== *)
theory AppTheorems
  imports AppProps
begin

text \<open>
  The properties of the App component: the invariants of every interleaving, what single
  handlers promise, and the runs in which the component shows a wrong or stale state.
\<close>

section \<open>Runs as lists of labels\<close>

text \<open>One step with its cause written out; an answer names the position of its task.\<close>

datatype label = LUser action | LAnswer nat response | LEvent backend_event | LTimer

fun exec :: "bool \<Rightarrow> label \<Rightarrow> world \<Rightarrow> world option" where
  "exec inTauri (LUser act) w = map_option (debounce inTauri (app w)) (user_action inTauri act w)"
| "exec inTauri (LAnswer i v) w =
     (case drop i (tasks w) of [] \<Rightarrow> None
      | t # ys \<Rightarrow> map_option (debounce inTauri (app w)) (resume t v (w\<lparr>tasks := take i (tasks w) @ ys\<rparr>)))"
| "exec inTauri (LEvent ev) w = (if inTauri then Some (debounce inTauri (app w) (deliver ev w)) else None)"
| "exec inTauri LTimer w =
     map_option (\<lambda>c. debounce inTauri (app w) (search_timer_fires c w)) (timer w)"

fun exec_all :: "bool \<Rightarrow> label list \<Rightarrow> world \<Rightarrow> world option" where
  "exec_all inTauri [] w = Some w"
| "exec_all inTauri (l # ls) w = (case exec inTauri l w of None \<Rightarrow> None | Some w1 \<Rightarrow> exec_all inTauri ls w1)"

text \<open>A build without any environment variable.\<close>

definition bare_env :: runtime_env where
  "bare_env = \<lparr>meta_env = (\<lambda>_. None), global_env = (\<lambda>_. None)\<rparr>"

lemma exec_step:
  assumes "exec inTauri l w = Some w'"
  shows "app_step inTauri w w'"
proof (cases l)
  case (LAnswer i v)
  with assms obtain t ys w1 where d: "drop i (tasks w) = t # ys"
    "resume t v (w\<lparr>tasks := take i (tasks w) @ ys\<rparr>) = Some w1" "w' = debounce inTauri (app w) w1"
    by (auto split: list.splits)
  have "tasks w = take i (tasks w) @ t # ys" using d(1) append_take_drop_id [of i "tasks w"] by simp
  from app_step.settle [OF this d(2)] d(3) show ?thesis by simp
qed (use assms in \<open>auto intro: app_step.intros split: if_splits\<close>)

lemma exec_all_reach: "exec_all inTauri ls w = Some w' \<Longrightarrow> ui.reach inTauri w \<Longrightarrow> ui.reach inTauri w'"
proof (induction ls arbitrary: w)
  case (Cons l ls)
  then obtain w1 where w1: "exec inTauri l w = Some w1" "exec_all inTauri ls w1 = Some w'"
    by (auto split: option.splits)
  from ui.reach_step [OF Cons.prems(2) exec_step [OF w1(1)]] show ?case by (rule Cons.IH [OF w1(2)])
qed simp

lemma initial_reach: "ui.reach inTauri (initial_world inTauri e)"
  by (rule ui.reach_start) (auto simp: app_begin_def render_root_def first_world_def Let_def intro: exI [of _ False] exI [of _ True])

lemmas run_simps = app_simps debounce_def search_deps_def arm_timer_def initial_world_def
  initial_state_def load_config_def

section \<open>Failed scans\<close>

lemma failed_scans_leak:
  "\<exists>w. ui.reach True w \<and> page (app w) = PDup \<and> \<not> busy (app w) \<and> scanned (app w) = [] \<and> tasks w = []
     \<and> scanListeners w = k"
proof (induction k)
  case 0
  obtain w where w: "exec_all True [LUser (Navigate PDup), LAnswer 0 (RConfig (Inl Undefined))]
      (initial_world True bare_env) = Some w"
    "page (app w) = PDup" "\<not> busy (app w)" "scanned (app w) = []" "tasks w = []" "scanListeners w = 0"
    by (simp add: run_simps)
  from exec_all_reach [OF w(1) initial_reach] w show ?case by blast
next
  case (Suc k)
  then obtain w where w: "ui.reach True w" "page (app w) = PDup" "\<not> busy (app w)"
    "scanned (app w) = []" "tasks w = []" "scanListeners w = k" by blast
  obtain w' where w': "exec_all True [LUser ClickDetect, LAnswer 0 (RUnit (Inr ())),
      LAnswer 0 (RFiles (Inl Undefined))] w = Some w'"
    "page (app w') = PDup" "\<not> busy (app w')" "scanned (app w') = []" "tasks w' = []"
    "scanListeners w' = Suc k"
    using w by (simp add: app_simps debounce_def search_deps_def)
  from exec_all_reach [OF w'(1) w(1)] w' show ?case by blast
qed

section \<open>Hooks\<close>

datatype hook_call = UseMemo | UseState | UseRef | UseEffect

text \<open>The hooks a render of App calls, in order, custom hooks expanded.\<close>

definition app_hooks :: "PageKey \<Rightarrow> hook_call list" where
  "app_hooks p =
     UseMemo # replicate 14 UseState @ [UseRef] @ replicate 18 UseState @ replicate 7 UseRef
     @ [UseEffect, UseEffect] \<comment> \<open>scrolling of the view and sort tabs\<close>
     @ [UseEffect] \<comment> \<open>message of the browser preview\<close>
     @ [UseEffect] \<comment> \<open>\<open>useGlobalErrorLogging\<close>\<close>
     @ [UseEffect] \<comment> \<open>\<open>useTauriEvents\<close>\<close>
     @ [UseEffect, UseEffect] \<comment> \<open>configuration, theme\<close>
     @ [UseState, UseEffect, UseEffect] \<comment> \<open>\<open>useFocusDebug\<close>\<close>
     @ [UseEffect] \<comment> \<open>debounced search\<close>
     @ [UseMemo] \<comment> \<open>\<open>sortedResults\<close>\<close>
     @ (if p = PIndex then [UseEffect] else [])"

fun stable_hooks :: "PageKey list \<Rightarrow> bool" where
  "stable_hooks (p # q # ps) \<longleftrightarrow> app_hooks p = app_hooks q \<and> stable_hooks (q # ps)"
| "stable_hooks _ \<longleftrightarrow> True"

section \<open>Numbers of the progress bar\<close>

lemma to_double_nonneg:
  assumes "0 \<le> x"
  shows "(\<exists>y. to_double x = Fin y \<and> 0 \<le> y) \<or> to_double x = PInf"
proof (cases "x = 0")
  case False
  have "0 \<le> x / quantum x" using assms by (simp add: quantum_pos [THEN less_imp_le])
  then have "0 \<le> round_even (x / quantum x)" by (auto simp: round_even_def Let_def)
  then show ?thesis using assms False by (auto simp: to_double_def Let_def)
qed (simp add: to_double_def)

section \<open>The size fields\<close>

lemma digit_not_ws: "is_digit c \<Longrightarrow> \<not> is_ws c"
  by (auto simp: is_digit_def is_ws_def)

lemma js_Number_digits:
  assumes "list_all is_digit s" "s \<noteq> []"
  shows "js_Number s = to_double (of_int (digits_value s))" "js_trim s = s"
proof -
  have "clean s" using assms by (cases s) (auto simp: clean_def digit_not_ws list_all_iff)
  then show t: "js_trim s = s" by (rule js_trim_clean)
  obtain c r where s: "s = c # r" using assms(2) by (cases s) auto
  have "radix_prefix s = None" using assms(1)
    by (auto simp: radix_prefix_def is_digit_def split: list.split)
  moreover have "c \<noteq> 73" "c \<noteq> 45" "c \<noteq> 43" using assms(1) s by (auto simp: is_digit_def)
  ultimately show "js_Number s = to_double (of_int (digits_value s))"
    using s t decimal_value_int [OF assms] by (simp add: js_Number_def unsigned_value_def)
qed

lemma digits_value_nonneg: "list_all is_digit s \<Longrightarrow> 0 \<le> digits_value s"
  by (induction s rule: rev_induct) (auto simp: digits_value_snoc is_digit_def digits_value_def)

text \<open>
  C8. In every reachable state the busy flag is only up while a handler that will take it
  down is still waiting for the backend; when nothing is pending the buttons are enabled.
\<close>

theorem app_busy_has_cause: "ui.reach inTauri w \<Longrightarrow> busy (app w) \<Longrightarrow> list_ex busy_task (tasks w)"
  using busy.holds by (simp add: busy_ok_def)

theorem app_busy_has_cause_witness:
  "list_ex busy_task (tasks (doSearch (initial_state bare_env) (initial_world True bare_env)))"
proof -
  let ?w = "doSearch (initial_state bare_env) (initial_world True bare_env)"
  have "exec_all True [LUser PressEnter] (initial_world True bare_env) = Some ?w"
    by (simp add: run_simps)
  from exec_all_reach [OF this initial_reach] show ?thesis
    by (rule app_busy_has_cause) (simp add: run_simps)
qed

text \<open>
  The flag does not keep two long operations apart: a search started by the debounce
  timer clears it while an indexing run is pending, and a second run of the whole scan and
  index pipeline can then be started next to the first.
\<close>

theorem app_pipelines_overlap:
  "\<exists>w o1. ui.reach True w \<and> length (filter (\<lambda>t. t = o1) (tasks w)) = 2
     \<and> (\<exists>rs es opts. o1 = TPipeline rs es opts)"
proof -
  let ?run = "[LUser (Navigate PIndex), LUser ClickScanAndIndex, LUser (Navigate PSearch),
    LUser (TypeQuery (js ''a'')), LTimer, LAnswer 3 (RResults (Inr [])), LUser (Navigate PIndex),
    LUser ClickScanAndIndex]"
  have a: "js_trim (js ''a'') = js ''a''" by code_simp
  obtain w where "exec_all True ?run (initial_world True bare_env) = Some w"
    "length (filter (\<lambda>t. t = TPipeline (parseCSV (js ''D:/'')) (parseCSV default_exclude)
      (form_index_opts (initial_state bare_env))) (tasks w)) = 2"
    using a by (simp add: run_simps form_index_opts_def)
  with exec_all_reach [OF _ initial_reach] show ?thesis by blast
qed

text \<open>
  C7. The detail pane never shows a result that is not in the list: whatever is typed,
  clicked, answered or retried, a selected result is one of the current results.
\<close>

theorem app_selection_in_results:
  "ui.reach inTauri w \<Longrightarrow> selected (app w) = Some r \<Longrightarrow> r \<in> set (results (app w))"
  using sel.holds by (simp add: selection_ok_def)

theorem app_selection_in_results_witness:
  "\<exists>w. ui.reach True w \<and> selected (app w) = Some (sample_result (js ''b'') 3)
     \<and> sample_result (js ''b'') 3 \<in> set (results (app w))"
proof -
  obtain w where w: "exec_all True [LUser PressEnter, LAnswer 1 (RResults (Inr [sample_result (js ''b'') 3]))]
      (initial_world True bare_env) = Some w" "selected (app w) = Some (sample_result (js ''b'') 3)"
    by (simp add: run_simps)
  from exec_all_reach [OF w(1) initial_reach] w(2) app_selection_in_results show ?thesis by blast
qed

text \<open>
  In the browser preview, where there is no backend, no handler ever starts a backend
  call, a dialog or a timer, and nothing is listed, in any sequence of user actions.
\<close>

theorem app_browser_inert:
  "ui.reach False w \<Longrightarrow> tasks w = [] \<and> timer w = None \<and> results (app w) = [] \<and> dupGroups (app w) = []"
  using brw.holds by (simp add: browser_ok_def)

theorem app_browser_inert_witness: "tasks (initial_world False bare_env) = []"
  using app_browser_inert [OF initial_reach] by blast

text \<open>
  C28. What is sent to the backend is clean: in every reachable state the roots, the exclude
  patterns and the extension list of each pending scan, pipeline, save and search are
  non-empty strings without surrounding white space and without commas, and an extension
  filter is sent only if it has an entry.
\<close>

theorem app_requests_clean: "ui.reach inTauri w \<Longrightarrow> t \<in> set (tasks w) \<Longrightarrow> clean_task t"
  using cln.holds by (simp add: clean_ok_def list_all_iff)

theorem app_requests_clean_witness: "clean_task (TSearch (search_request (initial_state bare_env)))"
proof -
  obtain w where w: "exec_all True [LUser PressEnter] (initial_world True bare_env) = Some w"
    "TSearch (search_request (initial_state bare_env)) \<in> set (tasks w)"
    by (simp add: run_simps)
  from app_requests_clean [OF exec_all_reach [OF w(1) initial_reach] w(2)] show ?thesis .
qed

text \<open>
  Every running scan has a listener for its progress events, but a scan that fails does
  not release it: after any number \<open>k\<close> of failed duplicate scans \<open>k\<close> listeners are
  registered while nothing is running.
\<close>

theorem app_scan_listeners:
  "(\<forall>inTauri w. ui.reach inTauri w \<longrightarrow> length (filter scan_task (tasks w)) \<le> scanListeners w)
   \<and> (\<forall>k. \<exists>w. ui.reach True w \<and> tasks w = [] \<and> scanListeners w = k)"
  using lis.holds failed_scans_leak by (auto simp: listeners_ok_def) blast

theorem app_scan_listeners_witness:
  "length (filter scan_task (tasks (initial_world True bare_env)))
     \<le> scanListeners (initial_world True bare_env)"
  using app_scan_listeners initial_reach by blast

text \<open>
  C40. Answers that arrive out of order leave a stale list: two queries typed one after the
  other are both searched; if the answer to the first arrives last, the program comes to
  rest with the second query in the input and the results of the first in the list, and no
  timer or handler is left that would correct it.
\<close>

theorem app_stale_results:
  assumes "js_trim q1 \<noteq> []" "js_trim q2 \<noteq> []" "q1 \<noteq> q2"
  shows "\<exists>w0 w req1 req2. ui.reach True w0 \<and> tasks w0 = [TSearch req1, TSearch req2]
    \<and> rq_query req1 = q1 \<and> rq_query req2 = q2
    \<and> exec_all True [LAnswer 1 (RResults (Inr r2)), LAnswer 0 (RResults (Inr r1))] w0 = Some w
    \<and> query (app w) = q2 \<and> results (app w) = r1 \<and> tasks w = [] \<and> timer w = None \<and> \<not> busy (app w)"
proof -
  have ne: "q1 \<noteq> []" using assms(1) by (auto simp: js_trim_def)
  obtain w0 req1 req2 where w0: "exec_all True [LAnswer 0 (RConfig (Inl Undefined)), LUser (TypeQuery q1),
      LTimer, LUser (TypeQuery q2), LTimer] (initial_world True bare_env) = Some w0"
    "tasks w0 = [TSearch req1, TSearch req2]" "rq_query req1 = q1" "rq_query req2 = q2"
    "query (app w0) = q2" "timer w0 = None" "page (app w0) = PSearch"
    using assms ne by (simp add: run_simps search_request_def)
  have reach: "ui.reach True w0" using w0(1) initial_reach by (rule exec_all_reach)
  obtain w where "exec_all True [LAnswer 1 (RResults (Inr r2)), LAnswer 0 (RResults (Inr r1))] w0 = Some w"
    "query (app w) = q2" "results (app w) = r1" "tasks w = []" "timer w = None" "\<not> busy (app w)"
    using w0(2-) by (simp add: app_simps debounce_def search_deps_def)
  with reach w0(2-4) show ?thesis by blast
qed

theorem app_stale_results_witness:
  "\<exists>w0 w. ui.reach True w0 \<and> exec_all True [LAnswer 1 (RResults (Inr [])),
      LAnswer 0 (RResults (Inr [sample_result (js ''b'') 3]))] w0 = Some w
    \<and> query (app w) = js ''new'' \<and> results (app w) = [sample_result (js ''b'') 3]"
proof -
  have "js_trim (js ''old'') \<noteq> []" "js_trim (js ''new'') \<noteq> []" "js ''old'' \<noteq> js ''new''"
    by code_simp+
  from app_stale_results [OF this, of "[]" "[sample_result (js ''b'') 3]"] show ?thesis by blast
qed

text \<open>
  Saving and loading agree: the configuration the form writes, loaded again into any
  state, gives a form that writes the same configuration and scans with the same options,
  provided the index directory is not empty and the path length is a finite number.
\<close>

theorem config_round_trip:
  assumes "indexDir s \<noteq> []" "is_finite (pathMaxLen s)"
  shows "form_config (apply_config (form_config s) t) = form_config s
    \<and> form_scan_opts (apply_config (form_config s) t) = form_scan_opts s"
  using assms by (simp add: form_config_def form_scan_opts_def apply_config_def Let_def csv.decode_stable)

theorem config_round_trip_witness:
  "form_config (apply_config (form_config (initial_state bare_env))
      ((initial_state bare_env)\<lparr>roots := js ''E:/x , ,F:/''\<rparr>))
   = form_config (initial_state bare_env)"
proof -
  have "PATH_MAX_LEN bare_env = Fin 80"
    by (simp add: PATH_MAX_LEN_def env_number_def env_lookup_def bare_env_def js_Number_opt_def)
  then show ?thesis
    using config_round_trip [of "initial_state bare_env" "(initial_state bare_env)\<lparr>roots := js ''E:/x , ,F:/''\<rparr>"]
    by (simp add: initial_state_def default_index_dir_def)
qed

text \<open>
  The search filters follow the form: no filter object is sent exactly when the
  extension field has no entry and both size fields are blank or not a number; a size field
  that holds a decimal integer of up to \<open>2 ^ 33\<close> megabytes becomes that number of bytes,
  without rounding.
\<close>

theorem search_filters_follow_form:
  "(search_filters s = None \<longleftrightarrow> parseCSV (extFilter s) = []
      \<and> (\<forall>x\<in>{minSize s, maxSize s}. js_trim x = [] \<or> js_Number x = NaN))
   \<and> (list_all is_digit x \<and> x \<noteq> [] \<and> digits_value x \<le> 2 ^ 33
        \<longrightarrow> size_bound x = Some (Fin (of_int (digits_value x * 2 ^ 20))))"
proof -
  have bound: "size_bound y = None \<longleftrightarrow> js_trim y = [] \<or> js_Number y = NaN" for y
    by (auto simp: size_bound_def Let_def)
  have "search_filters s = None
      \<longleftrightarrow> parseCSV (extFilter s) = [] \<and> size_bound (minSize s) = None \<and> size_bound (maxSize s) = None"
    by (simp add: search_filters_def Let_def)
  then have none: "search_filters s = None \<longleftrightarrow> parseCSV (extFilter s) = []
      \<and> (\<forall>x\<in>{minSize s, maxSize s}. js_trim x = [] \<or> js_Number x = NaN)"
    unfolding bound by blast
  have "size_bound x = Some (Fin (of_int (digits_value x * 2 ^ 20)))"
    if x: "list_all is_digit x" "x \<noteq> []" "digits_value x \<le> 2 ^ 33"
  proof -
    let ?n = "digits_value x"
    have n: "0 \<le> ?n" using x(1) by (rule digits_value_nonneg)
    have "js_Number x = Fin (of_int ?n)" "js_trim x = x"
      using js_Number_digits [OF x(1,2)] to_double_int [of ?n] n x(3) by simp_all
    moreover have "toBytesMb (Fin (of_int ?n)) = Fin (of_int (?n * 2 ^ 20))"
      using js_mul_int [of ?n 1024] js_mul_int [of "?n * 1024" 1024] n x(3)
      by (simp add: toBytesMb_def floor_eq_iff)
    ultimately show ?thesis using x(2) by (simp add: size_bound_def)
  qed
  with none show ?thesis by blast
qed

theorem search_filters_follow_form_witness:
  "size_bound (js ''12'') = Some (Fin 12582912)
   \<and> js_trim [] = [] \<and> search_filters (initial_state bare_env) = None"
proof -
  have "list_all is_digit (js ''12'')" "js ''12'' \<noteq> []" "digits_value (js ''12'') = 12" "js_trim [] = []"
    "parseCSV [] = []" by code_simp+
  then show ?thesis
    using search_filters_follow_form [of "initial_state bare_env" "js ''12''"]
    by (simp add: initial_state_def)
qed

text \<open>
  Deleting a file updates the groups exactly: after a successful deletion each group is
  an old group of the same kind and key without the path, every group still has two files, a
  group with two other files stays, and a failed deletion changes no group. Either way the
  busy flag is down.
\<close>

theorem delete_updates_groups:
  "(\<forall>g\<in>set (dupGroups (app (handleDelete_done path (Inr ()) w))).
      path \<notin> set (dg_files g) \<and> 2 \<le> length (dg_files g)
      \<and> (\<exists>h\<in>set (dupGroups (app w)). g = h\<lparr>dg_files := removeAll path (dg_files h)\<rparr>))
   \<and> (\<forall>h\<in>set (dupGroups (app w)). 2 \<le> length (removeAll path (dg_files h))
        \<longrightarrow> h\<lparr>dg_files := removeAll path (dg_files h)\<rparr>
              \<in> set (dupGroups (app (handleDelete_done path (Inr ()) w))))
   \<and> dupGroups (app (handleDelete_done path (Inl e) w)) = dupGroups (app w)
   \<and> \<not> busy (app (handleDelete_done path r w))"
proof -
  have rem: "filter (\<lambda>p. p \<noteq> path) xs = removeAll path xs" for xs :: "js_string list"
    by (induction xs) auto
  have ok: "dupGroups (app (handleDelete_done path (Inr ()) w)) = remove_path path (dupGroups (app w))"
    by (simp add: handleDelete_done_def put_def)
  have "\<not> busy (app (handleDelete_done path r w))"
    by (simp add: handleDelete_done_def put_def split: sum.split)
  moreover have "dupGroups (app (handleDelete_done path (Inl e) w)) = dupGroups (app w)"
    by (simp add: handleDelete_done_def put_def)
  ultimately show ?thesis unfolding ok remove_path_def rem by force
qed

theorem delete_updates_groups_witness:
  "let w = put ((initial_state bare_env)\<lparr>dupGroups :=
         [\<lparr>dg_kind = KHash, dg_key = [], dg_files = [js ''a'', js ''b'', js ''c'']\<rparr>]\<rparr>) (initial_world True bare_env)
   in \<lparr>dg_kind = KHash, dg_key = [], dg_files = [js ''a'', js ''c'']\<rparr>
        \<in> set (dupGroups (app (handleDelete_done (js ''b'') (Inr ()) w)))"
proof -
  let ?h = "\<lparr>dg_kind = KHash, dg_key = [], dg_files = [js ''a'', js ''b'', js ''c'']\<rparr>"
  let ?w = "put ((initial_state bare_env)\<lparr>dupGroups := [?h]\<rparr>) (initial_world True bare_env)"
  have "?h \<in> set (dupGroups (app ?w))" by (simp add: put_def)
  then have "?h\<lparr>dg_files := removeAll (js ''b'') (dg_files ?h)\<rparr>
      \<in> set (dupGroups (app (handleDelete_done (js ''b'') (Inr ()) ?w)))"
    using delete_updates_groups [where w = ?w and path = "js ''b''"] by force
  then show ?thesis by simp
qed

text \<open>
  The progress bar stays a bar: for any finite counts with a non-negative number of
  files done, also when they disagree, its width lies between 0 and 100 percent; nothing done
  is 0, and everything done is 100.
\<close>

theorem progress_percent_range:
  assumes "0 \<le> c"
  shows "(\<exists>p. progress_percent (Fin c) (Fin t) = Fin p \<and> 0 \<le> p \<and> p \<le> 100)
    \<and> progress_percent (Fin 0) (Fin t) = Fin 0
    \<and> (1 \<le> t \<longrightarrow> progress_percent (Fin t) (Fin t) = Fin 100)"
proof -
  have m: "math_max (Fin 1) (Fin t) = Fin (max 1 t)" by (auto simp: math_max_def)
  have nz: "max 1 t \<noteq> 0" by (simp add: max_def)
  have "\<exists>p. progress_percent (Fin c) (Fin t) = Fin p \<and> 0 \<le> p \<and> p \<le> 100"
  proof -
    have d: "0 \<le> c / max 1 t" using assms by simp
    consider y where "to_double (c / max 1 t) = Fin y" "0 \<le> y" | "to_double (c / max 1 t) = PInf"
      using to_double_nonneg [OF d] by blast
    then have "(\<exists>y. js_mul (js_div (Fin c) (Fin (max 1 t))) (Fin 100) = Fin y \<and> 0 \<le> y)
        \<or> js_mul (js_div (Fin c) (Fin (max 1 t))) (Fin 100) = PInf"
    proof cases
      case (1 y)
      then show ?thesis using nz to_double_nonneg [of "y * 100"] by simp
    qed (simp add: nz js_inf_def)
    then show ?thesis
      unfolding progress_percent_def m by (auto simp: math_min_def)
  qed
  moreover have "progress_percent (Fin 0) (Fin t) = Fin 0"
    unfolding progress_percent_def m using nz by (simp add: to_double_def math_min_def floor_eq_iff)
  moreover have "progress_percent (Fin t) (Fin t) = Fin 100" if "1 \<le> t"
    using that to_double_int [of 1] to_double_int [of 100]
    unfolding progress_percent_def m by (simp add: max_def math_min_def floor_eq_iff)
  ultimately show ?thesis by blast
qed

theorem progress_percent_range_witness:
  "\<exists>p. progress_percent (Fin 7) (Fin 3) = Fin p \<and> 0 \<le> p \<and> p \<le> 100"
  using progress_percent_range [of 7 3] by simp

section \<open>The order of the hooks\<close>

text \<open>
  React identifies the hooks of a component by the order of their calls, and its rules ask
  for the same calls at every render. \<open>renderContent\<close> does not mount the index page as a
  component but calls the function \<open>IndexPage\<close>, whose effect thereby becomes a hook of
  App on that page only.
\<close>

text \<open>
  A session keeps the rule of hooks exactly when it never enters or leaves the index
  page: starting on the search page, the first visit of the index page breaks it.
\<close>

theorem app_hook_order:
  "stable_hooks (p # ps) \<longleftrightarrow> (if p = PIndex then list_all (\<lambda>q. q = PIndex) ps else PIndex \<notin> set ps)"
proof (induction ps arbitrary: p)
  case (Cons q ps)
  have "app_hooks p = app_hooks q \<longleftrightarrow> (p = PIndex \<longleftrightarrow> q = PIndex)"
    by (simp add: app_hooks_def)
  with Cons show ?case by auto
qed simp

end
