(* ===== verification/Views.thy ===== *)
theory Views
  imports AppModel PathUtil DateUtil Highlight
begin

text \<open>
  What the pages of \<open>src/App.tsx\<close> show: the rows of the result table, the cards, the detail
  pane, the cards of the duplicate groups and the diagnostics card, as functions of the
  state. A cell that a helper computes may throw, so a row is a \<open>result\<close>. The parameters of
  the helpers (case tables, pattern compiler, clock and locale) are one record.
\<close>

record display_env =
  de_canon :: "js_char \<Rightarrow> js_char"
  de_lower :: "js_string \<Rightarrow> js_string"
  de_compile :: "js_string \<Rightarrow> js_string \<Rightarrow> matcher option"
  de_locale :: "js_number \<Rightarrow> js_string"
  de_now :: js_number

section \<open>Results that may throw\<close>

definition bind_result :: "'a result \<Rightarrow> ('a \<Rightarrow> 'b result) \<Rightarrow> 'b result" where
  "bind_result r f = (case r of Inl e \<Rightarrow> Inl e | Inr v \<Rightarrow> f v)"

fun map_result :: "('a \<Rightarrow> 'b result) \<Rightarrow> 'a list \<Rightarrow> 'b list result" where
  "map_result f [] = Inr []"
| "map_result f (x # xs) = bind_result (f x) (\<lambda>y. bind_result (map_result f xs) (\<lambda>ys. Inr (y # ys)))"

lemma bind_result_Inr [simp]: "bind_result (Inr v) f = f v"
  by (simp add: bind_result_def)

lemma map_result_Inr:
  "(\<And>x. x \<in> set xs \<Longrightarrow> f x = Inr (g x)) \<Longrightarrow> map_result f xs = Inr (map g xs)"
  by (induction xs) auto

section \<open>Search page\<close>

definition mark :: "display_env \<Rightarrow> js_string \<Rightarrow> js_string \<Rightarrow> rendered result" where
  "mark d t q = highlight (de_canon d) (de_lower d) (de_compile d) t q"

definition size_cell :: "js_number option \<Rightarrow> js_string result" where
  "size_cell bytes = (case bytes of None \<Rightarrow> Inr (js ''-'') | Some n \<Rightarrow> formatBytes n None)"

definition time_cell :: "display_env \<Rightarrow> bool \<Rightarrow> js_number option \<Rightarrow> js_string" where
  "time_cell d relative ts =
     (if relative then formatRelativeTs (de_locale d) (de_now d) ts else formatTs (de_locale d) ts)"

record result_row =
  rr_selected :: bool
  rr_name :: rendered
  rr_summary :: "rendered option"
  rr_title :: js_string
  rr_path :: js_string
  rr_ext :: js_string
  rr_score :: js_string
  rr_size :: js_string
  rr_time :: js_string

text \<open>\<open>r.summary && highlight(r.summary, query)\<close>: an empty summary shows nothing.\<close>

definition summary_cell :: "display_env \<Rightarrow> AppState \<Rightarrow> SearchResult \<Rightarrow> rendered option result" where
  "summary_cell d s r =
     (case sr_summary r of None \<Rightarrow> Inr None
      | Some t \<Rightarrow> if t = [] then Inr None else bind_result (mark d t (query s)) (\<lambda>x. Inr (Some x)))"

definition render_row :: "display_env \<Rightarrow> AppState \<Rightarrow> SearchResult \<Rightarrow> result_row result" where
  "render_row d s r =
     bind_result (mark d (sr_name r) (query s)) (\<lambda>name.
     bind_result (summary_cell d s r) (\<lambda>summary.
     bind_result (to_fixed (sr_score r) 4) (\<lambda>score.
     bind_result (size_cell (sr_size r)) (\<lambda>bytes.
       Inr \<lparr>rr_selected = (map_option sr_path (selected s) = Some (sr_path r)),
            rr_name = name, rr_summary = summary,
            rr_title = sr_path r, rr_path = shortenPath (sr_path r) (pathMaxLen s), rr_ext = sr_ext r,
            rr_score = score, rr_size = bytes,
            rr_time = time_cell d (showRelativeTime s) (sr_modified_ts r)\<rparr>))))"

text \<open>The body of the table and the cards show the same data, row by row.\<close>

definition render_rows :: "display_env \<Rightarrow> AppState \<Rightarrow> result_row list result" where
  "render_rows d s = map_result (render_row d s) (sortedResults (sortBy s) (sortDir s) (results s))"

definition shows_empty_hint :: "AppState \<Rightarrow> bool" where
  "shows_empty_hint s \<longleftrightarrow> length (results s) = 0"

record detail_pane =
  dp_name :: js_string
  dp_ext :: js_string
  dp_title :: js_string
  dp_path :: js_string
  dp_score :: js_string
  dp_size :: js_string
  dp_time :: js_string
  dp_preview :: "rendered option"

definition render_detail :: "display_env \<Rightarrow> AppState \<Rightarrow> detail_pane option result" where
  "render_detail d s =
     (case selected s of None \<Rightarrow> Inr None
      | Some r \<Rightarrow>
          bind_result (to_fixed (sr_score r) 4) (\<lambda>score.
          bind_result (size_cell (sr_size r)) (\<lambda>bytes.
          bind_result (summary_cell d s r) (\<lambda>preview.
            Inr (Some \<lparr>dp_name = sr_name r, dp_ext = sr_ext r, dp_title = sr_path r,
              dp_path = shortenPath (sr_path r) (pathMaxLen s), dp_score = score, dp_size = bytes,
              dp_time = time_cell d (showRelativeTime s) (sr_modified_ts r), dp_preview = preview\<rparr>)))))"

section \<open>Index page\<close>

record diag_card =
  dc_docs :: "js_number option"
  dc_fields :: nat
  dc_cpu :: "js_string option"
  dc_total_mib :: "js_number option"
  dc_free_mib :: "js_number option"
  dc_warnings :: "js_string list"

definition mib :: "js_number option \<Rightarrow> js_number option" where
  "mib kib = map_option (\<lambda>k. math_round (js_div k (Fin 1024))) kib"

definition render_diag :: "DiagnosticsReport \<Rightarrow> diag_card result" where
  "render_diag r =
     bind_result (case dr_sys_cpu_avg r of None \<Rightarrow> Inr None
                  | Some c \<Rightarrow> bind_result (to_fixed c 1) (\<lambda>t. Inr (Some (t @ js ''%'')))) (\<lambda>cpu.
       Inr \<lparr>dc_docs = dr_index_doc_count r,
            dc_fields = (case dr_schema_fields r of None \<Rightarrow> 0 | Some fs \<Rightarrow> length fs),
            dc_cpu = cpu, dc_total_mib = mib (dr_sys_total_mem_kib r),
            dc_free_mib = mib (dr_sys_free_mem_kib r), dc_warnings = dr_warnings r\<rparr>)"

section \<open>Duplicates page\<close>

record group_card =
  gc_kind :: DupKind
  gc_key :: js_string
  gc_count :: nat
  gc_files :: "(js_string \<times> js_string) list"

definition group_cards :: "AppState \<Rightarrow> group_card list" where
  "group_cards s =
     map (\<lambda>g. \<lparr>gc_kind = dg_kind g, gc_key = dg_key g, gc_count = length (dg_files g),
                gc_files = map (\<lambda>p. (p, shortenPath p (pathMaxLen s))) (dg_files g)\<rparr>)
       (filteredGroups s)"

section \<open>Rows never throw\<close>

lemma mark_ok:
  assumes "literal_terms (de_compile d) q = Some ts \<or> q = []"
  shows "\<exists>x. mark d t q = Inr x \<and> shown x = t"
proof (cases "q = []")
  case True
  then show ?thesis by (simp add: mark_def highlight_def shown_def)
next
  case False
  then have "literal_terms (de_compile d) q = Some ts" using assms by simp
  from highlight_literal [OF False this] show ?thesis
    by (simp add: mark_def shown_def literal_nodes_text literal_split_text)
qed

lemma highlight_no_throw: "\<exists>x. highlight canon lower compile t q = Inr x"
proof (cases "q = [] \<or> literal_terms compile q = None")
  case True
  then show ?thesis
    by (auto simp: highlight_def literal_terms_def Let_def split: option.splits prod.splits)
next
  case False
  then obtain ts where "q \<noteq> []" "literal_terms compile q = Some ts" by auto
  from highlight_literal(2) [OF this] show ?thesis by (cases "ts = []") auto
qed

lemma size_cell_ok: "\<exists>x. size_cell n = Inr x"
  by (cases n) (auto simp: size_cell_def formatBytes_ok)

lemma summary_cell_ok: "\<exists>x. summary_cell d s r = Inr x"
  using highlight_no_throw [of "de_canon d" "de_lower d" "de_compile d" _ "query s"]
  by (auto simp: summary_cell_def mark_def split: option.split) (metis bind_result_Inr)

lemma render_row_ok:
  "\<exists>x. render_row d s r = Inr x \<and> rr_title x = sr_path r \<and> rr_path x = shortenPath (sr_path r) (pathMaxLen s)
     \<and> mark d (sr_name r) (query s) = Inr (rr_name x)
     \<and> (rr_selected x \<longleftrightarrow> (\<exists>r'. selected s = Some r' \<and> sr_path r' = sr_path r))"
proof -
  obtain name summary score bytes where "mark d (sr_name r) (query s) = Inr name"
    "summary_cell d s r = Inr summary" "to_fixed (sr_score r) 4 = Inr score" "size_cell (sr_size r) = Inr bytes"
    using highlight_no_throw [of "de_canon d" "de_lower d" "de_compile d" "sr_name r" "query s"]
      summary_cell_ok [of d s r] size_cell_ok [of "sr_size r"] to_fixed_ok [of 4 "sr_score r"]
    by (auto simp: mark_def simp del: to_fixed.simps)
  then show ?thesis by (auto simp: render_row_def)
qed

text \<open>ASCII case tables, no patterns, and a fixed clock and locale.\<close>

definition plain_display :: display_env where
  "plain_display = \<lparr>de_canon = ascii_lower, de_lower = map ascii_lower, de_compile = (\<lambda>_ _. None),
     de_locale = (\<lambda>_. []), de_now = Fin 0\<rparr>"

section \<open>Properties\<close>

text \<open>
  C18. The result list renders in every state, whatever the query: no cell of any row throws.
  There is one row per result, in the order of the sort; its tooltip is the full path, the
  path shown fits a whole limit from 13 on, and with a query that is a phrase or a list of
  terms the name shown is the name of the file.
\<close>

theorem render_rows_correct:
  "\<exists>rows. render_rows d s = Inr rows
     \<and> map rr_title rows = map sr_path (sortedResults (sortBy s) (sortDir s) (results s))
     \<and> (\<forall>m. pathMaxLen s = Fin (of_int m) \<and> 13 \<le> m \<and> m \<le> 2 ^ 52 \<longrightarrow>
          (\<forall>x\<in>set rows. length (rr_title x) \<le> 2 ^ 52 \<longrightarrow> int (length (rr_path x)) \<le> m))
     \<and> (query s = [] \<or> literal_terms (de_compile d) (query s) \<noteq> None \<longrightarrow>
          map (\<lambda>x. shown (rr_name x)) rows = map sr_name (sortedResults (sortBy s) (sortDir s) (results s)))"
proof -
  obtain g where g: "\<And>r. render_row d s r = Inr (g r)" "\<And>r. rr_title (g r) = sr_path r"
    "\<And>r. rr_path (g r) = shortenPath (sr_path r) (pathMaxLen s)"
    "\<And>r. mark d (sr_name r) (query s) = Inr (rr_name (g r))"
    using render_row_ok [of d s] by metis
  let ?rs = "sortedResults (sortBy s) (sortDir s) (results s)"
  have rows: "render_rows d s = Inr (map g ?rs)"
    unfolding render_rows_def by (rule map_result_Inr) (rule g(1))
  have fits: "int (length (rr_path (g r))) \<le> m"
    if "pathMaxLen s = Fin (of_int m)" "13 \<le> m" "m \<le> 2 ^ 52" "length (sr_path r) \<le> 2 ^ 52" for m r
    using that length_shorten_int [of m "sr_path r"] by (simp add: g(3) shortenPath_int)
  have name: "shown (rr_name (g r)) = sr_name r"
    if "query s = [] \<or> literal_terms (de_compile d) (query s) \<noteq> None" for r
    using mark_ok [of d "query s" _ "sr_name r"] g(4) [of r] that by fastforce
  show ?thesis using rows fits name by (intro exI [of _ "map g ?rs"]) (auto simp: g(2))
qed

theorem render_rows_correct_witness:
  "\<exists>rows. render_rows plain_display ((initial_state \<lparr>meta_env = (\<lambda>_. None), global_env = (\<lambda>_. None)\<rparr>)
        \<lparr>results := [sample_result (js ''b'') 3]\<rparr>) = Inr rows
     \<and> map (\<lambda>x. shown (rr_name x)) rows = [js ''b'']"
  using render_rows_correct [of plain_display "(initial_state \<lparr>meta_env = (\<lambda>_. None), global_env = (\<lambda>_. None)\<rparr>)
        \<lparr>results := [sample_result (js ''b'') 3]\<rparr>"]
  by (auto simp: initial_state_def sortedResults_def js_sort_def sample_result_def)

end
