(* ===== verification/Captions.thy ===== *)
theory Captions
  imports JsString
begin

text \<open>
  The fixed texts of the pages: the texts between the tags of \<open>src/App.tsx\<close>,
  \<open>src/pages/AboutPage.tsx\<close> and \<open>src/components/ThemeDropdown.tsx\<close> and the labels of
  \<open>src/constants/themes.ts\<close>, as UTF-16 code units under a name, page by page.
\<close>

definition header_captions :: "(string \<times> js_string) list" where
  "header_captions = [(''Brand'', js ''SE''), (''Title'', js ''SearchEvery''), (''NavSearch'', [20840, 23616,
     25628, 32034]), (''NavIndex'', [32034, 24341, 29366, 24577]), (''NavDup'', [37325, 22797, 25991, 20214]),
     (''NavSettings'', [31995, 32479, 35774, 32622]), (''NavAbout'', [20851, 20110, 20135, 21697])]"

definition theme_captions :: "(string \<times> js_string) list" where
  "theme_captions = [(''ThemeMenu'', [20027, 39064]), (''ThemeEye'', [25252, 30524]), (''ThemeLight'', [26126,
     20142]), (''ThemeDark'', [26263, 40657]), (''ThemeTech'', [31185, 25216]), (''ThemeSky'', [22825, 34013]),
     (''ThemePurple'', [26263, 32043]), (''ThemeGray'', [26263, 28784]), (''CheckMark'', [10003])]"

definition search_captions :: "(string \<times> js_string) list" where
  "search_captions = [(''SearchButton'', [25628, 19968, 25628]), (''Focus'', [28966, 28857, 65306]),
     (''FocusUnknown'', [26410, 30693]), (''ModeInverted'', [27169, 24335, 65306, 20498, 25490, 32034, 24341]),
     (''FileType'', [25991, 20214, 31867, 22411]), (''Pictures'', [22270, 29255]), (''Audio'', [38899, 39057]),
     (''Video'', [35270, 39057]), (''MorePictures'', [22270, 29255, 65288, 103, 105, 102, 47, 98, 109, 112, 47,
     115, 118, 103, 65289]), (''MoreAudio'', [38899, 39057, 65288, 102, 108, 97, 99, 47, 109, 52, 97, 65289]),
     (''MoreVideo'', [35270, 39057, 65288, 97, 118, 105, 47, 109, 111, 118, 47, 119, 101, 98, 109, 65289]),
     (''Archives'', [21387, 32553, 21253, 65288, 122, 105, 112, 47, 114, 97, 114, 47, 55, 122, 65289]),
     (''ViewTable'', [34920, 26684]), (''ViewCards'', [21345, 29255]), (''SortLabel'', [25490, 24207, 65306]),
     (''SortScore'', [32508, 21512]), (''SortTime'', [26102, 38388]), (''SortSize'', [22823, 23567]),
     (''Ascending'', [21319, 24207]), (''Descending'', [38477, 24207]), (''TimeShown'', [26102, 38388, 26174,
     31034, 65306]), (''TimeRelative'', [30456, 23545]), (''TimeAbsolute'', [32477, 23545]), (''ColName'',
     [21517, 31216]), (''ColPath'', [36335, 24452]), (''ColType'', [31867, 22411]), (''ColScore'', [20998,
     25968]), (''ColSize'', [22823, 23567]), (''ColTime'', [26102, 38388]), (''NoResults'', [26242, 26080,
     32467, 26524, 65292, 35797, 35797, 36755, 20837, 20851, 38190, 35789, 24182, 28857, 20987, 25628, 32034]),
     (''CardScore'', [20998, 25968, 32]), (''CardSize'', [32, 183, 32, 22823, 23567, 32]), (''CardTime'', [32,
     183, 32, 26102, 38388, 32]), (''DetailType'', [31867, 22411, 65306]), (''DetailPath'', [36335, 24452,
     65306]), (''DetailScore'', [20998, 25968, 65306]), (''DetailSize'', [22823, 23567, 65306]),
     (''DetailTime'', [26102, 38388, 65306]), (''OpenPlace'', [25171, 24320, 20301, 32622]), (''CopyPath'',
     [22797, 21046, 36335, 24452]), (''Favourite'', [25910, 34255]), (''PreviewHint'', [39044, 35272, 21344,
     20301, 65288, 25991, 26412, 29255, 27573, 47, 32553, 30053, 22270, 65289]), (''SelectHint'', [35831, 36873,
     25321, 24038, 20391, 32467, 26524, 26597, 30475, 35814, 24773])]"

definition index_captions :: "(string \<times> js_string) list" where
  "index_captions = [(''RootsLabel'', [30446, 24405, 26681, 65288, 36887, 21495, 20998, 38548, 65289]),
     (''PickFolder'', [36873, 25321, 25991, 20214, 22841]), (''ExcludeLabel'', [25490, 38500, 27169, 24335]),
     (''IndexDirLabel'', [32034, 24341, 30446, 24405]), (''PickIndexDirLabel'', [36873, 25321, 32034, 24341,
     30446, 24405]), (''ScanAndIndex'', [25195, 25551, 24182, 32034, 24341]), (''ParseLabel'', [21551, 29992,
     20869, 23481, 35299, 26512, 65288, 20165, 25991, 26412, 31867, 65289]), (''SaveDefault'', [20445, 23384,
     20026, 40664, 35748, 37197, 32622]), (''RestoreDefault'', [24674, 22797, 40664, 35748, 37197, 32622]),
     (''AutoScanNow'', [31435, 21363, 33258, 21160, 25195, 25551]), (''ProgressLabel'', [32034, 24341, 36827,
     24230, 65306]), (''Slash'', js ''/''), (''BuiltLabel'', [24050, 26500, 24314, 65306]), (''PendingLabel'',
     [32, 183, 32, 24453, 26500, 24314, 65306]), (''PauseReserved'', [26242, 20572, 65288, 39044, 30041,
     65289]), (''ResumeReserved'', [32487, 32493, 65288, 39044, 30041, 65289]), (''CancelReserved'', [21462,
     28040, 65288, 39044, 30041, 65289]), (''ScannedLabel'', [24050, 25195, 25551, 25991, 20214, 65306]),
     (''ScanningDir'', [32, 183, 32, 27491, 22312, 25195, 25551, 65306]), (''DiagHeading'', [38382, 39064,
     19982, 35786, 26029]), (''RunDiag'', [36816, 34892, 35786, 26029]), (''DiagTitle'', [32034, 24341, 19982,
     37197, 32622, 29366, 24577]), (''DiagDir'', [32034, 24341, 30446, 24405, 65306]), (''DiagOpen'', [32034,
     24341, 21487, 25171, 24320, 65306]), (''Yes'', [26159]), (''No'', [21542]), (''DiagDocs'', [32, 183, 32,
     25991, 26723, 25968, 65306]), (''DiagFields'', [32, 183, 32, 23383, 27573, 65306]), (''DiagRoots'', [25195,
     25551, 26681, 25968, 65306]), (''DiagAuto'', [32, 183, 32, 33258, 21160, 25195, 25551, 65306]),
     (''Enabled'', [24050, 21551, 29992]), (''NotEnabled'', [26410, 21551, 29992]), (''DiagPipeline'', [31649,
     36947, 65306]), (''Running'', [36827, 34892, 20013]), (''NotRunning'', [26410, 36827, 34892]),
     (''DiagCompleted'', [32, 183, 32, 24050, 23436, 25104, 65306]), (''DiagLastDay'', [32, 183, 32, 19978,
     27425, 26085, 26399, 65306]), (''DiagCpu'', [31995, 32479, 65306, 67, 80, 85, 32, 24179, 22343, 32]),
     (''DiagTotalMem'', [32, 183, 32, 20869, 23384, 32, 24635, 32]), (''DiagFreeMem'', [32, 47, 32, 21487,
     29992, 32]), (''MiB'', js '' MiB''), (''Dash'', js ''-''), (''WarningsLabel'', [35686, 21578, 65306]),
     (''NoWarnings'', [26410, 21457, 29616, 35686, 21578]), (''DiagHint'', [28857, 20987, 8220, 36816, 34892,
     35786, 26029, 8221, 20197, 26597, 30475, 31995, 32479, 19982, 32034, 24341, 29366, 24577])]"

definition dup_captions :: "(string \<times> js_string) list" where
  "dup_captions = [(''ByHash'', [25353, 20869, 23481, 21704, 24076]), (''ByName'', [25353, 25991, 20214,
     21517]), (''DetectButton'', [25195, 25551, 24182, 26816, 27979, 37325, 22797]), (''DetectingLabel'',
     [27491, 22312, 25195, 25551, 37325, 22797, 25991, 20214, 65292, 35831, 31245, 20505, 8230, 32, 24050,
     25195, 25551, 65306]), (''CurrentDir'', [32, 183, 32, 24403, 21069, 30446, 24405, 65306]), (''NoGroups'',
     [26242, 26080, 37325, 22797, 20998, 32452, 12290, 28857, 20987, 8220, 25195, 25551, 24182, 26816, 27979,
     37325, 22797, 8221, 24320, 22987, 12290]), (''HashKind'', [20869, 23481, 21704, 24076]), (''NameKind'',
     [25991, 20214, 21517]), (''Colon'', [65306]), (''CountUnit'', [32, 20010]), (''Locate'', [23450, 20301]),
     (''DeleteLabel'', [21024, 38500])]"

definition settings_captions :: "(string \<times> js_string) list" where
  "settings_captions = [(''SettingsTitle'', [35774, 32622, 65306, 20027, 39064, 19982, 35821, 35328]),
     (''ThemeLabel'', [20027, 39064, 33394, 35843]), (''OptLight'', [26126, 20142, 33394]), (''OptDark'',
     [26263, 40657, 33394]), (''OptEye'', [25252, 30524, 33394]), (''OptTech'', [31185, 25216, 33394]),
     (''OptSky'', [22825, 34013, 33394]), (''OptPurple'', [26263, 32043, 33394]), (''OptGray'', [26263, 28784,
     33394]), (''LangLabel'', [35821, 35328]), (''LangZh'', [20013, 25991]), (''LangEn'', js ''English''),
     (''MaxLenLabel'', [36335, 24452, 26174, 31034, 26368, 22823, 38271, 24230, 65288, 50, 48, 8211, 50, 48, 48,
     65289]), (''PreviewLabel'', [39044, 35272, 65306]), (''DailyScan'', [21551, 29992, 27599, 26085, 33258,
     21160, 25195, 25551, 65288, 31995, 32479, 31354, 38386, 26102, 65289])]"

definition about_captions :: "(string \<times> js_string) list" where
  "about_captions = [(''AboutProduct'', [20135, 21697, 21517, 65306, 83, 101, 97, 114, 99, 104, 69, 118, 101,
     114, 121]), (''AboutVersion'', [29256, 26412, 65306, 39044, 35272, 29256]), (''AboutStack'', [25216, 26415,
     26632, 65306, 82, 101, 97, 99, 116, 32, 43, 32, 86, 105, 116, 101, 32, 21069, 31471, 65292, 84, 97, 117,
     114, 105, 32, 43, 32, 82, 117, 115, 116, 32, 21518, 31471, 65292, 84, 97, 110, 116, 105, 118, 121, 32,
     25628, 32034, 24341, 25806]), (''AboutIntro'', [20135, 21697, 31616, 20171]), (''AboutIntroText'', [83,
     101, 97, 114, 99, 104, 69, 118, 101, 114, 121, 32, 33268, 21147, 20110, 22312, 26412, 22320, 28023, 37327,
     25991, 20214, 20013, 24555, 36895, 26816, 32034, 19982, 23450, 20301, 65292, 25552, 20379, 31283, 23450,
     12289, 21487, 37197, 32622, 19988, 26131, 29992, 30340, 25628, 32034, 20307, 39564, 12290]),
     (''AboutFeatures'', [21151, 33021, 35828, 26126]), (''AboutScan'', [30446, 24405, 25195, 25551, 19982,
     25490, 38500, 65306, 21487, 35774, 32622, 26681, 30446, 24405, 19982, 25490, 38500, 27169, 24335, 65288,
     22914, 32, 92, 92, 87, 105, 110, 100, 111, 119, 115, 44, 32, 92, 92, 80, 114, 111, 103, 114, 97, 109, 32,
     70, 105, 108, 101, 115, 65289, 12290]), (''AboutIndex'', [32034, 24341, 26500, 24314, 65306, 25903, 25345,
     20498, 25490, 32034, 24341, 65292, 24102, 23454, 26102, 36827, 24230, 20107, 20214, 19982, 29366, 24577,
     23637, 31034, 12290]), (''AboutContent'', [20869, 23481, 35299, 26512, 65306, 21487, 36873, 25991, 26412,
     31867, 25991, 20214, 35299, 26512, 20197, 29983, 25104, 25688, 35201, 65288, 38656, 21551, 29992, 65289,
     12290]), (''AboutFilter'', [26816, 32034, 19982, 31579, 36873, 65306, 20851, 38190, 35789, 25628, 32034,
     12289, 31934, 30830, 30701, 35821, 19982, 27491, 21017, 39640, 20142, 12289, 25193, 23637, 21517, 36807,
     28388, 12289, 22823, 23567, 33539, 22260, 65288, 77, 66, 32, 21333, 20301, 65289, 12289, 32467, 26524,
     25490, 24207, 65288, 32508, 21512, 47, 26102, 38388, 47, 22823, 23567, 65289, 12290]), (''AboutView'',
     [32467, 26524, 26597, 30475, 65306, 34920, 26684, 47, 21345, 29255, 35270, 22270, 20999, 25442, 65292,
     25903, 25345, 25171, 24320, 25991, 20214, 25152, 22312, 20301, 32622, 12290]), (''AboutThemes'', [20027,
     39064, 19982, 35821, 35328, 65306, 22810, 20027, 39064, 65288, 25252, 30524, 47, 26126, 20142, 47, 26263,
     40657, 47, 31185, 25216, 47, 22825, 34013, 47, 26263, 32043, 47, 26263, 28784, 65289, 65292, 20013, 33521,
     25991, 20999, 25442, 12290]), (''AboutDup'', [37325, 22797, 25991, 20214, 65306, 39044, 30041, 21151,
     33021, 65292, 21518, 32493, 23558, 25903, 25345, 25353, 32452, 23637, 31034, 19982, 28165, 29702, 31574,
     30053, 12290]), (''AboutPrivacy'', [38544, 31169, 19982, 35768, 21487]), (''AboutLocal'', [25152, 26377,
     25968, 25454, 22788, 29702, 22343, 22312, 26412, 22320, 23436, 25104, 65292, 38500, 38750, 29992, 25143,
     25163, 21160, 20998, 20139, 65292, 31243, 24207, 19981, 20250, 19978, 20256, 20219, 20309, 25991, 20214,
     25110, 32034, 24341, 12290]), (''AboutLicense'', [24320, 28304, 35768, 21487, 65306, 77, 73, 84, 32, 76,
     105, 99, 101, 110, 115, 101, 65307, 27426, 36814, 21453, 39304, 19982, 36129, 29486, 12290]),
     (''AboutRoadmap'', [36335, 32447, 22270, 65288, 39044, 21578, 65289]), (''AboutMoreTypes'', [26356, 22810,
     20869, 23481, 31867, 22411, 35299, 26512, 19982, 39044, 35272, 25903, 25345, 12290]),
     (''AboutMoreFilters'', [26356, 32454, 31890, 24230, 30340, 31579, 36873, 32500, 24230, 19982, 25490, 24207,
     31574, 30053, 12290]), (''AboutDupPlan'', [37325, 22797, 25991, 20214, 35782, 21035, 19982, 28165, 29702,
     31574, 30053, 33853, 22320, 12290]), (''CopyrightTitle'', [29256, 26435, 22768, 26126]),
     (''CopyrightLine'', [169, 32, 50, 48, 50, 53, 32, 19971, 22812, 24037, 20316, 23460, 32, 183, 32, 20445,
     30041, 25152, 26377, 26435, 21033]), (''CopyrightContact'', [77, 73, 84, 32, 76, 105, 99, 101, 110, 115,
     101, 32, 183, 32, 32852, 31995, 65306, 113, 105, 121, 101, 50, 48, 50, 53, 64, 113, 113, 46, 99, 111, 109,
     32, 183, 32, 20195, 30721, 20179, 24211, 65306]), (''CopyrightRepo'',
     js ''github.com/smart-open/SearchEvery'')]"

text \<open>All of them; a text that several pages have is listed once.\<close>

definition captions :: "(string \<times> js_string) list" where
  "captions = header_captions @ theme_captions @ search_captions @ index_captions @ dup_captions
     @ settings_captions @ about_captions"

definition caption_text :: "string \<Rightarrow> js_string" where
  "caption_text k = (case map_of captions k of None \<Rightarrow> [] | Some t \<Rightarrow> t)"

lemma captions_distinct: "distinct (map fst captions)"
  by code_simp

end
