(* ===== verification/Shell.thy ===== *)
theory Shell
  imports Types JsString
begin

text \<open>
  The small parts around the pages: the theme menu (\<open>src/components/ThemeDropdown.tsx\<close>), the
  error log (\<open>src/services/logging.ts\<close>, \<open>src/hooks/useGlobalErrorLogging.ts\<close>), the focus
  log (\<open>src/hooks/useFocusDebug.ts\<close>) and the hook \<open>src/hooks/useSearchHotkeys.ts\<close>. Each of the first
  three registers listeners with the browser when it is mounted and removes them when it is
  unmounted, the last one registers none; the contract of such an effect is the locale
  \<open>listener_effect\<close>.
\<close>

section \<open>Listeners of the browser\<close>

text \<open>
  A registered listener is an event type, the capture flag and the callback. Adding one that
  is there already has no effect.
\<close>

datatype callback = DropdownClick | GlobalError | GlobalRejection | FocusIn | FocusOut | OtherCallback nat

type_synonym listener = "string \<times> bool \<times> callback"

definition addEventListener :: "string \<Rightarrow> callback \<Rightarrow> bool \<Rightarrow> listener list \<Rightarrow> listener list" where
  "addEventListener ty cb capture reg = (if (ty, capture, cb) \<in> set reg then reg else reg @ [(ty, capture, cb)])"

definition removeEventListener :: "string \<Rightarrow> callback \<Rightarrow> bool \<Rightarrow> listener list \<Rightarrow> listener list" where
  "removeEventListener ty cb capture reg = filter (\<lambda>l. l \<noteq> (ty, capture, cb)) reg"

locale listener_effect =
  fixes mount unmount :: "listener list \<Rightarrow> listener list" and own :: "listener set"
  assumes mount_adds: "set (mount reg) = set reg \<union> own"
    and unmount_removes: "set (unmount reg) = set reg - own"
begin

lemma releases: "set reg \<inter> own = {} \<Longrightarrow> set (unmount (mount reg)) = set reg"
  by (auto simp: mount_adds unmount_removes)

text \<open>In development every effect is mounted, unmounted and mounted again.\<close>

lemma strict_mode: "set (mount (unmount (mount reg))) = set (mount reg)"
  by (auto simp: mount_adds unmount_removes)

end

section \<open>The theme menu\<close>

record dropdown =
  dd_open :: bool
  dd_theme :: ThemeKey

definition dropdown_mount :: "listener list \<Rightarrow> listener list" where
  "dropdown_mount reg = addEventListener ''click'' DropdownClick False reg"

definition dropdown_unmount :: "listener list \<Rightarrow> listener list" where
  "dropdown_unmount reg = removeEventListener ''click'' DropdownClick False reg"

text \<open>Where a click lands; an item is there only while the menu is open.\<close>

datatype click = OnButton | OnItem nat | ElsewhereInside | Outside

text \<open>The handlers of the button and of the items.\<close>

fun dropdown_react :: "click \<Rightarrow> dropdown \<Rightarrow> dropdown" where
  "dropdown_react OnButton d = d\<lparr>dd_open := \<not> dd_open d\<rparr>"
| "dropdown_react (OnItem i) d =
     (if dd_open d \<and> i < length themeOptions then d\<lparr>dd_theme := themeOptions ! i, dd_open := False\<rparr> else d)"
| "dropdown_react _ d = d"

text \<open>The listener on the document, which runs afterwards.\<close>

fun dropdown_onClick :: "click \<Rightarrow> dropdown \<Rightarrow> dropdown" where
  "dropdown_onClick Outside d = d\<lparr>dd_open := False\<rparr>"
| "dropdown_onClick _ d = d"

definition dropdown_click :: "click \<Rightarrow> dropdown \<Rightarrow> dropdown" where
  "dropdown_click c d = dropdown_onClick c (dropdown_react c d)"

text \<open>The items shown, each with its check mark.\<close>

definition dropdown_items :: "dropdown \<Rightarrow> (ThemeKey \<times> bool) list" where
  "dropdown_items d = (if dd_open d then map (\<lambda>k. (k, dd_theme d = k)) themeOptions else [])"

interpretation menu: listener_effect dropdown_mount dropdown_unmount "{(''click'', False, DropdownClick)}"
  by unfold_locales (auto simp: dropdown_mount_def dropdown_unmount_def addEventListener_def removeEventListener_def)

section \<open>Logging\<close>

text \<open>
  A thrown value: null or undefined with its name, or a value with its \<open>message\<close>, what its
  \<open>toString\<close> returns if it has one, and its \<open>stack\<close>. Without \<open>toString\<close> the conversion
  \<open>String\<close> fails too.
\<close>

datatype thrown_value = Nullish js_string | Thrown "js_string option" "js_string option" "js_string option"

definition log_message :: "thrown_value \<Rightarrow> js_string result" where
  "log_message v =
     (case v of Nullish name \<Rightarrow> Inr name
      | Thrown (Some m) _ _ \<Rightarrow> Inr m
      | Thrown None (Some t) _ \<Rightarrow> Inr t
      | Thrown None None _ \<Rightarrow> Inl (Rejected (js ''TypeError'')))"

definition log_stack :: "thrown_value \<Rightarrow> js_string option" where
  "log_stack v = (case v of Nullish _ \<Rightarrow> None | Thrown _ _ s \<Rightarrow> s)"

text \<open>\<open>nowIso\<close>: the time as text, or nothing when the clock has no valid date.\<close>

definition nowIso :: "js_string result \<Rightarrow> js_string" where
  "nowIso now = (case now of Inl _ \<Rightarrow> [] | Inr t \<Rightarrow> t)"

record log_entry =
  lg_time :: js_string
  lg_context :: js_string
  lg_message :: js_string
  lg_stack :: "js_string option"

definition logInfo :: "js_string result \<Rightarrow> js_string \<Rightarrow> js_string \<Rightarrow> log_entry" where
  "logInfo now message ctx = \<lparr>lg_time = nowIso now, lg_context = ctx, lg_message = message, lg_stack = None\<rparr>"

definition logError :: "js_string result \<Rightarrow> thrown_value \<Rightarrow> js_string \<Rightarrow> log_entry result" where
  "logError now v ctx =
     map_sum id (\<lambda>m. \<lparr>lg_time = nowIso now, lg_context = ctx, lg_message = m, lg_stack = log_stack v\<rparr>) (log_message v)"

text \<open>\<open>event.error ?? event.message\<close>; a message is a string.\<close>

definition onError :: "js_string result \<Rightarrow> thrown_value option \<Rightarrow> js_string \<Rightarrow> log_entry result" where
  "onError now err message =
     logError now (case err of Some (Thrown m t s) \<Rightarrow> Thrown m t s | _ \<Rightarrow> Thrown None (Some message) None)
       (js ''window.onerror'')"

definition onUnhandled :: "js_string result \<Rightarrow> thrown_value \<Rightarrow> log_entry result" where
  "onUnhandled now reason = logError now reason (js ''window.onunhandledrejection'')"

definition errors_mount :: "listener list \<Rightarrow> listener list" where
  "errors_mount reg =
     addEventListener ''unhandledrejection'' GlobalRejection False (addEventListener ''error'' GlobalError False reg)"

definition errors_unmount :: "listener list \<Rightarrow> listener list" where
  "errors_unmount reg =
     removeEventListener ''unhandledrejection'' GlobalRejection False (removeEventListener ''error'' GlobalError False reg)"

interpretation errs: listener_effect errors_mount errors_unmount
  "{(''error'', False, GlobalError), (''unhandledrejection'', False, GlobalRejection)}"
  by unfold_locales (auto simp: errors_mount_def errors_unmount_def addEventListener_def removeEventListener_def)

section \<open>The focus log\<close>

text \<open>An element: its tag, its id and its \<open>String(className)\<close>, empty when there is none.\<close>

record element =
  el_tag :: js_string
  el_id :: js_string
  el_class :: js_string

definition focus_desc :: "(js_string \<Rightarrow> js_string) \<Rightarrow> element option \<Rightarrow> js_string" where
  "focus_desc lower t =
     (case t of None \<Rightarrow> js ''unknown''
      | Some el \<Rightarrow> lower (el_tag el) @ (if el_id el \<noteq> [] then 35 # el_id el else [])
          @ (if el_class el \<noteq> [] then 46 # js_join [46] (js_split (\<lambda>c. c = 32) (el_class el)) else []))"

datatype focus_line = LFocusIn js_string | LFocusOut js_string | LActive "element option"

record focus_state =
  lastFocus :: js_string
  focus_console :: "focus_line list"

definition focus_initial :: focus_state where
  "focus_initial = \<lparr>lastFocus = [], focus_console = []\<rparr>"

text \<open>The two listeners.\<close>

definition onFocusIn :: "(js_string \<Rightarrow> js_string) \<Rightarrow> element option \<Rightarrow> focus_state \<Rightarrow> focus_state" where
  "onFocusIn lower t s =
     (let desc = focus_desc lower t in s\<lparr>lastFocus := desc, focus_console := focus_console s @ [LFocusIn desc]\<rparr>)"

definition onFocusOut :: "(js_string \<Rightarrow> js_string) \<Rightarrow> element option \<Rightarrow> focus_state \<Rightarrow> focus_state" where
  "onFocusOut lower t s = s\<lparr>focus_console := focus_console s @ [LFocusOut (focus_desc lower t)]\<rparr>"

text \<open>The second effect runs after every render and prints the active element.\<close>

definition focus_rendered :: "bool \<Rightarrow> element option \<Rightarrow> focus_state \<Rightarrow> focus_state" where
  "focus_rendered enabled active s =
     (if \<not> enabled then s else s\<lparr>focus_console := focus_console s @ [LActive active]\<rparr>)"

definition focus_mount :: "bool \<Rightarrow> listener list \<Rightarrow> listener list" where
  "focus_mount enabled reg =
     (if \<not> enabled then reg
      else addEventListener ''focusout'' FocusOut True (addEventListener ''focusin'' FocusIn True reg))"

definition focus_unmount :: "bool \<Rightarrow> listener list \<Rightarrow> listener list" where
  "focus_unmount enabled reg =
     (if \<not> enabled then reg
      else removeEventListener ''focusout'' FocusOut True (removeEventListener ''focusin'' FocusIn True reg))"

interpretation focus: listener_effect "focus_mount enabled" "focus_unmount enabled"
  "if enabled then {(''focusin'', True, FocusIn), (''focusout'', True, FocusOut)} else {}" for enabled
  by unfold_locales (auto simp: focus_mount_def focus_unmount_def addEventListener_def removeEventListener_def)

section \<open>The search shortcuts\<close>

text \<open>\<open>useSearchHotkeys\<close>: an effect with an empty body and no cleanup.\<close>

definition hotkeys_mount :: "listener list \<Rightarrow> listener list" where
  "hotkeys_mount reg = reg"

definition hotkeys_unmount :: "listener list \<Rightarrow> listener list" where
  "hotkeys_unmount reg = reg"

interpretation hotkeys: listener_effect hotkeys_mount hotkeys_unmount "{}"
  by unfold_locales (simp_all add: hotkeys_mount_def hotkeys_unmount_def)

section \<open>Properties\<close>

text \<open>Joining the parts of a split with another separator replaces the separator.\<close>

lemma join_split_replace: "js_join [d] (js_split (\<lambda>x. x = c) s) = map (\<lambda>x. if x = c then d else x) s"
proof (induction s)
  case (Cons a s)
  obtain p ps where ps: "js_split (\<lambda>x. x = c) s = p # ps" by (metis js_split_nonempty list.exhaust)
  then show ?case using Cons by (cases ps) (auto simp: js_join_Cons)
qed simp

text \<open>
  The theme menu works as a menu should: while it is open it lists every theme once, with
  the check mark at the current one and nowhere else; a click on an item takes its theme and
  closes the menu, and every theme can be reached this way; a click outside closes it without
  changing the theme, and a click on the button twice changes nothing. While it is closed no
  click changes the theme.
\<close>

theorem theme_menu_correct:
  "map fst (dropdown_items (d\<lparr>dd_open := True\<rparr>)) = themeOptions \<and> distinct themeOptions
   \<and> filter snd (dropdown_items (d\<lparr>dd_open := True\<rparr>)) = [(dd_theme d, True)]
   \<and> (\<exists>i. dropdown_click (OnItem i) (d\<lparr>dd_open := True\<rparr>) = d\<lparr>dd_theme := k, dd_open := False\<rparr>)
   \<and> dropdown_click Outside d = d\<lparr>dd_open := False\<rparr>
   \<and> dropdown_click OnButton (dropdown_click OnButton d) = d
   \<and> (dd_open d \<or> dd_theme (dropdown_click c d) = dd_theme d)"
proof (intro conjI)
  show "filter snd (dropdown_items (d\<lparr>dd_open := True\<rparr>)) = [(dd_theme d, True)]"
    by (cases "dd_theme d") (simp_all add: dropdown_items_def themeOptions_def)
  have "k \<in> set themeOptions" by (cases k) (simp_all add: themeOptions_def)
  then obtain i where "i < length themeOptions" "themeOptions ! i = k" by (auto simp: in_set_conv_nth)
  then show "\<exists>i. dropdown_click (OnItem i) (d\<lparr>dd_open := True\<rparr>) = d\<lparr>dd_theme := k, dd_open := False\<rparr>"
    by (intro exI [of _ i]) (cases d, simp add: dropdown_click_def)
  show "dropdown_click OnButton (dropdown_click OnButton d) = d" by (cases d) (simp add: dropdown_click_def)
  show "dd_open d \<or> dd_theme (dropdown_click c d) = dd_theme d" by (cases c) (simp_all add: dropdown_click_def)
qed (auto simp: dropdown_items_def dropdown_click_def themeOptions_def)

text \<open>
  The effects of the shell leave no listener behind: mounting and unmounting the theme
  menu, the error log and the focus log restores the set of listeners, and mounting them twice
  as development mode does registers nothing twice.
\<close>

theorem shell_effects_release:
  assumes "\<forall>l\<in>set reg. \<exists>n. snd (snd l) = OtherCallback n"
  shows "set (dropdown_unmount (errors_unmount (focus_unmount b
       (focus_mount b (errors_mount (dropdown_mount reg)))))) = set reg
    \<and> set (focus_mount b (focus_unmount b (focus_mount b reg))) = set (focus_mount b reg)
    \<and> set (errors_mount (errors_unmount (errors_mount reg))) = set (errors_mount reg)
    \<and> set (dropdown_mount (dropdown_unmount (dropdown_mount reg))) = set (dropdown_mount reg)"
  using assms
  by (auto simp: menu.mount_adds menu.unmount_removes errs.mount_adds errs.unmount_removes focus.mount_adds
      focus.unmount_removes menu.strict_mode errs.strict_mode focus.strict_mode split: if_splits)

theorem shell_effects_release_witness:
  "set (dropdown_unmount (errors_unmount (focus_unmount True
     (focus_mount True (errors_mount (dropdown_mount [(''click'', False, OtherCallback 0)])))))) = {(''click'', False, OtherCallback 0)}"
  using shell_effects_release [of "[(''click'', False, OtherCallback 0)]" True] by simp

text \<open>
  What the focus log shows of an element, \<open>tag#id.class1.class2\<close>: the name of the tag in
  lower case, the id if there is one, and the classes with each space written as a dot; only
  focusin changes the element shown.
\<close>

theorem focus_desc_format:
  "focus_desc lower (Some el) = lower (el_tag el) @ (if el_id el = [] then [] else 35 # el_id el)
     @ (if el_class el = [] then [] else 46 # map (\<lambda>c. if c = 32 then 46 else c) (el_class el))
   \<and> lastFocus (onFocusIn lower t s) = focus_desc lower t \<and> lastFocus (onFocusOut lower t s) = lastFocus s"
  by (simp add: focus_desc_def join_split_replace onFocusIn_def onFocusOut_def Let_def)

end
