(* ===== verification/Pages.thy ===== *)
theory Pages
  imports Captions Views Shell AppTheorems
begin

text \<open>
  The markup of \<open>src/App.tsx\<close>, \<open>src/components/ThemeDropdown.tsx\<close> and
  \<open>src/pages/AboutPage.tsx\<close> as trees of elements: every text, every control with its value
  and its handler, every condition. Styles, icons and class names that do not depend on the
  state are left out. \<open>handler\<close> says which action of \<open>AppModel\<close> an event on an element
  starts; the theorems relate the controls on the screen to the actions that the model accepts.
\<close>

section \<open>Elements\<close>

text \<open>
  A button has its \<open>disabled\<close> attribute and its \<open>onClick\<close>, which may ask the browser (\<open>confirm\<close>,
  the clipboard) and then depends on the answer. The options of a menu and of a tab list carry
  the action of their choice and whether they are the current one.
\<close>

datatype elem =
    ECap string
  | EText js_string
  | ECount js_number
  | EMarked rendered
  | EMsg message
  | EBar js_number
  | EBox string "elem list"
  | ETitled js_string "elem list"
  | ELink js_string "elem list"
  | EButton bool "(bool \<Rightarrow> action) option" "elem list"
  | EInput js_string "js_string \<Rightarrow> action" "action option"
  | ENumber js_number "js_string \<Rightarrow> action"
  | ECheck bool "bool \<Rightarrow> action"
  | ESelect "(action \<times> elem \<times> bool) list"
  | ETabs "(tab_key \<Rightarrow> action) option" "(action \<times> elem \<times> bool) list"
  | ERow bool action "elem list"

datatype event = OnClick bool | OnType js_string | OnEnter | OnCheck bool | OnChoose nat | OnKey tab_key

definition choice :: "(action \<times> elem \<times> bool) list \<Rightarrow> nat \<Rightarrow> action option" where
  "choice opts i = (if i < length opts then Some (fst (opts ! i)) else None)"

text \<open>The value of a number input is empty or a number.\<close>

definition handler :: "elem \<Rightarrow> event \<Rightarrow> action option" where
  "handler e ev =
     (case e of
        EButton disabled onClick es \<Rightarrow>
          (case ev of OnClick answer \<Rightarrow> if disabled then None else map_option (\<lambda>f. f answer) onClick | _ \<Rightarrow> None)
      | EInput v onChange onEnter \<Rightarrow> (case ev of OnType t \<Rightarrow> Some (onChange t) | OnEnter \<Rightarrow> onEnter | _ \<Rightarrow> None)
      | ENumber v onChange \<Rightarrow>
          (case ev of OnType t \<Rightarrow> if is_finite (js_Number t) then Some (onChange t) else None | _ \<Rightarrow> None)
      | ECheck v onChange \<Rightarrow> (case ev of OnCheck b \<Rightarrow> Some (onChange b) | _ \<Rightarrow> None)
      | ESelect opts \<Rightarrow> (case ev of OnChoose i \<Rightarrow> choice opts i | _ \<Rightarrow> None)
      | ETabs keys opts \<Rightarrow>
          (case ev of OnChoose i \<Rightarrow> choice opts i | OnKey k \<Rightarrow> map_option (\<lambda>f. f k) keys | _ \<Rightarrow> None)
      | ERow sel onClick es \<Rightarrow> (case ev of OnClick answer \<Rightarrow> Some onClick | _ \<Rightarrow> None)
      | _ \<Rightarrow> None)"

fun controls :: "elem \<Rightarrow> elem list" where
  "controls (EBox c es) = concat (map controls es)"
| "controls (ETitled t es) = concat (map controls es)"
| "controls (EButton disabled onClick es) = [EButton disabled onClick es]"
| "controls (EInput v f g) = [EInput v f g]"
| "controls (ENumber v f) = [ENumber v f]"
| "controls (ECheck v f) = [ECheck v f]"
| "controls (ESelect opts) = [ESelect opts]"
| "controls (ETabs keys opts) = [ETabs keys opts]"
| "controls (ERow sel a es) = [ERow sel a es]"
| "controls _ = []"

definition offers :: "elem \<Rightarrow> action \<Rightarrow> bool" where
  "offers e act \<longleftrightarrow> (\<exists>c\<in>set (controls e). \<exists>ev. handler c ev = Some act)"

text \<open>\<open>{cond && element}\<close>\<close>

definition given :: "bool \<Rightarrow> elem list \<Rightarrow> elem list" where
  "given b es = (if b then es else [])"

definition clicks :: "action \<Rightarrow> (bool \<Rightarrow> action) option" where
  "clicks a = Some (\<lambda>_. a)"

section \<open>Header and sidebar\<close>

fun theme_label :: "ThemeKey \<Rightarrow> string" where
  "theme_label TEye = ''ThemeEye''" | "theme_label TLight = ''ThemeLight''" | "theme_label TDark = ''ThemeDark''"
| "theme_label TTech = ''ThemeTech''" | "theme_label TSky = ''ThemeSky''" | "theme_label TPurple = ''ThemePurple''"
| "theme_label TGray = ''ThemeGray''"

text \<open>The button of the menu changes the state of the menu only.\<close>

definition ThemeDropdown :: "dropdown \<Rightarrow> elem" where
  "ThemeDropdown d = EBox ''dropdown''
     (EButton False None [ECap ''ThemeMenu''] #
      given (dd_open d) [EBox ''dropdown-menu''
        (map (\<lambda>(k, checked). ERow False (SetTheme k) (ECap (theme_label k) # given checked [ECap ''CheckMark'']))
          (dropdown_items d))])"

definition Header :: "bool \<Rightarrow> AppState \<Rightarrow> elem" where
  "Header menu_open s = EBox ''app-header''
     [EBox ''brand'' [ECap ''Brand'', ECap ''Title''],
      EBox ''actions'' [ThemeDropdown \<lparr>dd_open = menu_open, dd_theme = theme s\<rparr>]]"

definition sidebar_items :: "(PageKey \<times> string) list" where
  "sidebar_items = [(PSearch, ''NavSearch''), (PIndex, ''NavIndex''), (PDup, ''NavDup''),
     (PSettings, ''NavSettings''), (PAbout, ''NavAbout'')]"

definition Sidebar :: "AppState \<Rightarrow> elem" where
  "Sidebar s = EBox ''app-sidebar''
     (map (\<lambda>(k, label). EBox (if page s = k then ''nav-item active'' else ''nav-item'')
       [EButton False (clicks (Navigate k)) [ECap label]]) sidebar_items)"

section \<open>Search page\<close>

definition ext_labels :: "elem list" where
  "ext_labels = [ECap ''FileType'', EText (js ''pdf''), EText (js ''ofd''), EText (js ''doc/docx''), EText (js ''xls/xlsx''),
     EText (js ''ppt/pptx''), EText (js ''txt''), ECap ''Pictures'', ECap ''Audio'', ECap ''Video'', ECap ''MorePictures'',
     ECap ''MoreAudio'', ECap ''MoreVideo'', EText (js ''csv''), EText (js ''md/markdown''), EText (js ''rtf''),
     EText (js ''html/htm''), EText (js ''json''), EText (js ''xml''), ECap ''Archives'', EText (js ''log'')]"

definition ext_select :: "AppState \<Rightarrow> elem" where
  "ext_select s = ESelect (map (\<lambda>(v, label). (ChooseExt v, label, extFilter s = v)) (zip ext_options ext_labels))"

definition view_choices :: "AppState \<Rightarrow> (action \<times> elem \<times> bool) list" where
  "view_choices s = [(ChooseView VTable, ECap ''ViewTable'', viewMode s = VTable),
     (ChooseView VCard, ECap ''ViewCards'', viewMode s = VCard)]"

definition sort_choices :: "AppState \<Rightarrow> (action \<times> elem \<times> bool) list" where
  "sort_choices s = [(ChooseSort ByScore, ECap ''SortScore'', sortBy s = ByScore),
     (ChooseSort ByTime, ECap ''SortTime'', sortBy s = ByTime), (ChooseSort BySize, ECap ''SortSize'', sortBy s = BySize)]"

text \<open>The row with the file types, the view tabs and the sort tabs; both tab lists have a menu as well.\<close>

definition mode_line :: "AppState \<Rightarrow> elem" where
  "mode_line s = EBox ''mode-line''
     [EBox [] [ECap ''ModeInverted'', ext_select s],
      EBox ''view-toggle''
        [ETabs (Some ViewKey) (view_choices s), ESelect (view_choices s), ECap ''SortLabel'',
         ETabs None (sort_choices s), ESelect (sort_choices s),
         EButton False (clicks FlipSort) [ECap (if sortDir s = Asc then ''Ascending'' else ''Descending'')],
         EButton False (clicks ToggleTime)
           [ECap ''TimeShown'', ECap (if showRelativeTime s then ''TimeRelative'' else ''TimeAbsolute'')]]]"

definition search_bar :: "bool \<Rightarrow> AppState \<Rightarrow> elem" where
  "search_bar inTauri s = EBox ''row''
     [EInput (query s) TypeQuery (Some PressEnter),
      EButton (busy s \<or> \<not> inTauri) (clicks ClickSearch) [ECap ''SearchButton'']]"

text \<open>A row of the table and a card of the card view.\<close>

definition table_row :: "SearchResult \<Rightarrow> result_row \<Rightarrow> elem" where
  "table_row r x = ERow (rr_selected x) (SelectResult r)
     [EBox ''name'' (EMarked (rr_name x) # (case rr_summary x of None \<Rightarrow> [] | Some t \<Rightarrow> [EMarked t])),
      ETitled (rr_title x) [EText (rr_path x)], EText (rr_ext x), EText (rr_score x), EText (rr_size x), EText (rr_time x)]"

definition result_card :: "SearchResult \<Rightarrow> result_row \<Rightarrow> elem" where
  "result_card r x = ERow (rr_selected x) (SelectResult r)
     ([EBox ''card-title'' [EMarked (rr_name x), EText (rr_ext x)]]
      @ (case rr_summary x of None \<Rightarrow> [] | Some t \<Rightarrow> [EMarked t])
      @ [ETitled (rr_title x) [EText (rr_path x)],
         EBox ''card-score'' [ECap ''CardScore'', EText (rr_score x), ECap ''CardSize'', EText (rr_size x),
           ECap ''CardTime'', EText (rr_time x)]])"

definition result_list :: "AppState \<Rightarrow> result_row list \<Rightarrow> elem" where
  "result_list s rows =
     (let shown_rows = zip (sortedResults (sortBy s) (sortDir s) (results s)) rows;
          empty_hint = given (shows_empty_hint s) [EBox ''empty'' [ECap ''NoResults'']]
      in if viewMode s = VTable
         then EBox ''table'' (map ECap [''ColName'', ''ColPath'', ''ColType'', ''ColScore'', ''ColSize'', ''ColTime'']
                @ map (\<lambda>(r, x). table_row r x) shown_rows @ empty_hint)
         else EBox ''cards'' (map (\<lambda>(r, x). result_card r x) shown_rows @ empty_hint))"

definition detail_box :: "detail_pane option \<Rightarrow> elem" where
  "detail_box p =
     (case p of None \<Rightarrow> EBox ''empty'' [ECap ''SelectHint'']
      | Some x \<Rightarrow> EBox ''detail-box''
          [EText (dp_name x),
           EBox ''detail-meta''
             [ECap ''DetailType'', EText (dp_ext x), ETitled (dp_title x) [ECap ''DetailPath'', EText (dp_path x)],
              ECap ''DetailScore'', EText (dp_score x), ECap ''DetailSize'', EText (dp_size x),
              ECap ''DetailTime'', EText (dp_time x)],
           EBox ''detail-actions''
             [EButton False (clicks OpenSelected) [ECap ''OpenPlace''], EButton False (Some CopySelected) [ECap ''CopyPath''],
              EButton False None [ECap ''Favourite'']],
           (case dp_preview x of None \<Rightarrow> ECap ''PreviewHint'' | Some t \<Rightarrow> EMarked t)])"

definition SearchPage :: "display_env \<Rightarrow> bool \<Rightarrow> js_string \<Rightarrow> AppState \<Rightarrow> elem result" where
  "SearchPage d inTauri focus s =
     bind_result (render_rows d s) (\<lambda>rows. bind_result (render_detail d s) (\<lambda>detail.
       Inr (EBox ''panel''
         [EBox ''panel-header''
            [search_bar inTauri s, EMsg (msg s),
             EBox ''muted'' [ECap ''Focus'', if focus = [] then ECap ''FocusUnknown'' else EText focus]],
          EBox ''panel-body''
            [mode_line s, EBox ''split'' [EBox ''primary'' [result_list s rows], EBox ''detail'' [detail_box detail]]]])))"

section \<open>Index page\<close>

definition index_form :: "bool \<Rightarrow> AppState \<Rightarrow> elem" where
  "index_form inTauri s = EBox ''form-grid''
     [EBox ''label'' [ECap ''RootsLabel'', EInput (roots s) TypeRoots None,
        EButton (\<not> inTauri) (clicks ClickPickRoots) [ECap ''PickFolder'']],
      EBox ''label'' [ECap ''ExcludeLabel'', EInput (exclude s) TypeExclude None],
      EBox ''label'' [ECap ''IndexDirLabel'', EInput (indexDir s) TypeIndexDir None,
        EButton (\<not> inTauri) (clicks ClickPickIndexDir) [ECap ''PickIndexDirLabel'']]]"

definition index_buttons :: "bool \<Rightarrow> AppState \<Rightarrow> elem" where
  "index_buttons inTauri s =
     (let off = busy s \<or> \<not> inTauri
      in EBox ''row''
        [EButton off (clicks ClickScanAndIndex) [ECap ''ScanAndIndex''],
         EBox ''checkbox'' [ECheck (enableContentParse s) CheckParse, ECap ''ParseLabel''],
         EButton off (clicks ClickSave) [ECap ''SaveDefault''],
         EButton off (clicks ClickReset) [ECap ''RestoreDefault''],
         EButton off (clicks ClickAutoScan) [ECap ''AutoScanNow'']])"

text \<open>The progress bar with its three buttons that do nothing, shown for a positive total.\<close>

definition index_progress :: "AppState \<Rightarrow> elem list" where
  "index_progress s = given (js_lt (Fin 0) (idxTotal s))
     [EBox []
       [EBox ''status'' [ECap ''ProgressLabel'', ECount (idxCurrent s), ECap ''Slash'', ECount (idxTotal s)],
        EBar (progress_percent (idxCurrent s) (idxTotal s)),
        EBox ''status'' [ECap ''BuiltLabel'', ECount (idxCurrent s), ECap ''PendingLabel'',
          ECount (progress_pending (idxCurrent s) (idxTotal s))],
        EBox ''row'' [EButton True None [ECap ''PauseReserved''], EButton True None [ECap ''ResumeReserved''],
          EButton (\<not> idxRunning s) None [ECap ''CancelReserved'']]]]"

definition scan_line :: "AppState \<Rightarrow> elem" where
  "scan_line s = EBox ''muted''
     ([ECap ''ScannedLabel'', ECount (scanned_shown s)]
      @ given (busy s \<and> scanDir s \<noteq> []) [ECap ''ScanningDir'', EText (shortenPath (scanDir s) (pathMaxLen s))])"

definition yes_no :: "bool \<Rightarrow> elem" where
  "yes_no b = ECap (if b then ''Yes'' else ''No'')"

definition mib_text :: "js_number option \<Rightarrow> elem list" where
  "mib_text n = (case n of None \<Rightarrow> [ECap ''Dash''] | Some k \<Rightarrow> [ECount k, ECap ''MiB''])"

definition diag_box :: "DiagnosticsReport \<Rightarrow> diag_card \<Rightarrow> elem" where
  "diag_box r c = EBox ''card''
     [ECap ''DiagTitle'', EBox ''card-path'' [ECap ''DiagDir'', EText (dr_index_dir r)],
      EBox ''card-score'' [ECap ''DiagOpen'', yes_no (dr_index_open_ok r), ECap ''DiagDocs'',
        (case dc_docs c of None \<Rightarrow> ECap ''Dash'' | Some n \<Rightarrow> ECount n), ECap ''DiagFields'', ECount (Fin (of_nat (dc_fields c)))],
      EBox ''card-score'' [ECap ''DiagRoots'', ECount (dr_config_scan_roots_count r), ECap ''DiagAuto'',
        ECap (if dr_config_auto_scan_enabled r then ''Enabled'' else ''NotEnabled'')],
      EBox ''card-score'' [ECap ''DiagPipeline'', ECap (if dr_pipeline_started r then ''Running'' else ''NotRunning''),
        ECap ''DiagCompleted'', yes_no (dr_pipeline_completed r), ECap ''DiagLastDay'',
        (case dr_pipeline_last_day r of None \<Rightarrow> ECap ''Dash'' | Some t \<Rightarrow> EText t)],
      EBox ''card-score'' (ECap ''DiagCpu'' # (case dc_cpu c of None \<Rightarrow> ECap ''Dash'' | Some t \<Rightarrow> EText t)
        # ECap ''DiagTotalMem'' # mib_text (dc_total_mib c) @ ECap ''DiagFreeMem'' # mib_text (dc_free_mib c)),
      (if dc_warnings c \<noteq> [] then EBox [] (ECap ''WarningsLabel'' # map EText (dc_warnings c)) else ECap ''NoWarnings'')]"

definition render_diag_box :: "AppState \<Rightarrow> elem result" where
  "render_diag_box s =
     (case diag s of None \<Rightarrow> Inr (ECap ''DiagHint'')
      | Some r \<Rightarrow> bind_result (render_diag r) (\<lambda>c. Inr (diag_box r c)))"

definition IndexPage :: "bool \<Rightarrow> AppState \<Rightarrow> elem result" where
  "IndexPage inTauri s = bind_result (render_diag_box s) (\<lambda>box.
     Inr (EBox ''panel''
       [EBox ''panel-header'' [EMsg (msg s)],
        EBox ''panel-body''
          ([index_form inTauri s, index_buttons inTauri s] @ index_progress s @
           [scan_line s,
            EBox [] [EBox ''row'' [ECap ''DiagHeading'', EButton (\<not> inTauri) (clicks ClickDiagnose) [ECap ''RunDiag'']], box]])]))"

section \<open>Duplicates page\<close>

text \<open>The status line is empty for the empty message and for an error whose text is empty.\<close>

fun blank_message :: "message \<Rightarrow> bool" where
  "blank_message MNone = True"
| "blank_message (MError (Rejected t)) = (t = [])"
| "blank_message _ = False"

definition file_line :: "js_string \<times> js_string \<Rightarrow> elem" where
  "file_line f = (case f of (p, short) \<Rightarrow> EBox ''row''
     [ETitled p [EText short],
      EBox ''detail-actions'' [EButton False (clicks (OpenDup p)) [ECap ''Locate''],
        EButton False (Some (\<lambda>confirmed. ClickDelete confirmed p)) [ECap ''DeleteLabel'']]])"

definition group_box :: "group_card \<Rightarrow> elem" where
  "group_box g = EBox ''card''
     [EBox ''card-title'' [ECap (if gc_kind g = KHash then ''HashKind'' else ''NameKind''), ECap ''Colon'', EText (gc_key g),
        ECount (Fin (of_nat (gc_count g))), ECap ''CountUnit''],
      EBox ''detail-box'' (map file_line (gc_files g))]"

definition DupPage :: "bool \<Rightarrow> AppState \<Rightarrow> elem" where
  "DupPage inTauri s = EBox ''panel''
     [EBox ''panel-header''
        [if blank_message (msg s) then ECap ''NavDup'' else EMsg (msg s),
         EBox ''row''
           [EBox ''checkbox'' [ECheck (dupIncludeHash s) CheckHash, ECap ''ByHash''],
            EBox ''checkbox'' [ECheck (dupIncludeName s) CheckName, ECap ''ByName''],
            EButton (busy s \<or> \<not> inTauri) (clicks ClickDetect) [ECap ''DetectButton'']]],
      EBox ''panel-body''
        (given (busy s) [EBox ''muted'' ([ECap ''DetectingLabel'', ECount (scanCount s)]
           @ given (scanDir s \<noteq> []) [ECap ''CurrentDir'', EText (shortenPath (scanDir s) (pathMaxLen s))])]
         @ [if filteredGroups s = [] then EBox ''empty'' [ECap ''NoGroups'']
            else EBox ''cards'' (map group_box (group_cards s))])]"

section \<open>Settings page\<close>

definition theme_choices :: "AppState \<Rightarrow> (action \<times> elem \<times> bool) list" where
  "theme_choices s = map (\<lambda>(k, label). (SetTheme k, ECap label, theme s = k))
     [(TLight, ''OptLight''), (TDark, ''OptDark''), (TEye, ''OptEye''), (TTech, ''OptTech''), (TSky, ''OptSky''),
      (TPurple, ''OptPurple''), (TGray, ''OptGray'')]"

definition lang_choices :: "AppState \<Rightarrow> (action \<times> elem \<times> bool) list" where
  "lang_choices s = [(SetLang Zh, ECap ''LangZh'', lang s = Zh), (SetLang En, ECap ''LangEn'', lang s = En)]"

definition preview_path :: js_string where
  "preview_path = js ''D:/very/long/example/path/with/many/subfolders/file.txt''"

definition SettingsPage :: "bool \<Rightarrow> AppState \<Rightarrow> elem" where
  "SettingsPage inTauri s = EBox ''panel''
     [EBox ''panel-header'' [ECap ''SettingsTitle''],
      EBox ''panel-body''
        [EBox ''label'' [ECap ''ThemeLabel'', ESelect (theme_choices s)],
         EBox ''label'' [ECap ''LangLabel'', ESelect (lang_choices s)],
         EBox ''label'' [ECap ''MaxLenLabel'', ENumber (pathMaxLen s) TypePathMaxLen, ENumber (pathMaxLen s) TypePathMaxLen,
           EButton (busy s \<or> \<not> inTauri) (clicks ClickSave) [ECap ''SaveDefault''],
           ECap ''PreviewLabel'', EText (shortenPath preview_path (pathMaxLen s))],
         EBox ''checkbox'' [ECheck (autoScanEnabled s) CheckAutoScan, ECap ''DailyScan'']]]"

section \<open>About page\<close>

definition AboutPage :: elem where
  "AboutPage = EBox ''panel''
     [EBox ''panel-header'' [ECap ''NavAbout''],
      EBox ''panel-body''
        [EBox ''about'' (map ECap [''AboutProduct'', ''AboutVersion'', ''AboutStack'']),
         EBox []
           [ECap ''AboutIntro'', ECap ''AboutIntroText'',
            ECap ''AboutFeatures'', EBox ''features'' (map ECap [''AboutScan'', ''AboutIndex'', ''AboutContent'',
              ''AboutFilter'', ''AboutView'', ''AboutThemes'', ''AboutDup'']),
            ECap ''AboutPrivacy'', EBox ''features'' (map ECap [''AboutLocal'', ''AboutLicense'']),
            ECap ''AboutRoadmap'', EBox ''features'' (map ECap [''AboutMoreTypes'', ''AboutMoreFilters'', ''AboutDupPlan''])]],
      EBox ''panel-footer''
        [ECap ''CopyrightTitle'', ECap ''CopyrightLine'', ECap ''CopyrightContact'',
         ELink (js ''https://github.com/smart-open/SearchEvery'') [ECap ''CopyrightRepo'']]]"

section \<open>The window\<close>

definition renderContent :: "display_env \<Rightarrow> bool \<Rightarrow> js_string \<Rightarrow> AppState \<Rightarrow> elem result" where
  "renderContent d inTauri focus s =
     (case page s of
        PSearch \<Rightarrow> SearchPage d inTauri focus s
      | PIndex \<Rightarrow> IndexPage inTauri s
      | PDup \<Rightarrow> Inr (DupPage inTauri s)
      | PSettings \<Rightarrow> Inr (SettingsPage inTauri s)
      | PAbout \<Rightarrow> Inr AboutPage)"

definition app_shell :: "display_env \<Rightarrow> bool \<Rightarrow> js_string \<Rightarrow> bool \<Rightarrow> AppState \<Rightarrow> elem result" where
  "app_shell d inTauri focus menu_open s = bind_result (renderContent d inTauri focus s) (\<lambda>content.
     Inr (EBox ''app-shell'' [Header menu_open s, EBox ''app-body'' [Sidebar s, EBox ''app-main'' [content]]]))"

end
