(* ===== verification/PageProps.thy ===== *)
theory PageProps
  imports Pages
begin

text \<open>
  The screen against the model: what each page offers to the user is what the model of the
  controls accepts, every page renders in every state, and menus and tabs show one choice.
\<close>

section \<open>What the elements offer\<close>

lemma choice_member: "(\<exists>i. choice opts i = Some a) \<longleftrightarrow> a \<in> fst ` set opts"
proof -
  have "a \<in> fst ` set opts \<longleftrightarrow> (\<exists>i<length opts. map fst opts ! i = a)"
    using in_set_conv_nth [of a "map fst opts"] by (simp only: set_map length_map)
  moreover have "choice opts i = Some a \<longleftrightarrow> i < length opts \<and> map fst opts ! i = a" for i by (auto simp: choice_def)
  ultimately show ?thesis by simp
qed

lemma event_ex: "(\<exists>ev. P ev) \<longleftrightarrow> (\<exists>b. P (OnClick b)) \<or> (\<exists>t. P (OnType t)) \<or> P OnEnter \<or> (\<exists>b. P (OnCheck b))
    \<or> (\<exists>i. P (OnChoose i)) \<or> (\<exists>k. P (OnKey k))"
  by (metis event.exhaust)

lemma offers_simps [simp]:
  "\<not> offers (ECap k) a" "\<not> offers (EText t) a" "\<not> offers (ECount n) a" "\<not> offers (EMarked r) a" "\<not> offers (EMsg m) a"
  "\<not> offers (EBar n) a" "\<not> offers (ELink u es) a"
  "offers (EBox c es) a \<longleftrightarrow> (\<exists>e\<in>set es. offers e a)"
  "offers (ETitled t es) a \<longleftrightarrow> (\<exists>e\<in>set es. offers e a)"
  "offers (EButton dis f es) a \<longleftrightarrow> \<not> dis \<and> (\<exists>g b. f = Some g \<and> g b = a)"
  "offers (EInput u ty en) a \<longleftrightarrow> (\<exists>t. ty t = a) \<or> en = Some a"
  "offers (ENumber n ty) a \<longleftrightarrow> (\<exists>t. is_finite (js_Number t) \<and> ty t = a)"
  "offers (ECheck v h) a \<longleftrightarrow> (\<exists>b. h b = a)"
  "offers (ESelect opts) a \<longleftrightarrow> a \<in> fst ` set opts"
  "offers (ETabs keys opts) a \<longleftrightarrow> a \<in> fst ` set opts \<or> (\<exists>q j. keys = Some q \<and> q j = a)"
  "offers (ERow sel x es) a \<longleftrightarrow> x = a"
  unfolding offers_def event_ex by (auto simp: handler_def simp flip: choice_member)

lemma given_set [simp]: "set (given b es) = (if b then set es else {})"
  by (simp add: given_def)

lemma clicks_Some [simp]: "clicks a = Some g \<longleftrightarrow> g = (\<lambda>_. a)"
  by (auto simp: clicks_def)

section \<open>What the pages offer\<close>

lemma header_offers: "offers (Header menu_open s) a \<longleftrightarrow> menu_open \<and> (\<exists>t. a = SetTheme t)"
proof -
  have "t \<in> set themeOptions" for t by (cases t) (simp_all add: themeOptions_def)
  then show ?thesis by (auto simp: Header_def ThemeDropdown_def dropdown_items_def)
qed

lemma sidebar_offers: "offers (Sidebar s) a \<longleftrightarrow> (\<exists>p. a = Navigate p)"
proof -
  have "offers (Sidebar s) a \<longleftrightarrow> a \<in> Navigate ` fst ` set sidebar_items" by (auto simp: Sidebar_def case_prod_beta image_iff)
  moreover have "p \<in> fst ` set sidebar_items" for p by (cases p) (simp_all add: sidebar_items_def)
  ultimately show ?thesis by blast
qed

lemma about_offers: "\<not> offers AboutPage a"
  by (simp add: AboutPage_def)

lemma settings_offers:
  "offers (SettingsPage inTauri (app w)) a \<longleftrightarrow> settings_controls inTauri a w \<noteq> None \<or> (\<exists>t. a = SetTheme t)"
proof -
  have "t = TLight \<or> t = TDark \<or> t = TEye \<or> t = TTech \<or> t = TSky \<or> t = TPurple \<or> t = TGray" for t by (cases t) auto
  moreover have "l = Zh \<or> l = En" for l by (cases l) auto
  ultimately show ?thesis
    by (cases a) (auto simp: SettingsPage_def theme_choices_def lang_choices_def button_def)
qed

lemma diag_silent:
  assumes "render_diag_box s = Inr box"
  shows "\<not> offers box a"
proof -
  have "\<not> offers (yes_no b) a" for b by (simp add: yes_no_def)
  moreover have "e \<in> set (mib_text n) \<Longrightarrow> \<not> offers e a" for e n by (auto simp: mib_text_def split: option.splits)
  ultimately have "\<not> offers (diag_box r c) a" for r c
    by (auto simp: diag_box_def split: option.splits)
  with assms show ?thesis by (auto simp: render_diag_box_def bind_result_def split: option.splits sum.splits)
qed

lemma index_parts_offer:
  "offers (index_form inTauri s) a \<longleftrightarrow> (\<exists>t. a = TypeRoots t \<or> a = TypeExclude t \<or> a = TypeIndexDir t)
     \<or> inTauri \<and> (a = ClickPickRoots \<or> a = ClickPickIndexDir)"
  "offers (index_buttons inTauri s) a \<longleftrightarrow> (\<exists>b. a = CheckParse b)
     \<or> \<not> busy s \<and> inTauri \<and> (a = ClickScanAndIndex \<or> a = ClickSave \<or> a = ClickReset \<or> a = ClickAutoScan)"
  "e \<in> set (index_progress s) \<Longrightarrow> \<not> offers e a"
  "\<not> offers (scan_line s) a"
  by (auto simp: index_form_def index_buttons_def index_progress_def scan_line_def Let_def split: if_splits)

lemma index_offers:
  assumes "IndexPage inTauri (app w) = Inr e"
  shows "offers e a \<longleftrightarrow> index_controls inTauri a w \<noteq> None"
proof -
  obtain box where box: "render_diag_box (app w) = Inr box" using assms
    by (cases "render_diag_box (app w)") (simp_all add: IndexPage_def bind_result_def)
  have "offers e a \<longleftrightarrow> offers (index_form inTauri (app w)) a \<or> offers (index_buttons inTauri (app w)) a \<or> inTauri \<and> a = ClickDiagnose"
    using assms diag_silent [OF box] index_parts_offer(3) [of _ "app w" a] index_parts_offer(4) [of "app w" a]
    by (auto simp: IndexPage_def box)
  then show ?thesis unfolding index_parts_offer by (cases a) (auto simp: button_def)
qed

lemma group_offers: "offers (group_box g) a \<longleftrightarrow> (\<exists>f\<in>set (gc_files g). a = OpenDup (fst f) \<or> (\<exists>b. a = ClickDelete b (fst f)))"
  by (auto simp: group_box_def file_line_def case_prod_beta)

lemma cards_listed: "(\<exists>g\<in>set (group_cards s). \<exists>f\<in>set (gc_files g). fst f = p) \<longleftrightarrow> listed p s"
  by (auto simp: group_cards_def listed_def list_ex_iff)

lemma dup_offers: "offers (DupPage inTauri (app w)) a \<longleftrightarrow> dup_controls inTauri a w \<noteq> None"
proof -
  have "offers (DupPage inTauri (app w)) a \<longleftrightarrow> (\<exists>b. a = CheckHash b \<or> a = CheckName b)
      \<or> \<not> busy (app w) \<and> inTauri \<and> a = ClickDetect \<or> (\<exists>g\<in>set (group_cards (app w)). offers (group_box g) a)"
    by (auto simp: DupPage_def group_cards_def)
  also have "(\<exists>g\<in>set (group_cards (app w)). offers (group_box g) a)
      \<longleftrightarrow> (\<exists>p. listed p (app w) \<and> (a = OpenDup p \<or> (\<exists>b. a = ClickDelete b p)))"
    unfolding group_offers cards_listed [symmetric] by blast
  finally show ?thesis by (cases a) (auto simp: button_def)
qed

lemma render_detail_ok: "\<exists>x. render_detail d s = Inr x \<and> (x = None \<longleftrightarrow> selected s = None)"
proof (cases "selected s")
  case (Some r)
  obtain score bytes preview where "to_fixed (sr_score r) 4 = Inr score" "size_cell (sr_size r) = Inr bytes"
    "summary_cell d s r = Inr preview"
    using summary_cell_ok [of d s r] size_cell_ok [of "sr_size r"] to_fixed_ok [of 4 "sr_score r"]
    by (auto simp del: to_fixed.simps)
  then show ?thesis using Some by (simp add: render_detail_def del: to_fixed.simps)
qed (simp add: render_detail_def)

lemma render_rows_ok: "\<exists>rows. render_rows d s = Inr rows \<and> length rows = length (sortedResults (sortBy s) (sortDir s) (results s))"
proof -
  obtain g where "\<And>r. render_row d s r = Inr (g r)" using render_row_ok [of d s] by metis
  then show ?thesis using map_result_Inr [of _ "render_row d s" g] by (simp add: render_rows_def)
qed

lemma list_offers:
  assumes "length rows = length (sortedResults (sortBy s) (sortDir s) (results s))"
  shows "offers (result_list s rows) a \<longleftrightarrow> (\<exists>r\<in>set (sortedResults (sortBy s) (sortDir s) (results s)). a = SelectResult r)"
proof -
  let ?rs = "sortedResults (sortBy s) (sortDir s) (results s)"
  have row: "offers (table_row r x) a \<longleftrightarrow> a = SelectResult r" "offers (result_card r x) a \<longleftrightarrow> a = SelectResult r" for r x
    by (auto simp: table_row_def result_card_def)
  have "offers (result_list s rows) a \<longleftrightarrow> (\<exists>z\<in>set (zip ?rs rows). a = SelectResult (fst z))"
    by (simp add: result_list_def row case_prod_beta Let_def bex_Un)
  also have "\<dots> \<longleftrightarrow> (\<exists>r\<in>set (map fst (zip ?rs rows)). a = SelectResult r)" by simp
  also have "map fst (zip ?rs rows) = ?rs" using assms by simp
  finally show ?thesis .
qed

lemma detail_offers: "offers (detail_box x) a \<longleftrightarrow> x \<noteq> None \<and> (a = OpenSelected \<or> (\<exists>b. a = CopySelected b))"
  by (cases x) (auto simp: detail_box_def split: option.splits)

lemma ext_offers: "offers (ext_select s) a \<longleftrightarrow> (\<exists>x\<in>set ext_options. a = ChooseExt x)"
proof -
  have "offers (ext_select s) a \<longleftrightarrow> (\<exists>z\<in>set (zip ext_options ext_labels). a = ChooseExt (fst z))"
    by (auto simp: ext_select_def case_prod_beta image_iff)
  also have "\<dots> \<longleftrightarrow> (\<exists>x\<in>set (map fst (zip ext_options ext_labels)). a = ChooseExt x)" by simp
  also have "map fst (zip ext_options ext_labels) = ext_options" by (simp add: ext_options_def ext_labels_def)
  finally show ?thesis .
qed

lemma mode_offers:
  "offers (mode_line s) a \<longleftrightarrow> (\<exists>x\<in>set ext_options. a = ChooseExt x) \<or> (\<exists>v. a = ChooseView v) \<or> (\<exists>k. a = ViewKey k)
     \<or> (\<exists>b. a = ChooseSort b) \<or> a = FlipSort \<or> a = ToggleTime"
proof -
  have "v = VTable \<or> v = VCard" for v by (cases v) auto
  moreover have "b = ByScore \<or> b = ByTime \<or> b = BySize" for b by (cases b) auto
  ultimately show ?thesis by (auto simp: mode_line_def ext_offers view_choices_def sort_choices_def)
qed

lemma search_offers:
  "\<exists>e. SearchPage d inTauri focus (app w) = Inr e
     \<and> (\<forall>a. offers e a \<longleftrightarrow> search_controls inTauri a w \<noteq> None \<or> result_controls inTauri a w \<noteq> None)"
proof -
  let ?s = "app w"
  obtain rows where rows: "render_rows d ?s = Inr rows" "length rows = length (sortedResults (sortBy ?s) (sortDir ?s) (results ?s))"
    using render_rows_ok by blast
  obtain x where x: "render_detail d ?s = Inr x" "x = None \<longleftrightarrow> selected ?s = None" using render_detail_ok by blast
  have bar: "offers (search_bar inTauri ?s) a \<longleftrightarrow> (\<exists>q. a = TypeQuery q) \<or> a = PressEnter \<or> \<not> busy ?s \<and> inTauri \<and> a = ClickSearch" for a
    by (auto simp: search_bar_def)
  obtain e where e: "SearchPage d inTauri focus ?s = Inr e" by (simp add: SearchPage_def rows x)
  then have "offers e a \<longleftrightarrow> offers (search_bar inTauri ?s) a \<or> offers (mode_line ?s) a \<or> offers (result_list ?s rows) a \<or> offers (detail_box x) a" for a
    by (cases "focus = []") (auto simp: SearchPage_def rows x)
  then have "offers e a \<longleftrightarrow> search_controls inTauri a w \<noteq> None \<or> result_controls inTauri a w \<noteq> None" for a
    unfolding bar mode_offers list_offers [OF rows(2)] detail_offers x(2)
    by (cases a) (auto simp: button_def split: option.splits)
  with e show ?thesis by blast
qed

lemma diag_renders: "\<exists>box. render_diag_box s = Inr box"
proof (cases "diag s")
  case (Some r)
  have "\<exists>c. render_diag r = Inr c"
    using to_fixed_ok [of 1] by (cases "dr_sys_cpu_avg r") (auto simp: render_diag_def simp del: to_fixed.simps, metis bind_result_Inr)
  with Some show ?thesis by (auto simp: render_diag_box_def)
qed (simp add: render_diag_box_def)

lemma content_offers:
  "\<exists>e. renderContent d inTauri focus (app w) = Inr e
     \<and> (\<forall>a. offers e a \<longleftrightarrow> page_controls inTauri a w \<noteq> None \<or> page (app w) = PSettings \<and> (\<exists>t. a = SetTheme t))"
proof (cases "page (app w)")
  case PSearch
  with search_offers [of d inTauri focus w] show ?thesis
    by (auto simp: renderContent_def page_controls_def split: option.splits)
next
  case PIndex
  obtain e where e: "IndexPage inTauri (app w) = Inr e" using diag_renders [of "app w"] by (auto simp: IndexPage_def)
  with PIndex index_offers [OF e] show ?thesis by (simp add: renderContent_def page_controls_def)
qed (simp_all add: renderContent_def page_controls_def dup_offers settings_offers about_offers)


section \<open>Menus and tabs\<close>

definition one_current :: "(action \<times> elem \<times> bool) list \<Rightarrow> bool" where
  "one_current opts \<longleftrightarrow> length (filter (\<lambda>(_, _, current). current) opts) = 1"

fun menu_ok :: "elem \<Rightarrow> bool" where
  "menu_ok (ESelect opts) = one_current opts"
| "menu_ok (ETabs keys opts) = one_current opts"
| "menu_ok _ = True"

definition menus_ok :: "elem \<Rightarrow> bool" where
  "menus_ok e \<longleftrightarrow> (\<forall>c\<in>set (controls e). menu_ok c)"

lemma menus_ok_simps [simp]:
  "menus_ok (ECap k)" "menus_ok (EText t)" "menus_ok (ECount n)" "menus_ok (EMarked r)" "menus_ok (EMsg m)"
  "menus_ok (EBar n)" "menus_ok (ELink u es)" "menus_ok (EButton dis f es)" "menus_ok (EInput u ty en)"
  "menus_ok (ENumber n ty)" "menus_ok (ECheck v h)" "menus_ok (ERow sel x es)"
  "menus_ok (EBox c es) \<longleftrightarrow> (\<forall>e\<in>set es. menus_ok e)" "menus_ok (ETitled t es) \<longleftrightarrow> (\<forall>e\<in>set es. menus_ok e)"
  "menus_ok (ESelect opts) \<longleftrightarrow> one_current opts" "menus_ok (ETabs keys opts) \<longleftrightarrow> one_current opts"
  by (auto simp: menus_ok_def)

text \<open>The value of the file type menu is one of its options.\<close>

definition ext_ok :: "world \<Rightarrow> bool" where
  "ext_ok w \<longleftrightarrow> extFilter (app w) \<in> set ext_options"

lemma ext_config [simp]: "extFilter (apply_config c s) = extFilter s"
  by (simp add: apply_config_def Let_def split: option.split)

lemma ext_ok_user: "user_action inTauri act w = Some w' \<Longrightarrow> ext_ok w \<Longrightarrow> ext_ok w'"
  by (cases act) (auto simp: ext_ok_def app_simps split: PageKey.splits if_splits option.splits)

lemma ext_ok_resume: "resume t v (w\<lparr>tasks := ts\<rparr>) = Some w' \<Longrightarrow> ext_ok w \<Longrightarrow> ext_ok w'"
  by (cases t; cases v) (auto simp: ext_ok_def app_simps split: sum.splits selection.splits)

lemma ext_ok_initial: "ext_ok (initial_world inTauri e)"
  by (simp add: ext_ok_def initial_world_def initial_state_def load_config_def ext_options_def app_simps)

lemma ext_ok_rest:
  "ext_ok w \<Longrightarrow> ext_ok (load_config w)" "ext_ok w \<Longrightarrow> ext_ok (deliver ev w)" "ext_ok w \<Longrightarrow> ext_ok (search_timer_fires c w)" "ext_ok w \<Longrightarrow> ext_ok (debounce inTauri old w)"
  by (auto simp: ext_ok_def load_config_def app_simps split: backend_event.splits option.splits)

interpretation fty: world_invariant inTauri ext_ok for inTauri
  by unfold_locales (blast intro: ext_ok_rest ext_ok_initial ext_ok_user ext_ok_resume)+

lemma one_of_distinct: "distinct xs \<Longrightarrow> x \<in> set xs \<Longrightarrow> length (filter (\<lambda>y. x = y) xs) = 1"
  by (induction xs) (auto simp: filter_empty_conv)

lemma ext_one_current:
  assumes "ext_ok w"
  shows "menus_ok (ext_select (app w))"
proof -
  let ?zs = "zip ext_options ext_labels"
  have zs: "map fst ?zs = ext_options" "distinct ext_options" by code_simp+
  have "length (filter (\<lambda>z. extFilter (app w) = fst z) ?zs) = length (filter (\<lambda>v. extFilter (app w) = v) (map fst ?zs))"
    by (simp only: filter_map length_map comp_def)
  also have "\<dots> = 1" unfolding zs(1) using assms zs(2) by (intro one_of_distinct) (simp_all add: ext_ok_def)
  finally show ?thesis by (simp add: ext_select_def one_current_def filter_map comp_def case_prod_beta)
qed

lemma search_menus:
  assumes "SearchPage d inTauri focus (app w) = Inr e" "ext_ok w"
  shows "menus_ok e"
proof -
  obtain rows x where rx: "render_rows d (app w) = Inr rows" "render_detail d (app w) = Inr x"
    using render_rows_ok [of d "app w"] render_detail_ok [of d "app w"] by blast
  have "menus_ok (search_bar inTauri (app w))" by (simp add: search_bar_def)
  moreover have "menus_ok (mode_line (app w))"
    using ext_one_current [OF assms(2)] by (cases "viewMode (app w)"; cases "sortBy (app w)")
      (simp_all add: mode_line_def view_choices_def sort_choices_def one_current_def)
  moreover have "menus_ok (result_list (app w) rows)"
    by (auto simp: result_list_def table_row_def result_card_def Let_def split: if_splits)
  moreover have "menus_ok (detail_box x)" by (cases x) (simp_all add: detail_box_def split: option.split)
  ultimately show ?thesis using assms(1) by (cases "focus = []") (auto simp: SearchPage_def rx)
qed

lemma index_menus:
  assumes "IndexPage inTauri s = Inr e"
  shows "menus_ok e"
proof -
  obtain box where box: "render_diag_box s = Inr box" using diag_renders by blast
  have "menus_ok (yes_no b)" for b by (simp add: yes_no_def)
  moreover have "e \<in> set (mib_text n) \<Longrightarrow> menus_ok e" for e n by (auto simp: mib_text_def split: option.splits)
  ultimately have "menus_ok (diag_box r c)" for r c by (auto simp: diag_box_def split: option.splits)
  then have "menus_ok box" using box by (auto simp: render_diag_box_def bind_result_def split: option.splits sum.splits)
  moreover have "\<forall>x\<in>set (index_progress s). menus_ok x" "menus_ok (scan_line s)"
    by (auto simp: index_progress_def scan_line_def split: if_splits)
  ultimately show ?thesis
    using assms by (auto simp: IndexPage_def box index_form_def index_buttons_def Let_def)
qed

lemma dup_menus: "menus_ok (DupPage inTauri s)"
  by (auto simp: DupPage_def group_box_def file_line_def case_prod_beta split: if_splits)

lemma settings_menus: "menus_ok (SettingsPage inTauri s)"
  by (cases "theme s"; cases "lang s") (simp_all add: SettingsPage_def theme_choices_def lang_choices_def one_current_def)

lemma content_menus:
  assumes "renderContent d inTauri focus (app w) = Inr e" "ext_ok w"
  shows "menus_ok e"
  using assms
  by (cases "page (app w)") (auto simp: renderContent_def AboutPage_def dup_menus settings_menus intro: search_menus index_menus)

lemma frame_menus: "menus_ok (Header m s)" "menus_ok (Sidebar s)"
  by (auto simp: Header_def ThemeDropdown_def Sidebar_def case_prod_beta split: if_splits)

text \<open>
  Every menu and every tab list on the screen shows exactly one current choice, in every state
  of the component that can be reached.
\<close>

theorem menus_show_state:
  assumes "ui.reach inTauri w" "app_shell d inTauri focus menu_open (app w) = Inr e"
    and "ESelect opts \<in> set (controls e) \<or> ETabs keys opts \<in> set (controls e)"
  shows "length (filter (\<lambda>(_, _, current). current) opts) = 1"
proof -
  obtain c where c: "renderContent d inTauri focus (app w) = Inr c" using content_offers by blast
  have "menus_ok e"
    using assms(2) content_menus [OF c fty.holds [OF assms(1)]] by (auto simp: app_shell_def c frame_menus)
  with assms(3) show ?thesis unfolding menus_ok_def one_current_def [symmetric] by fastforce
qed

theorem menus_show_state_witness:
  "\<exists>e. app_shell plain_display True [] False (app (initial_world True bare_env)) = Inr e
     \<and> ESelect (view_choices (app (initial_world True bare_env))) \<in> set (controls e)
     \<and> length (filter (\<lambda>(_, _, current). current) (view_choices (app (initial_world True bare_env)))) = 1"
proof -
  let ?w = "initial_world True bare_env"
  have "page (app ?w) = PSearch" by code_simp
  moreover obtain rows x where "render_rows plain_display (app ?w) = Inr rows" "render_detail plain_display (app ?w) = Inr x"
    using render_rows_ok [of plain_display "app ?w"] render_detail_ok [of plain_display "app ?w"] by blast
  ultimately obtain e where e: "app_shell plain_display True [] False (app ?w) = Inr e"
    "ESelect (view_choices (app ?w)) \<in> set (controls e)"
    by (simp add: app_shell_def renderContent_def SearchPage_def mode_line_def)
  with menus_show_state [OF initial_reach e(1)] show ?thesis by blast
qed

end
