(* ===== verification/Icons.thy ===== *)
theory Icons
  imports JsString
begin

text \<open>
  The icon scripts \<open>scripts/generate-icons.mjs\<close> and \<open>scripts/resize-ico-from-256.mjs\<close>. The
  image libraries are parameters: rendering an SVG text, resizing, packing images into an icon
  file and unpacking one. A disk maps paths to contents; the scripts write it file by file, so
  that a failure leaves the files written before.
\<close>

section \<open>The libraries and the disk\<close>

record 'b image =
  im_width :: nat
  im_height :: nat
  im_buffer :: 'b

record 'b image_lib =
  render_svg :: "js_string \<Rightarrow> 'b result"
  resize_png :: "'b \<Rightarrow> nat \<Rightarrow> 'b result"
  png_to_ico :: "'b list \<Rightarrow> 'b result"
  parse_ico :: "'b \<Rightarrow> 'b image list result"

type_synonym 'b disk = "js_string \<Rightarrow> 'b option"

definition icons_dir :: js_string where
  "icons_dir = js ''src-tauri/icons''"

definition icon_path :: "nat \<Rightarrow> js_string" where
  "icon_path n = icons_dir @ js ''/icon-'' @ int_digits (int n) @ js ''.ico''"

definition main_icon_path :: js_string where
  "main_icon_path = icons_dir @ js ''/icon.ico''"

section \<open>generate-icons.mjs\<close>

definition attr :: "string \<Rightarrow> js_string \<Rightarrow> js_string" where
  "attr name v = 32 # js name @ [61, 34] @ v @ [34]"

definition svgForSize :: "nat \<Rightarrow> js_string" where
  "svgForSize size1 =
     (let n = int_digits (int size1);
          fontSize = (case math_round (js_mul (Fin (of_nat size1)) (to_double (68 / 100))) of
              Fin x \<Rightarrow> int_digits \<lfloor>x\<rfloor> | _ \<Rightarrow> [])
      in js ''<?xml'' @ attr ''version'' (js ''1.0'') @ attr ''encoding'' (js ''UTF-8'') @ js ''?>'' @ [10]
         @ js ''<svg'' @ attr ''xmlns'' (js ''http://www.w3.org/2000/svg'') @ attr ''width'' n @ attr ''height'' n
           @ attr ''viewBox'' (js ''0 0 '' @ n @ [32] @ n) @ js ''>'' @ [10]
         @ js ''  <rect'' @ attr ''x'' (js ''0'') @ attr ''y'' (js ''0'') @ attr ''width'' n @ attr ''height'' n
           @ attr ''rx'' (js ''6'') @ attr ''ry'' (js ''6'') @ attr ''fill'' (js ''#000000'') @ js ''/>'' @ [10]
         @ js ''  <text'' @ attr ''x'' (js ''50%'') @ attr ''y'' (js ''50%'') @ attr ''dy'' (js ''0.3em'')
           @ attr ''fill'' (js ''#25D090'') @ attr ''font-size'' fontSize @ attr ''font-weight'' (js ''700'')
           @ attr ''font-family'' (js ''Inter, Segoe UI, Arial, sans-serif'') @ attr ''text-anchor'' (js ''middle'')
           @ attr ''dominant-baseline'' (js ''central'') @ attr ''alignment-baseline'' (js ''central'')
           @ js ''>SE</text>'' @ [10] @ js ''</svg>'')"

definition generatePngBuffer :: "'b image_lib \<Rightarrow> nat \<Rightarrow> 'b result" where
  "generatePngBuffer lib size1 = render_svg lib (svgForSize size1)"

fun render_sizes :: "'b image_lib \<Rightarrow> nat list \<Rightarrow> (nat \<rightharpoonup> 'b) \<Rightarrow> (nat \<rightharpoonup> 'b) result" where
  "render_sizes lib [] m = Inr m"
| "render_sizes lib (n # ns) m =
     (case generatePngBuffer lib n of Inl e \<Rightarrow> Inl e | Inr png \<Rightarrow> render_sizes lib ns (m(n \<mapsto> png)))"

fun write_icons :: "'b image_lib \<Rightarrow> (nat \<Rightarrow> 'b) \<Rightarrow> nat list \<Rightarrow> 'b disk \<Rightarrow> unit result \<times> 'b disk" where
  "write_icons lib png [] d = (Inr (), d)"
| "write_icons lib png (n # ns) d =
     (case png_to_ico lib [png n] of Inl e \<Rightarrow> (Inl e, d)
      | Inr ico \<Rightarrow> write_icons lib png ns (d(icon_path n \<mapsto> ico)))"

definition generate_sizes :: "nat list" where
  "generate_sizes = [16]"

definition generate_main :: "'b image_lib \<Rightarrow> 'b disk \<Rightarrow> unit result \<times> 'b disk" where
  "generate_main lib d =
     (case render_sizes lib generate_sizes Map.empty of Inl e \<Rightarrow> (Inl e, d)
      | Inr m \<Rightarrow>
          (case write_icons lib (\<lambda>n. the (m n)) generate_sizes d of (Inl e, d1) \<Rightarrow> (Inl e, d1)
           | (Inr _, d1) \<Rightarrow>
               (case png_to_ico lib (map (\<lambda>n. the (m n)) generate_sizes) of Inl e \<Rightarrow> (Inl e, d1)
                | Inr ico \<Rightarrow> (Inr (), d1(main_icon_path \<mapsto> ico)))))"

section \<open>resize-ico-from-256.mjs\<close>

definition area :: "'b image \<Rightarrow> nat" where
  "area im = im_width im * im_height im"

text \<open>\<open>images.reduce((acc, cur) => cur.width * cur.height > acc.width * acc.height ? cur : acc)\<close>\<close>

definition largest :: "'b image \<Rightarrow> 'b image list \<Rightarrow> 'b image" where
  "largest im ims = foldl (\<lambda>acc cur. if area acc < area cur then cur else acc) im ims"

definition loadBasePngBuffer :: "'b image_lib \<Rightarrow> 'b disk \<Rightarrow> 'b result" where
  "loadBasePngBuffer lib d =
     (let icoPath = (if d (icon_path 256) = None then main_icon_path else icon_path 256) in
      case d icoPath of None \<Rightarrow> Inl (Rejected (js ''No ICO source found''))
      | Some buf \<Rightarrow>
          (case parse_ico lib buf of Inl e \<Rightarrow> Inl e
           | Inr [] \<Rightarrow> Inl (Rejected (js ''Failed to parse ICO''))
           | Inr (im # ims) \<Rightarrow> Inr (im_buffer (largest im ims))))"

definition resize_sizes :: "nat list" where
  "resize_sizes = [128, 64, 32, 16]"

fun write_resized :: "'b image_lib \<Rightarrow> 'b \<Rightarrow> nat list \<Rightarrow> 'b disk \<Rightarrow> unit result \<times> 'b disk" where
  "write_resized lib base [] d = (Inr (), d)"
| "write_resized lib base (n # ns) d =
     (case resize_png lib base n of Inl e \<Rightarrow> (Inl e, d)
      | Inr png \<Rightarrow>
          (case png_to_ico lib [png] of Inl e \<Rightarrow> (Inl e, d)
           | Inr ico \<Rightarrow> write_resized lib base ns (d(icon_path n \<mapsto> ico))))"

definition resize_main :: "'b image_lib \<Rightarrow> 'b disk \<Rightarrow> unit result \<times> 'b disk" where
  "resize_main lib d =
     (case loadBasePngBuffer lib d of Inl e \<Rightarrow> (Inl e, d) | Inr base \<Rightarrow> write_resized lib base resize_sizes d)"

text \<open>\<open>main().catch(...)\<close>: a failure is printed and the process ends with the exit code 1.\<close>

definition generate_exit :: "'b image_lib \<Rightarrow> 'b disk \<Rightarrow> nat" where
  "generate_exit lib d = (case fst (generate_main lib d) of Inl _ \<Rightarrow> 1 | Inr _ \<Rightarrow> 0)"

definition resize_exit :: "'b image_lib \<Rightarrow> 'b disk \<Rightarrow> nat" where
  "resize_exit lib d = (case fst (resize_main lib d) of Inl _ \<Rightarrow> 1 | Inr _ \<Rightarrow> 0)"

section \<open>Lemmas\<close>

lemma largest_spec:
  "largest im ims \<in> set (im # ims) \<and> (\<forall>x\<in>set (im # ims). area x \<le> area (largest im ims))"
proof (induction ims arbitrary: im)
  case (Cons a ims)
  from Cons [of a] Cons [of im] show ?case by (auto simp: largest_def)
qed (simp add: largest_def)

lemma write_resized_frame:
  "snd (write_resized lib base ns d) p = d p \<or> p \<in> icon_path ` set ns"
  by (induction ns arbitrary: d) (auto split: sum.splits, (metis fun_upd_other)+)

lemma write_resized_all:
  "write_resized lib base ns d = (Inr (), d') \<Longrightarrow> n \<in> set ns \<Longrightarrow> d' (icon_path n) \<noteq> None"
proof (induction ns arbitrary: d n)
  case (Cons k ns)
  from Cons.prems obtain ico where step: "write_resized lib base ns (d(icon_path k \<mapsto> ico)) = (Inr (), d')"
    by (auto split: sum.splits)
  show ?case
  proof (cases "n \<in> set ns")
    case False
    then have "n = k" using Cons.prems by simp
    have "d' (icon_path k) = (d(icon_path k \<mapsto> ico)) (icon_path k) \<or> icon_path k \<in> icon_path ` set ns"
      using write_resized_frame [of lib base ns "d(icon_path k \<mapsto> ico)" "icon_path k"] step by simp
    then show ?thesis using Cons.IH [OF step] \<open>n = k\<close> by auto
  qed (use Cons.IH [OF step] in blast)
qed simp

text \<open>A library whose images are numbers: an icon packs to the sum of its images.\<close>

definition number_lib :: "nat image_lib" where
  "number_lib = \<lparr>render_svg = (\<lambda>t. Inr (length t)), resize_png = (\<lambda>b n. Inr (b + n)), png_to_ico = (\<lambda>bs. Inr (sum_list bs)),
     parse_ico = (\<lambda>b. Inr [\<lparr>im_width = 2, im_height = 2, im_buffer = b\<rparr>, \<lparr>im_width = 3, im_height = 3, im_buffer = b + 1\<rparr>])\<rparr>"

section \<open>Properties\<close>

text \<open>
  The resize script, when it succeeds, has taken a largest image of the source icon and
  written an icon of each size; whether or not it succeeds, it changes no file but those four,
  and without a source icon it changes nothing.
\<close>

theorem resize_main_correct:
  "(fst (resize_main lib d) = Inr () \<longrightarrow>
      (\<exists>src buf ims im. (src = icon_path 256 \<or> src = main_icon_path) \<and> d src = Some buf \<and> parse_ico lib buf = Inr ims
         \<and> im \<in> set ims \<and> (\<forall>x\<in>set ims. area x \<le> area im) \<and> loadBasePngBuffer lib d = Inr (im_buffer im))
      \<and> (\<forall>n\<in>{128, 64, 32, 16}. snd (resize_main lib d) (icon_path n) \<noteq> None))
   \<and> (\<forall>p. p \<notin> icon_path ` {128, 64, 32, 16} \<longrightarrow> snd (resize_main lib d) p = d p)
   \<and> (d (icon_path 256) = None \<and> d main_icon_path = None \<longrightarrow> isl (fst (resize_main lib d)) \<and> snd (resize_main lib d) = d)"
proof (intro conjI impI)
  have sizes: "set resize_sizes = {128, 64, 32, 16}" by (auto simp: resize_sizes_def)
  assume ok: "fst (resize_main lib d) = Inr ()"
  then obtain base where base: "loadBasePngBuffer lib d = Inr base"
    by (auto simp: resize_main_def split: sum.splits)
  with ok have w: "write_resized lib base resize_sizes d = (Inr (), snd (resize_main lib d))"
    by (auto simp: resize_main_def prod_eq_iff)
  then show "\<forall>n\<in>{128, 64, 32, 16}. snd (resize_main lib d) (icon_path n) \<noteq> None"
    using write_resized_all [OF w] sizes by blast
  obtain src buf im ims where "src = icon_path 256 \<or> src = main_icon_path" "d src = Some buf"
    "parse_ico lib buf = Inr (im # ims)" "base = im_buffer (largest im ims)"
    using base by (auto simp: loadBasePngBuffer_def Let_def split: option.splits sum.splits list.splits if_splits)
  with largest_spec [of im ims] base show "\<exists>src buf ims im. (src = icon_path 256 \<or> src = main_icon_path)
      \<and> d src = Some buf \<and> parse_ico lib buf = Inr ims \<and> im \<in> set ims \<and> (\<forall>x\<in>set ims. area x \<le> area im)
      \<and> loadBasePngBuffer lib d = Inr (im_buffer im)" by blast
next
  have sizes: "set resize_sizes = {128, 64, 32, 16}" by (auto simp: resize_sizes_def)
  show "\<forall>p. p \<notin> icon_path ` {128, 64, 32, 16} \<longrightarrow> snd (resize_main lib d) p = d p"
    using write_resized_frame [of lib _ resize_sizes d, unfolded sizes]
    by (simp add: resize_main_def split: sum.splits) blast
qed (auto simp: resize_main_def loadBasePngBuffer_def)

theorem resize_main_correct_witness:
  "snd (resize_main number_lib [main_icon_path \<mapsto> 5]) (icon_path 32) \<noteq> None"
proof -
  have "main_icon_path \<noteq> icon_path 256" by code_simp
  then have "fst (resize_main number_lib [main_icon_path \<mapsto> 5]) = Inr ()"
    by (simp add: resize_main_def loadBasePngBuffer_def number_lib_def resize_sizes_def)
  with resize_main_correct [of number_lib "[main_icon_path \<mapsto> 5]"] show ?thesis by blast
qed

end
