(* ===== verification/Scanner.thy ===== *)
theory Scanner
  imports Types "HOL-Library.Word" "HOL-Library.Sublist"
begin

text \<open>
  \<open>src-tauri/src/scanner.rs\<close> and the command \<open>scan_paths_progress\<close> of \<open>main.rs\<close>: the walk
  over the root directories. The directory walk of the library \<open>walkdir\<close> is a parameter, a
  function from a root and the link option to the entries it yields. An entry carries what
  the calls of the loop body return while it is visited, the two readings of the clock
  included. Sizes are 64 bit words, the limit in bytes wraps around as it does in a release
  build. Of the log lines only the sampling counts: it divides by a number of an environment
  variable, and a zero there makes the loop panic, which is the value \<open>None\<close>.
\<close>

section \<open>Data\<close>

record RustFile =
  rf_path :: js_string
  rf_file_name :: js_string
  rf_ext :: js_string
  rf_size :: "64 word"
  rf_modified_ts :: int

record ScanOptions =
  sc_roots :: "js_string list"
  sc_exclude_patterns :: "js_string list"
  sc_max_file_size_mb :: "64 word option"
  sc_follow_symlinks :: bool

text \<open>
  Metadata: the length and the time of the last change in nanoseconds since 1970, if the
  platform has it.
\<close>

record metadata =
  md_len :: "64 word"
  md_modified :: "int option"

text \<open>
  An entry: the results of \<open>is_file()\<close>, \<open>to_str()\<close>, \<open>metadata()\<close>, \<open>file_name()\<close> and
  \<open>extension()\<close> with their conversions, and the clock when \<open>elapsed()\<close> and then
  \<open>Utc::now()\<close> read it.
\<close>

record dir_entry =
  en_is_file :: bool
  en_path :: "js_string option"
  en_metadata :: "metadata option"
  en_file_name :: "js_string option"
  en_extension :: "js_string option"
  en_elapsed_at :: int
  en_now_at :: int

datatype walk_item = WalkError | WalkEntry dir_entry

record scan_env =
  walk :: "js_string \<Rightarrow> bool \<Rightarrow> walk_item list"
  lower_case :: "js_string \<Rightarrow> js_string"
  scan_sample_var :: "js_string option"

section \<open>The sampling rate of the log\<close>

text \<open>\<open>str::parse::<usize>\<close>: decimal digits after an optional plus sign, below \<open>2 ^ 64\<close>.\<close>

definition parse_usize :: "js_string \<Rightarrow> nat option" where
  "parse_usize v =
     (let ds = (case v of [] \<Rightarrow> [] | c # cs \<Rightarrow> if c = 43 then cs else v);
          n = foldl (\<lambda>a c. 10 * a + nat (c - 48)) 0 ds
      in if ds \<noteq> [] \<and> list_all (\<lambda>c. 48 \<le> c \<and> c \<le> 57) ds \<and> n < 2 ^ 64 then Some n else None)"

definition sample_every :: "js_string option \<Rightarrow> nat \<Rightarrow> nat" where
  "sample_every var default_rate =
     (case Option.bind var parse_usize of None \<Rightarrow> default_rate | Some n \<Rightarrow> n)"

section \<open>One entry\<close>

definition secs :: "int \<Rightarrow> int" where
  "secs ns = ns div 1000000000"

text \<open>\<open>m * 1024 * 1024\<close>\<close>

definition max_bytes :: "64 word option \<Rightarrow> 64 word option" where
  "max_bytes mb = map_option (\<lambda>m. m * 1024 * 1024) mb"

definition excluded :: "js_string list \<Rightarrow> js_string \<Rightarrow> bool" where
  "excluded patterns path \<longleftrightarrow> list_ex (\<lambda>p. sublist p path) patterns"

definition too_large :: "64 word option \<Rightarrow> 64 word \<Rightarrow> bool" where
  "too_large limit len = (case limit of None \<Rightarrow> False | Some mb \<Rightarrow> mb < len)"

text \<open>
  \<open>elapsed()\<close> fails for a time in the future; otherwise the whole seconds that have passed
  are subtracted from the current second.
\<close>

definition elapsed_ts :: "dir_entry \<Rightarrow> metadata \<Rightarrow> int" where
  "elapsed_ts e md =
     (case md_modified md of None \<Rightarrow> 0
      | Some t \<Rightarrow> if en_elapsed_at e < t then 0 else secs (en_now_at e) - secs (en_elapsed_at e - t))"

text \<open>The body of the loop of \<open>scan\<close>, up to the \<open>push\<close>; \<open>None\<close> is a \<open>continue\<close>.\<close>

definition visit :: "scan_env \<Rightarrow> ScanOptions \<Rightarrow> 64 word option \<Rightarrow> walk_item \<Rightarrow> RustFile option" where
  "visit env opts limit item =
     (case item of WalkError \<Rightarrow> None
      | WalkEntry e \<Rightarrow>
          if \<not> en_is_file e then None
          else case en_path e of None \<Rightarrow> None
          | Some path \<Rightarrow>
              if excluded (sc_exclude_patterns opts) path then None
              else case en_metadata e of None \<Rightarrow> None
              | Some md \<Rightarrow>
                  if too_large limit (md_len md) then None
                  else Some \<lparr>rf_path = path, rf_file_name = (case en_file_name e of None \<Rightarrow> [] | Some n \<Rightarrow> n),
                    rf_ext = lower_case env (case en_extension e of None \<Rightarrow> [] | Some x \<Rightarrow> x),
                    rf_size = md_len md, rf_modified_ts = elapsed_ts e md\<rparr>)"

section \<open>The loops\<close>

text \<open>\<open>if scanned_files % sample_every == 0\<close> panics for a rate of zero.\<close>

definition scan_rate :: "scan_env \<Rightarrow> nat" where
  "scan_rate env = sample_every (scan_sample_var env) 200"

fun scan_entries :: "scan_env \<Rightarrow> ScanOptions \<Rightarrow> 64 word option \<Rightarrow> walk_item list \<Rightarrow> RustFile list
    \<Rightarrow> RustFile list option" where
  "scan_entries env opts limit [] results = Some results"
| "scan_entries env opts limit (item # items) results =
     (case visit env opts limit item of
        None \<Rightarrow> scan_entries env opts limit items results
      | Some f \<Rightarrow> if scan_rate env = 0 then None else scan_entries env opts limit items (results @ [f]))"

fun scan_roots_loop :: "scan_env \<Rightarrow> ScanOptions \<Rightarrow> 64 word option \<Rightarrow> js_string list \<Rightarrow> RustFile list
    \<Rightarrow> RustFile list option" where
  "scan_roots_loop env opts limit [] results = Some results"
| "scan_roots_loop env opts limit (r # rs) results =
     Option.bind (scan_entries env opts limit (walk env r (sc_follow_symlinks opts)) results)
       (scan_roots_loop env opts limit rs)"

definition scan :: "scan_env \<Rightarrow> ScanOptions \<Rightarrow> RustFile list option" where
  "scan env opts = scan_roots_loop env opts (max_bytes (sc_max_file_size_mb opts)) (sc_roots opts) []"

text \<open>The events of a scan, with the fields of their payloads.\<close>

datatype scan_event = ScanProgress nat js_string js_string | ScanDone nat

fun progress_entries :: "scan_env \<Rightarrow> ScanOptions \<Rightarrow> 64 word option \<Rightarrow> walk_item list
    \<Rightarrow> RustFile list \<times> scan_event list \<Rightarrow> RustFile list option \<times> scan_event list" where
  "progress_entries env opts limit [] (results, events) = (Some results, events)"
| "progress_entries env opts limit (item # items) (results, events) =
     (case visit env opts limit item of
        None \<Rightarrow> progress_entries env opts limit items (results, events)
      | Some f \<Rightarrow>
          if scan_rate env = 0 then (None, events)
          else let results' = results @ [f] in
            progress_entries env opts limit items
              (results', events @ [ScanProgress (length results') (rf_path f) (rf_file_name f)]))"

fun progress_roots :: "scan_env \<Rightarrow> ScanOptions \<Rightarrow> 64 word option \<Rightarrow> js_string list
    \<Rightarrow> RustFile list \<times> scan_event list \<Rightarrow> RustFile list option \<times> scan_event list" where
  "progress_roots env opts limit [] (results, events) = (Some results, events)"
| "progress_roots env opts limit (r # rs) (results, events) =
     (case progress_entries env opts limit (walk env r (sc_follow_symlinks opts)) (results, events) of
        (None, events') \<Rightarrow> (None, events')
      | (Some results', events') \<Rightarrow> progress_roots env opts limit rs (results', events'))"

definition scan_paths_progress :: "scan_env \<Rightarrow> ScanOptions \<Rightarrow> RustFile list option \<times> scan_event list" where
  "scan_paths_progress env opts =
     (case progress_roots env opts (max_bytes (sc_max_file_size_mb opts)) (sc_roots opts) ([], []) of
        (None, events) \<Rightarrow> (None, events)
      | (Some results, events) \<Rightarrow> (Some results, events @ [ScanDone (length results)]))"

section \<open>The scan as a list of visits\<close>

definition all_items :: "scan_env \<Rightarrow> ScanOptions \<Rightarrow> walk_item list" where
  "all_items env opts = concat (map (\<lambda>r. walk env r (sc_follow_symlinks opts)) (sc_roots opts))"

definition numbered_progress :: "RustFile list \<Rightarrow> scan_event list" where
  "numbered_progress fs = map (\<lambda>(i, f). ScanProgress i (rf_path f) (rf_file_name f)) (enumerate 1 fs)"

definition found_files :: "scan_env \<Rightarrow> ScanOptions \<Rightarrow> RustFile list" where
  "found_files env opts =
     List.map_filter (visit env opts (max_bytes (sc_max_file_size_mb opts))) (all_items env opts)"

lemma map_filter_append: "List.map_filter f (xs @ ys) = List.map_filter f xs @ List.map_filter f ys"
  by (simp add: List.map_filter_def)

lemma scan_entries_spec:
  "scan_entries env opts limit items results =
     (if scan_rate env = 0 \<and> List.map_filter (visit env opts limit) items \<noteq> [] then None
      else Some (results @ List.map_filter (visit env opts limit) items))"
  by (induction items arbitrary: results) (auto simp: map_filter_simps split: option.split)

lemma scan_roots_spec:
  "scan_roots_loop env opts limit rs results =
     (let fs = List.map_filter (visit env opts limit) (concat (map (\<lambda>r. walk env r (sc_follow_symlinks opts)) rs))
      in if scan_rate env = 0 \<and> fs \<noteq> [] then None else Some (results @ fs))"
  by (induction rs arbitrary: results)
    (auto simp: scan_entries_spec map_filter_append map_filter_simps Let_def)

lemma scan_spec:
  "scan env opts = (if scan_rate env = 0 \<and> found_files env opts \<noteq> [] then None else Some (found_files env opts))"
  by (simp add: scan_def scan_roots_spec all_items_def found_files_def Let_def)

lemma numbered_snoc:
  "numbered_progress (fs @ [f]) = numbered_progress fs @ [ScanProgress (Suc (length fs)) (rf_path f) (rf_file_name f)]"
  by (simp add: numbered_progress_def enumerate_append_eq)

lemma progress_entries_spec:
  "scan_rate env \<noteq> 0 \<Longrightarrow> progress_entries env opts limit items (results, numbered_progress results) =
     (let rs = results @ List.map_filter (visit env opts limit) items in (Some rs, numbered_progress rs))"
  by (induction items arbitrary: results)
    (auto simp: Let_def map_filter_simps numbered_snoc [symmetric] split: option.split)

lemma progress_entries_panic:
  "scan_rate env = 0 \<Longrightarrow> progress_entries env opts limit items (results, events) =
     (if List.map_filter (visit env opts limit) items \<noteq> [] then (None, events) else (Some results, events))"
  by (induction items arbitrary: results) (auto simp: map_filter_simps split: option.split)

lemma progress_roots_spec:
  "progress_roots env opts limit roots (results, numbered_progress results) =
     (let fs = List.map_filter (visit env opts limit) (concat (map (\<lambda>r. walk env r (sc_follow_symlinks opts)) roots))
      in if scan_rate env = 0 \<and> fs \<noteq> [] then (None, numbered_progress results)
         else (Some (results @ fs), numbered_progress (results @ fs)))"
proof (induction roots arbitrary: results)
  case (Cons r rs)
  show ?case
  proof (cases "scan_rate env = 0")
    case True
    with Cons [of results] show ?thesis
      by (auto simp: progress_entries_panic map_filter_append Let_def)
  next
    case False
    with Cons show ?thesis by (simp add: progress_entries_spec map_filter_append Let_def)
  qed
qed (simp add: map_filter_simps)

lemma visit_Some_iff:
  "visit env opts limit item = Some f \<longleftrightarrow>
     (\<exists>e path md. item = WalkEntry e \<and> en_is_file e \<and> en_path e = Some path \<and> en_metadata e = Some md
        \<and> \<not> excluded (sc_exclude_patterns opts) path \<and> \<not> too_large limit (md_len md)
        \<and> f = \<lparr>rf_path = path, rf_file_name = (case en_file_name e of None \<Rightarrow> [] | Some n \<Rightarrow> n),
              rf_ext = lower_case env (case en_extension e of None \<Rightarrow> [] | Some x \<Rightarrow> x),
              rf_size = md_len md, rf_modified_ts = elapsed_ts e md\<rparr>)"
  by (auto simp: visit_def split: walk_item.splits option.splits)

lemma within_limit:
  "(\<not> too_large (max_bytes mb) n) =
     (case mb of None \<Rightarrow> True | Some m \<Rightarrow> uint n \<le> (uint m * 1048576) mod 2 ^ 64)"
  by (cases mb) (auto simp: too_large_def max_bytes_def not_less word_le_def uint_word_ariths mult.assoc
      mod_mult_left_eq)

text \<open>A file whose path is visited under two positions of the root list is found twice.\<close>

lemma count_map_filter:
  "count_list (List.map_filter f xs) y = length (filter (\<lambda>x. f x = Some y) xs)"
  by (induction xs) (auto simp: map_filter_simps split: option.split)

lemma secs_diff:
  "secs a - secs b - 1 \<le> secs (a - b)" "secs (a - b) \<le> secs a - secs b"
proof -
  have m: "a = secs a * 1000000000 + a mod 1000000000" "b = secs b * 1000000000 + b mod 1000000000"
    by (simp_all add: secs_def)
  define x y where "x = a mod 1000000000" and "y = b mod 1000000000"
  have "0 \<le> x" "x < 1000000000" "0 \<le> y" "y < 1000000000" by (simp_all add: x_def y_def)
  moreover have "secs (a - b) = ((secs a - secs b) * 1000000000 + (x - y)) div 1000000000"
    using m by (simp add: secs_def x_def y_def algebra_simps)
  moreover have "((secs a - secs b) * 1000000000 + (x - y)) div 1000000000 = (secs a - secs b) + (x - y) div 1000000000"
    by simp
  moreover have "- 1 * 1000000000 div 1000000000 \<le> (x - y) div 1000000000" "(x - y) div 1000000000 \<le> 999999999 div 1000000000"
    using calculation by (intro zdiv_mono1; simp)+
  ultimately show "secs a - secs b - 1 \<le> secs (a - b)" "secs (a - b) \<le> secs a - secs b" by simp_all
qed

text \<open>One root with one text file of three bytes, changed half a second after 1970 began.\<close>

definition sample_entry :: "int \<Rightarrow> int \<Rightarrow> dir_entry" where
  "sample_entry el now = \<lparr>en_is_file = True, en_path = Some (js ''/d/a.TXT''),
     en_metadata = Some \<lparr>md_len = 3, md_modified = Some 500000000\<rparr>, en_file_name = Some (js ''a.TXT''),
     en_extension = Some (js ''TXT''), en_elapsed_at = el, en_now_at = now\<rparr>"

definition sample_env :: scan_env where
  "sample_env = \<lparr>walk = (\<lambda>r b. [WalkError, WalkEntry (sample_entry 1700000000 1700000000)]),
     lower_case = map ascii_lower, scan_sample_var = None\<rparr>"

definition sample_opts :: "js_string list \<Rightarrow> ScanOptions" where
  "sample_opts rs = \<lparr>sc_roots = rs, sc_exclude_patterns = [], sc_max_file_size_mb = Some 500,
     sc_follow_symlinks = False\<rparr>"

section \<open>Properties\<close>

text \<open>
  C22. The scan of the backend is exact, and its progress events number the files it returns:
  the command with events returns the same list as the plain scan and reports the files 1, 2,
  3, ... in this order, then their number. A file is in the list exactly when the walk of some
  root yields it as a regular file with a readable path and metadata, no exclude pattern
  occurs in its path, and its size is at most the limit in bytes, a product that is taken
  modulo \<open>2 ^ 64\<close>. The one exception is a sampling rate of zero in the environment, with
  which both panic at the first file.
\<close>

theorem scan_exact:
  "scan_paths_progress env opts =
       (if scan_rate env = 0 \<and> found_files env opts \<noteq> [] then (None, [])
        else (Some (found_files env opts),
              numbered_progress (found_files env opts) @ [ScanDone (length (found_files env opts))]))
   \<and> scan env opts = fst (scan_paths_progress env opts)
   \<and> (f \<in> set (found_files env opts) \<longleftrightarrow>
       (\<exists>r e path md. r \<in> set (sc_roots opts) \<and> WalkEntry e \<in> set (walk env r (sc_follow_symlinks opts))
          \<and> en_is_file e \<and> en_path e = Some path \<and> en_metadata e = Some md
          \<and> \<not> list_ex (\<lambda>p. sublist p path) (sc_exclude_patterns opts)
          \<and> (case sc_max_file_size_mb opts of None \<Rightarrow> True
             | Some m \<Rightarrow> uint (md_len md) \<le> (uint m * 1048576) mod 2 ^ 64)
          \<and> f = \<lparr>rf_path = path, rf_file_name = (case en_file_name e of None \<Rightarrow> [] | Some n \<Rightarrow> n),
                rf_ext = lower_case env (case en_extension e of None \<Rightarrow> [] | Some x \<Rightarrow> x),
                rf_size = md_len md, rf_modified_ts = elapsed_ts e md\<rparr>))"
proof (intro conjI)
  have "numbered_progress [] = []" by (simp add: numbered_progress_def)
  then show p: "scan_paths_progress env opts =
       (if scan_rate env = 0 \<and> found_files env opts \<noteq> [] then (None, [])
        else (Some (found_files env opts),
              numbered_progress (found_files env opts) @ [ScanDone (length (found_files env opts))]))"
    using progress_roots_spec [of env opts "max_bytes (sc_max_file_size_mb opts)" "sc_roots opts" "[]"]
    by (simp add: scan_paths_progress_def found_files_def all_items_def Let_def)
  show "scan env opts = fst (scan_paths_progress env opts)" by (simp add: p scan_spec)
  have "f \<in> set (found_files env opts) \<longleftrightarrow>
      (\<exists>item\<in>set (all_items env opts). visit env opts (max_bytes (sc_max_file_size_mb opts)) item = Some f)"
    by (force simp: found_files_def List.map_filter_def)
  then show "f \<in> set (found_files env opts) \<longleftrightarrow>
       (\<exists>r e path md. r \<in> set (sc_roots opts) \<and> WalkEntry e \<in> set (walk env r (sc_follow_symlinks opts))
          \<and> en_is_file e \<and> en_path e = Some path \<and> en_metadata e = Some md
          \<and> \<not> list_ex (\<lambda>p. sublist p path) (sc_exclude_patterns opts)
          \<and> (case sc_max_file_size_mb opts of None \<Rightarrow> True
             | Some m \<Rightarrow> uint (md_len md) \<le> (uint m * 1048576) mod 2 ^ 64)
          \<and> f = \<lparr>rf_path = path, rf_file_name = (case en_file_name e of None \<Rightarrow> [] | Some n \<Rightarrow> n),
                rf_ext = lower_case env (case en_extension e of None \<Rightarrow> [] | Some x \<Rightarrow> x),
                rf_size = md_len md, rf_modified_ts = elapsed_ts e md\<rparr>)"
    unfolding visit_Some_iff within_limit excluded_def all_items_def by fastforce
qed

text \<open>
  The time a scan records for a file is the second of its last change, or up to two
  seconds more: it is computed from two readings of the clock, at most a second apart, and
  each rounds down. The same unchanged file can therefore get different times in two scans,
  as the two readings of the example show.
\<close>

theorem scan_timestamp_drift:
  assumes "md_modified md = Some t" "t \<le> en_elapsed_at e" "en_elapsed_at e \<le> en_now_at e"
    and "en_now_at e \<le> en_elapsed_at e + 1000000000"
  shows "secs t \<le> elapsed_ts e md \<and> elapsed_ts e md \<le> secs t + 2"
proof -
  have "secs (en_elapsed_at e) \<le> secs (en_now_at e)" unfolding secs_def by (rule zdiv_mono1) (use assms in auto)
  moreover have "secs (en_now_at e) \<le> secs (en_elapsed_at e + 1 * 1000000000)"
    unfolding secs_def by (rule zdiv_mono1) (use assms in auto)
  moreover have "secs (en_elapsed_at e + 1 * 1000000000) = secs (en_elapsed_at e) + 1"
    by (simp add: secs_def)
  ultimately show ?thesis
    using assms secs_diff [of "en_elapsed_at e" t] by (auto simp: elapsed_ts_def)
qed

theorem scan_timestamp_drift_witness:
  "\<exists>e e' md. md_modified md = Some 500000000 \<and> elapsed_ts e md \<noteq> elapsed_ts e' md
     \<and> elapsed_ts e md \<le> 2 \<and> elapsed_ts e' md \<le> 2"
proof -
  let ?e = "sample_entry 1700000000 1700000000" and ?e' = "sample_entry 2400000000 2400000000"
  let ?md = "\<lparr>md_len = 3, md_modified = Some 500000000\<rparr>"
  have "elapsed_ts ?e ?md \<noteq> elapsed_ts ?e' ?md" by code_simp
  moreover have "secs 500000000 = 0" by code_simp
  ultimately show ?thesis
    using scan_timestamp_drift [of ?md 500000000 ?e] scan_timestamp_drift [of ?md 500000000 ?e']
    by (intro exI [of _ ?e] exI [of _ ?e'] exI [of _ ?md]) (simp add: sample_entry_def)
qed

end
