(* ===== verification/Utf8.thy ===== *)
theory Utf8
  imports Prelude "HOL-Library.Word"
begin

text \<open>
  Rust's two decoders of file content: \<open>String::from_utf8\<close>, which fails on malformed bytes,
  and \<open>String::from_utf8_lossy\<close>, which puts U+FFFD for each maximal malformed part. A Rust
  string is a list of Unicode scalar values here. The backend decodes the first million bytes
  of a file, so that what matters is how the decoders treat a text that was cut.
\<close>

section \<open>Decoding\<close>

type_synonym byte = "8 word"

text \<open>The number of bytes of the sequence that a byte leads, 0 if it leads none.\<close>

definition seq_len :: "int \<Rightarrow> nat" where
  "seq_len b = (if b < 0x80 then 1 else if b < 0xC2 then 0 else if b < 0xE0 then 2
     else if b < 0xF0 then 3 else if b < 0xF5 then 4 else 0)"

definition lead_bits :: "int \<Rightarrow> int" where
  "lead_bits b = (case seq_len b of Suc (Suc 0) \<Rightarrow> b - 0xC0 | Suc (Suc (Suc 0)) \<Rightarrow> b - 0xE0
     | Suc (Suc (Suc (Suc 0))) \<Rightarrow> b - 0xF0 | _ \<Rightarrow> b)"

definition is_cont :: "int \<Rightarrow> bool" where
  "is_cont b \<longleftrightarrow> 0x80 \<le> b \<and> b \<le> 0xBF"

text \<open>The second byte has a smaller range after four leads: no overlong forms, no surrogates.\<close>

definition second_ok :: "int \<Rightarrow> int \<Rightarrow> bool" where
  "second_ok b0 b \<longleftrightarrow> is_cont b \<and> (b0 = 0xE0 \<longrightarrow> 0xA0 \<le> b) \<and> (b0 = 0xED \<longrightarrow> b \<le> 0x9F)
     \<and> (b0 = 0xF0 \<longrightarrow> 0x90 \<le> b) \<and> (b0 = 0xF4 \<longrightarrow> b \<le> 0x8F)"

text \<open>The valid continuation bytes after a lead, at most as many as it needs.\<close>

definition conts :: "int \<Rightarrow> int list \<Rightarrow> int list" where
  "conts b0 bs = (case take (seq_len b0 - 1) bs of [] \<Rightarrow> []
     | b # r \<Rightarrow> if second_ok b0 b then b # takeWhile is_cont r else [])"

text \<open>One character or one malformed part, and what follows it.\<close>

definition next_char :: "int \<Rightarrow> int list \<Rightarrow> int option \<times> int list" where
  "next_char b0 bs =
     (let cs = conts b0 bs
      in (if 0 < seq_len b0 \<and> length cs = seq_len b0 - 1
          then Some (foldl (\<lambda>a c. a * 64 + (c - 0x80)) (lead_bits b0) cs) else None,
          drop (length cs) bs))"

function utf8_chunks :: "int list \<Rightarrow> int option list" where
  "utf8_chunks [] = []"
| "utf8_chunks (b # bs) = (case next_char b bs of (c, rest) \<Rightarrow> c # utf8_chunks rest)"
  by pat_completeness auto

termination utf8_chunks
  by (relation "measure length") (auto simp: next_char_def Let_def)

definition from_utf8 :: "byte list \<Rightarrow> int list option" where
  "from_utf8 bytes = those (utf8_chunks (map uint bytes))"

definition from_utf8_lossy :: "byte list \<Rightarrow> int list" where
  "from_utf8_lossy bytes =
     map (\<lambda>c. case c of None \<Rightarrow> 0xFFFD | Some c \<Rightarrow> c) (utf8_chunks (map uint bytes))"

section \<open>Encoding\<close>

definition scalar :: "int \<Rightarrow> bool" where
  "scalar c \<longleftrightarrow> 0 \<le> c \<and> c < 0xD800 \<or> 0xE000 \<le> c \<and> c \<le> 0x10FFFF"

definition encode_char :: "int \<Rightarrow> int list" where
  "encode_char c =
     (if c < 0x80 then [c]
      else if c < 0x800 then [0xC0 + c div 64, 0x80 + c mod 64]
      else if c < 0x10000 then [0xE0 + c div 4096, 0x80 + c div 64 mod 64, 0x80 + c mod 64]
      else [0xF0 + c div 262144, 0x80 + c div 4096 mod 64, 0x80 + c div 64 mod 64, 0x80 + c mod 64])"

definition utf8 :: "int list \<Rightarrow> byte list" where
  "utf8 t = map word_of_int (concat (map encode_char t))"

lemma encode_char_bytes: "scalar c \<Longrightarrow> b \<in> set (encode_char c) \<Longrightarrow> 0 \<le> b \<and> b < 256"
  by (auto simp: encode_char_def scalar_def split: if_splits)

lemma encode_char_nonempty [simp]: "encode_char c \<noteq> []"
  by (simp add: encode_char_def)

lemma uint_utf8: "list_all scalar t \<Longrightarrow> map uint (utf8 t) = concat (map encode_char t)"
proof (induction t)
  case (Cons c t)
  have "map uint (map word_of_int (encode_char c) :: byte list) = encode_char c"
    using encode_char_bytes [of c] Cons.prems
    by (auto simp: map_idI uint_word_of_int intro!: map_idI)
  with Cons show ?case by (simp add: utf8_def)
qed (simp add: utf8_def)

text \<open>The digits of a character to the base 64.\<close>

lemma base_64:
  fixes c :: int
  shows "c div 64 * 64 + c mod 64 = c" "c div 4096 * 64 + c div 64 mod 64 = c div 64"
    "c div 262144 * 64 + c div 4096 mod 64 = c div 4096"
proof -
  show "c div 64 * 64 + c mod 64 = c" by simp
  have "c div 4096 = c div 64 div 64" "c div 262144 = c div 4096 div 64"
    by (simp_all flip: div_mult2_eq)
  then show "c div 4096 * 64 + c div 64 mod 64 = c div 64" "c div 262144 * 64 + c div 4096 mod 64 = c div 4096"
    by simp_all
qed

definition digits :: "int \<Rightarrow> int \<Rightarrow> int \<Rightarrow> int \<Rightarrow> int \<Rightarrow> bool" where
  "digits c d3 d2 d1 d0 \<longleftrightarrow> c = ((d3 * 64 + d2) * 64 + d1) * 64 + d0
     \<and> 0 \<le> d2 \<and> d2 < 64 \<and> 0 \<le> d1 \<and> d1 < 64 \<and> 0 \<le> d0 \<and> d0 < 64"

lemma digits_exist: "\<exists>d3 d2 d1 d0. digits c d3 d2 d1 d0"
  using base_64 [of c] unfolding digits_def
  by (intro exI [of _ "c div 262144"] exI [of _ "c div 4096 mod 64"] exI [of _ "c div 64 mod 64"]
      exI [of _ "c mod 64"]) (simp only: pos_mod_sign pos_mod_bound zero_less_numeral simp_thms)

lemma base_step: "(c::int) = q * 64 + d \<Longrightarrow> 0 \<le> d \<Longrightarrow> d < 64 \<Longrightarrow> c div 64 = q \<and> c mod 64 = d"
  using int_div_pos_eq [of c 64 q d] int_mod_pos_eq [of c 64 q d] by (simp add: mult.commute)

lemma digits_encode:
  assumes "digits c d3 d2 d1 d0"
  shows "encode_char c =
     (if c < 0x80 then [c] else if c < 0x800 then [0xC0 + c div 64, 0x80 + d0]
      else if c < 0x10000 then [0xE0 + c div 4096, 0x80 + d1, 0x80 + d0]
      else [0xF0 + d3, 0x80 + d2, 0x80 + d1, 0x80 + d0])"
    "c div 64 = (d3 * 64 + d2) * 64 + d1" "c div 4096 = d3 * 64 + d2"
proof -
  have d: "c div 64 = (d3 * 64 + d2) * 64 + d1" "c mod 64 = d0"
    using base_step [of c "(d3 * 64 + d2) * 64 + d1" d0] assms by (auto simp only: digits_def)
  have f: "c div 64 div 64 = d3 * 64 + d2" "c div 64 mod 64 = d1"
    using base_step [OF d(1)] assms by (auto simp only: digits_def)
  have g: "c div 64 div 64 div 64 = d3" "c div 64 div 64 mod 64 = d2"
    using base_step [OF f(1)] assms by (auto simp only: digits_def)
  have "c div 4096 = c div 64 div 64" "c div 262144 = c div 64 div 64 div 64"
    by (simp_all flip: div_mult2_eq)
  then have "c div 4096 = d3 * 64 + d2" "c div 4096 mod 64 = d2" "c div 262144 = d3"
    using f g by metis+
  with d(1,2) f(2) show "encode_char c =
     (if c < 0x80 then [c] else if c < 0x800 then [0xC0 + c div 64, 0x80 + d0]
      else if c < 0x10000 then [0xE0 + c div 4096, 0x80 + d1, 0x80 + d0]
      else [0xF0 + d3, 0x80 + d2, 0x80 + d1, 0x80 + d0])"
    "c div 64 = (d3 * 64 + d2) * 64 + d1" "c div 4096 = d3 * 64 + d2"
    by (simp_all only: encode_char_def)
qed

lemma conts_simps:
  "seq_len b = Suc 0 \<Longrightarrow> conts b bs = []"
  "conts b [] = []"
  "seq_len b = Suc (Suc n) \<Longrightarrow> second_ok b x \<Longrightarrow> conts b (x # bs) = x # takeWhile is_cont (take n bs)"
  by (simp_all add: conts_def)

text \<open>A whole sequence is decoded; a proper prefix of one is malformed and nothing remains.\<close>

text \<open>The shape of a sequence: its lead, and continuation bytes that carry the digits.\<close>

lemma encode_char_shape:
  assumes "scalar c" "encode_char c = b # bs"
  shows "seq_len b = Suc (length bs) \<and> list_all is_cont bs \<and> (bs \<noteq> [] \<longrightarrow> second_ok b (hd bs))
     \<and> foldl (\<lambda>a x. a * 64 + (x - 0x80)) (lead_bits b) bs = c"
proof -
  obtain d3 d2 d1 d0 where d: "digits c d3 d2 d1 d0" using digits_exist by blast
  note e = digits_encode [OF d] and d' = d [unfolded digits_def]
  consider "c < 0x80" | "0x80 \<le> c" "c < 0x800" | "0x800 \<le> c" "c < 0x10000" | "0x10000 \<le> c" by linarith
  then show ?thesis
  proof cases
    case 1
    then show ?thesis using assms by (auto simp: encode_char_def seq_len_def lead_bits_def)
  next
    case 2
    then have b: "b = 0xC0 + c div 64" "bs = [0x80 + d0]" using assms(2) e by auto
    have "seq_len b = 2" "second_ok b (0x80 + d0)"
      using 2 d' e(2) unfolding b seq_len_def second_ok_def is_cont_def by auto
    then show ?thesis using d' e(2) by (simp add: lead_bits_def b is_cont_def eval_nat_numeral)
  next
    case 3
    then have b: "b = 0xE0 + c div 4096" "bs = [0x80 + d1, 0x80 + d0]" using assms(2) e(1) by auto
    have "seq_len b = 3" "second_ok b (0x80 + d1)"
      using 3 d' e(3) assms(1) unfolding b seq_len_def second_ok_def is_cont_def scalar_def by auto
    then show ?thesis using d' e(3) by (simp add: lead_bits_def b is_cont_def eval_nat_numeral)
  next
    case 4
    then have b: "b = 0xF0 + d3" "bs = [0x80 + d2, 0x80 + d1, 0x80 + d0]" using assms(2) e(1) by auto
    have "seq_len b = 4" "second_ok b (0x80 + d2)"
      using 4 d' assms(1) unfolding b seq_len_def second_ok_def is_cont_def scalar_def by auto
    then show ?thesis using d' by (simp add: lead_bits_def b is_cont_def eval_nat_numeral)
  qed
qed

text \<open>A whole sequence is decoded; a proper prefix of one is malformed and nothing remains.\<close>

lemma conts_prefix:
  assumes "scalar c" "encode_char c = b # bs" "zs = bs @ rest \<or> zs = take k bs"
  shows "conts b zs = take (length zs) bs"
proof (cases bs)
  case Nil
  with encode_char_shape [OF assms(1,2)] show ?thesis by (simp add: conts_def)
next
  case (Cons x xs)
  note s = encode_char_shape [OF assms(1,2)]
  have "takeWhile is_cont ys = ys" if "set ys \<subseteq> set bs" for ys
    using s that by (auto simp: takeWhile_eq_all_conv list_all_iff)
  moreover have "take (seq_len b - 1) zs = take (length zs) bs"
    using s assms(3) by auto
  ultimately show ?thesis using s Cons
    by (auto simp: conts_def take_Cons' dest: in_set_takeD split: list.splits)
qed

lemma next_char_encode:
  assumes "scalar c" "encode_char c = b # bs"
  shows "next_char b (bs @ rest) = (Some c, rest)" "k < length bs \<Longrightarrow> next_char b (take k bs) = (None, [])"
  using encode_char_shape [OF assms] conts_prefix [OF assms, of "bs @ rest" rest]
    conts_prefix [OF assms, of "take k bs" _ k]
  by (auto simp: next_char_def Let_def)

section \<open>Whole and cut texts\<close>

lemma chunks_encode:
  "list_all scalar t \<Longrightarrow> utf8_chunks (concat (map encode_char t) @ rest) = map Some t @ utf8_chunks rest"
proof (induction t)
  case (Cons c t)
  obtain b bs where b: "encode_char c = b # bs" using encode_char_nonempty by (metis neq_Nil_conv)
  from next_char_encode(1) [OF _ b, of "concat (map encode_char t) @ rest"] Cons show ?case by (simp add: b)
qed simp

lemma chunks_cut:
  assumes "scalar c" "0 < k" "k < length (encode_char c)"
  shows "utf8_chunks (take k (encode_char c)) = [None]"
proof -
  obtain b bs where b: "encode_char c = b # bs" using encode_char_nonempty by (metis neq_Nil_conv)
  from next_char_encode(2) [OF assms(1) b, of "k - 1"] assms(2,3) show ?thesis
    by (simp add: b take_Cons')
qed

lemma those_map_Some [simp]: "those (map Some xs) = Some xs"
  by (induction xs) auto

lemma those_None: "None \<in> set xs \<Longrightarrow> those xs = None"
  by (induction xs) (auto split: option.splits)

text \<open>How many characters of a text its first \<open>n\<close> bytes hold completely.\<close>

fun fitting :: "nat \<Rightarrow> int list \<Rightarrow> nat" where
  "fitting n [] = 0"
| "fitting n (c # t) =
     (if length (encode_char c) \<le> n then Suc (fitting (n - length (encode_char c)) t) else 0)"

text \<open>The limit \<open>n\<close> falls between two bytes of one character.\<close>

definition splits_char :: "nat \<Rightarrow> int list \<Rightarrow> bool" where
  "splits_char n t \<longleftrightarrow> length (utf8 (take (fitting n t) t)) \<noteq> min n (length (utf8 t))"

lemma length_utf8: "length (utf8 t) = length (concat (map encode_char t))"
  by (simp add: utf8_def)

lemma chunks_take:
  assumes "list_all scalar t"
  shows "utf8_chunks (take n (concat (map encode_char t))) =
     map Some (take (fitting n t) t) @ (if splits_char n t then [None] else [])"
  using assms
proof (induction n t rule: fitting.induct)
  case (2 n c t)
  show ?case
  proof (cases "length (encode_char c) \<le> n")
    case True
    then have "splits_char n (c # t) = splits_char (n - length (encode_char c)) t"
      by (auto simp: splits_char_def length_utf8 min_def)
    with True 2 chunks_encode [of "[c]"] show ?thesis by simp
  next
    case False
    with chunks_cut [of c n] 2 show ?thesis
      by (cases "n = 0") (auto simp: splits_char_def length_utf8)
  qed
qed (simp add: splits_char_def length_utf8)

lemma from_utf8_take:
  assumes "list_all scalar t"
  shows "from_utf8 (take n (utf8 t)) = (if splits_char n t then None else Some (take (fitting n t) t))"
    and "from_utf8_lossy (take n (utf8 t)) = take (fitting n t) t @ (if splits_char n t then [0xFFFD] else [])"
  using chunks_take [OF assms, of n] uint_utf8 [OF assms]
  by (simp_all add: from_utf8_def from_utf8_lossy_def those_None o_def flip: take_map [of _ uint])

lemma fitting_all: "length (utf8 t) \<le> n \<Longrightarrow> fitting n t = length t \<and> \<not> splits_char n t"
  by (induction n t rule: fitting.induct) (auto simp: splits_char_def length_utf8)

text \<open>Where the strict decoder succeeds, the lossy one returns the same text.\<close>

lemma those_Some: "those cs = Some t \<Longrightarrow> cs = map Some t"
  by (induction cs arbitrary: t) (auto split: option.splits)

lemma lossy_strict: "from_utf8 bytes = Some t \<Longrightarrow> from_utf8_lossy bytes = t"
  by (auto simp: from_utf8_def from_utf8_lossy_def o_def dest!: those_Some)

end
