(* ===== verification/Dedup.thy ===== *)
theory Dedup
  imports Types Utf8 "HOL-Library.Multiset"
begin

text \<open>
  \<open>src-tauri/src/dedup.rs\<close>: the search for duplicate files by content and by name. What
  the operating system and the libraries provide is a record of parameters: the last
  component of a path, the reads of a file, the hash function with its hexadecimal form, and
  the order in which a \<open>HashMap\<close> is iterated, of which only is known that it visits every
  entry once.
\<close>

section \<open>The environment\<close>

text \<open>A file as the reads of the loop see it: each read fails or returns some bytes.\<close>

datatype file_entry = NoFile | OpenFails js_error | Reads "(js_error + byte list) list"

record dedup_env =
  file_name :: "js_string \<Rightarrow> js_string option"
  file_at :: "js_string \<Rightarrow> file_entry"
  hash_hex :: "byte list \<Rightarrow> js_string"
  iteration :: "(js_string \<times> js_string list) list \<Rightarrow> (js_string \<times> js_string list) list"

text \<open>\<open>loop { let n = file.read(&mut buf)?; if n == 0 { break; } hasher.update(&buf[..n]); }\<close>\<close>

fun read_all :: "byte list \<Rightarrow> (js_error + byte list) list \<Rightarrow> byte list result" where
  "read_all acc [] = Inr acc"
| "read_all acc (Inl e # rs) = Inl e"
| "read_all acc (Inr chunk # rs) = (if chunk = [] then Inr acc else read_all (acc @ chunk) rs)"

definition hash_file :: "dedup_env \<Rightarrow> js_string \<Rightarrow> js_string option result" where
  "hash_file env path =
     (case file_at env path of
        NoFile \<Rightarrow> Inr None
      | OpenFails e \<Rightarrow> Inl e
      | Reads rs \<Rightarrow> map_sum id (\<lambda>bytes. Some (hash_hex env bytes)) (read_all [] rs))"

section \<open>Grouping\<close>

text \<open>\<open>map.entry(k).or_default().push(v)\<close> on a map kept as a list of entries.\<close>

fun push_entry :: "'k \<Rightarrow> 'v \<Rightarrow> ('k \<times> 'v list) list \<Rightarrow> ('k \<times> 'v list) list" where
  "push_entry k v [] = [(k, [v])]"
| "push_entry k v ((k', vs) # m) =
     (if k = k' then (k', vs @ [v]) # m else (k', vs) # push_entry k v m)"

fun name_groups :: "dedup_env \<Rightarrow> js_string list \<Rightarrow> (js_string \<times> js_string list) list
    \<Rightarrow> (js_string \<times> js_string list) list" where
  "name_groups env [] m = m"
| "name_groups env (p # ps) m =
     name_groups env ps (case file_name env p of None \<Rightarrow> m | Some n \<Rightarrow> push_entry n p m)"

fun hash_groups :: "dedup_env \<Rightarrow> js_string list \<Rightarrow> (js_string \<times> js_string list) list
    \<Rightarrow> (js_string \<times> js_string list) list result" where
  "hash_groups env [] m = Inr m"
| "hash_groups env (p # ps) m =
     (case hash_file env p of
        Inl e \<Rightarrow> Inl e
      | Inr None \<Rightarrow> hash_groups env ps m
      | Inr (Some h) \<Rightarrow> hash_groups env ps (push_entry h p m))"

definition dup_groups :: "DupKind \<Rightarrow> (js_string \<times> js_string list) list \<Rightarrow> DupGroup list" where
  "dup_groups kind m =
     map (\<lambda>(k, files). \<lparr>dg_kind = kind, dg_key = k, dg_files = files\<rparr>)
       (filter (\<lambda>(k, files). 1 < length files) m)"

definition detect :: "dedup_env \<Rightarrow> js_string list \<Rightarrow> DupGroup list result" where
  "detect env paths =
     (let names = name_groups env paths [] in
      case hash_groups env paths [] of
        Inl e \<Rightarrow> Inl e
      | Inr hashes \<Rightarrow>
          Inr (dup_groups KHash (iteration env hashes) @ dup_groups KName (iteration env names)))"

section \<open>What a group holds\<close>

text \<open>A map that has, for every key, the values of that key in order.\<close>

definition grouped :: "('v \<Rightarrow> 'k option) \<Rightarrow> 'v list \<Rightarrow> ('k \<times> 'v list) list \<Rightarrow> bool" where
  "grouped key xs m \<longleftrightarrow> distinct (map fst m)
     \<and> (\<forall>k. map_of m k = (let vs = filter (\<lambda>x. key x = Some k) xs in if vs = [] then None else Some vs))"

lemma map_of_push:
  "map_of (push_entry k v m) k' =
     (if k' = k then Some ((case map_of m k of None \<Rightarrow> [] | Some vs \<Rightarrow> vs) @ [v]) else map_of m k')"
  by (induction m) (auto split: option.splits)

lemma keys_push: "set (map fst (push_entry k v m)) = insert k (set (map fst m))"
  by (induction k v m rule: push_entry.induct) auto

lemma distinct_push: "distinct (map fst m) \<Longrightarrow> distinct (map fst (push_entry k v m))"
  by (induction k v m rule: push_entry.induct) (auto simp: keys_push simp del: set_map)

lemma grouped_push:
  assumes "grouped key xs m"
  shows "grouped key (xs @ [x]) (case key x of None \<Rightarrow> m | Some k \<Rightarrow> push_entry k x m)"
  using assms by (cases "key x") (auto simp: grouped_def map_of_push distinct_push Let_def)

lemma name_groups_grouped:
  "grouped (file_name env) done m \<Longrightarrow> grouped (file_name env) (done @ ps) (name_groups env ps m)"
proof (induction ps arbitrary: "done" m)
  case (Cons p ps)
  from Cons.IH [OF grouped_push [OF Cons.prems, of p]] show ?case by simp
qed simp

definition hash_of :: "dedup_env \<Rightarrow> js_string \<Rightarrow> js_string option" where
  "hash_of env p = (case hash_file env p of Inl e \<Rightarrow> None | Inr h \<Rightarrow> h)"

lemma hash_groups_grouped:
  "grouped (hash_of env) done m \<Longrightarrow> \<forall>p\<in>set ps. \<not> isl (hash_file env p)
     \<Longrightarrow> \<exists>m'. hash_groups env ps m = Inr m' \<and> grouped (hash_of env) (done @ ps) m'"
proof (induction ps arbitrary: "done" m)
  case (Cons p ps)
  obtain h where h: "hash_file env p = Inr h" using Cons.prems(2) by (cases "hash_file env p") auto
  have "grouped (hash_of env) (done @ [p]) (case h of None \<Rightarrow> m | Some k \<Rightarrow> push_entry k p m)"
    using grouped_push [OF Cons.prems(1), of p] h hash_of_def [of env p] by simp
  from Cons.IH [OF this] Cons.prems(2) h show ?case by (auto split: option.splits)
qed simp

lemma hash_groups_fails:
  "\<exists>p\<in>set ps. isl (hash_file env p) \<Longrightarrow> \<exists>e. hash_groups env ps m = Inl e"
  by (induction ps arbitrary: m) (fastforce split: sum.splits option.splits)+

lemma dup_groups_grouped:
  assumes "grouped key xs m" "mset m' = mset m"
  shows "g \<in> set (dup_groups kind m') \<longleftrightarrow>
     dg_kind g = kind \<and> dg_files g = filter (\<lambda>x. key x = Some (dg_key g)) xs \<and> 1 < length (dg_files g)"
proof -
  have s: "set m' = set m" using assms(2) by (metis set_mset_mset)
  have m: "(k, fs) \<in> set m \<longleftrightarrow> fs = filter (\<lambda>x. key x = Some k) xs \<and> fs \<noteq> []" for k fs
    using assms(1) map_of_eq_Some_iff [of m k fs] by (auto simp: grouped_def Let_def split: if_splits)
  have "g \<in> set (dup_groups kind m') \<longleftrightarrow>
      (dg_key g, dg_files g) \<in> set m \<and> 1 < length (dg_files g) \<and> dg_kind g = kind"
    by (cases g) (auto simp: dup_groups_def s)
  then show ?thesis unfolding m by auto
qed

lemma grouped_Nil: "grouped key [] []"
  by (simp add: grouped_def)

text \<open>A path that is listed twice is reported as a duplicate of itself.\<close>

lemma detect_self_duplicate:
  assumes "\<And>m. mset (iteration env m) = mset m"
    and "detect env paths = Inr gs" "2 \<le> count_list paths p" "hash_of env p = Some h"
  shows "\<exists>g\<in>set gs. dg_kind g = KHash \<and> dg_key g = h \<and> 2 \<le> count_list (dg_files g) p"
proof -
  let ?fs = "filter (\<lambda>q. hash_of env q = Some h) paths"
  have count: "count_list ?fs p = count_list paths p" using assms(4)
    by (induction paths) auto
  have "count_list ?fs p \<le> length ?fs" by (rule count_le_length)
  then have len: "1 < length ?fs" using assms(3) count by linarith
  obtain m where m: "hash_groups env paths [] = Inr m" "gs = dup_groups KHash (iteration env m)
      @ dup_groups KName (iteration env (name_groups env paths []))"
    using assms(2) by (auto simp: detect_def Let_def split: sum.splits)
  have "\<not> isl (hash_file env q)" if "q \<in> set paths" for q
    using hash_groups_fails [of paths env "[]"] m(1) that by auto
  then have "grouped (hash_of env) paths m"
    using hash_groups_grouped [OF grouped_Nil [of "hash_of env"], of paths] m(1) by auto
  from dup_groups_grouped [OF this assms(1), of "\<lparr>dg_kind = KHash, dg_key = h, dg_files = ?fs\<rparr>" KHash]
  have "\<lparr>dg_kind = KHash, dg_key = h, dg_files = ?fs\<rparr> \<in> set gs" using len m(2) by simp
  then show ?thesis using assms(3) count by (intro bexI) auto
qed

text \<open>Every file has the same one byte.\<close>

definition two_copies :: dedup_env where
  "two_copies = \<lparr>file_name = Some, file_at = (\<lambda>_. Reads [Inr [1]]), hash_hex = (\<lambda>_. js ''h''), iteration = id\<rparr>"

section \<open>Properties\<close>

text \<open>
  C30. Duplicate detection is exact. It fails exactly when the content of one of the paths
  cannot be read; otherwise the groups are, for each content hash and each file name, all
  given paths with that hash or name in their order, if there are at least two.
\<close>

theorem detect_exact:
  assumes "\<And>m. mset (iteration env m) = mset m"
  shows "(case detect env paths of
      Inl e \<Rightarrow> \<exists>p\<in>set paths. isl (hash_file env p)
    | Inr gs \<Rightarrow> (\<forall>p\<in>set paths. \<not> isl (hash_file env p))
        \<and> (\<forall>g. g \<in> set gs \<longleftrightarrow> 1 < length (dg_files g)
             \<and> dg_files g = filter (\<lambda>p. (case dg_kind g of KHash \<Rightarrow> hash_of env p | KName \<Rightarrow> file_name env p)
                                         = Some (dg_key g)) paths))"
proof (cases "\<exists>p\<in>set paths. isl (hash_file env p)")
  case True
  with hash_groups_fails [OF True, of "[]"] show ?thesis by (auto simp: detect_def Let_def)
next
  case False
  then obtain m where m: "hash_groups env paths [] = Inr m" "grouped (hash_of env) paths m"
    using hash_groups_grouped [OF grouped_Nil [of "hash_of env"], of paths] by auto
  have n: "grouped (file_name env) paths (name_groups env paths [])"
    using name_groups_grouped [OF grouped_Nil [of "file_name env"]] by simp
  have "g \<in> set (dup_groups KHash (iteration env m) @ dup_groups KName (iteration env (name_groups env paths [])))
      \<longleftrightarrow> 1 < length (dg_files g)
             \<and> dg_files g = filter (\<lambda>p. (case dg_kind g of KHash \<Rightarrow> hash_of env p | KName \<Rightarrow> file_name env p)
                                         = Some (dg_key g)) paths" for g
    using dup_groups_grouped [OF m(2) assms] dup_groups_grouped [OF n assms] by (cases "dg_kind g") auto
  with False m(1) show ?thesis by (simp add: detect_def Let_def)
qed

theorem detect_exact_witness:
  "case detect two_copies [js ''a'', js ''b''] of Inl e \<Rightarrow> False
     | Inr gs \<Rightarrow> \<lparr>dg_kind = KHash, dg_key = js ''h'', dg_files = [js ''a'', js ''b'']\<rparr> \<in> set gs"
proof -
  have h: "hash_file two_copies p = Inr (Some (js ''h''))" for p
    by (simp add: two_copies_def hash_file_def)
  have "mset (iteration two_copies m) = mset m" for m by (simp add: two_copies_def)
  from detect_exact [OF this, of "[js ''a'', js ''b'']"] show ?thesis
    by (auto simp: h hash_of_def split: sum.splits)
qed

end
