(* ===== verification/DupFlow.thy ===== *)
theory DupFlow
  imports Scanner Dedup
begin

text \<open>
  Duplicate detection as the program performs it: the paths that a scan returned are handed
  to the detection, as \<open>runDetect\<close> of the App component does.
\<close>

lemma count_list_member: "x \<in> set xs \<Longrightarrow> 1 \<le> count_list xs x"
  by (induction xs) auto

text \<open>The paths that one root contributes.\<close>

definition root_paths :: "scan_env \<Rightarrow> ScanOptions \<Rightarrow> js_string \<Rightarrow> js_string list" where
  "root_paths env opts r = map rf_path
     (List.map_filter (visit env opts (max_bytes (sc_max_file_size_mb opts))) (walk env r (sc_follow_symlinks opts)))"

lemma scan_root_paths: "map rf_path (found_files env opts) = concat (map (root_paths env opts) (sc_roots opts))"
proof -
  have "map rf_path (List.map_filter f (concat (map g rs))) = concat (map (\<lambda>r. map rf_path (List.map_filter f (g r))) rs)"
    for f g and rs :: "js_string list"
    by (induction rs) (simp_all add: map_filter_simps map_filter_append)
  then show ?thesis by (simp add: found_files_def all_items_def root_paths_def [abs_def])
qed

lemma two_roots_count:
  assumes "sc_roots opts = xs @ r1 # ys @ r2 # zs" "p \<in> set (root_paths env opts r1)" "p \<in> set (root_paths env opts r2)"
  shows "2 \<le> count_list (map rf_path (found_files env opts)) p"
  using count_list_member [OF assms(2)] count_list_member [OF assms(3)]
  by (simp add: scan_root_paths assms(1))

section \<open>Properties\<close>

text \<open>
  C37. Overlapping roots make a file its own duplicate. If two of the roots lead to the same
  path, the scan lists it twice, and the detection reports a group of equal content that holds
  this path twice, although there is one file only; deleting the second copy deletes the file.
\<close>

theorem overlapping_roots_self_duplicate:
  assumes "\<And>m. mset (iteration denv m) = mset m"
    and "sc_roots opts = xs @ r1 # ys @ r2 # zs"
    and "p \<in> set (root_paths env opts r1)" "p \<in> set (root_paths env opts r2)"
    and "scan env opts = Some files" "detect denv (map rf_path files) = Inr gs" "hash_of denv p = Some h"
  shows "\<exists>g\<in>set gs. dg_kind g = KHash \<and> dg_key g = h \<and> 2 \<le> count_list (dg_files g) p"
proof -
  have "files = found_files env opts" using assms(5) by (simp add: scan_spec split: if_splits)
  with detect_self_duplicate [OF assms(1,6) _ assms(7)] two_roots_count [OF assms(2-4)] show ?thesis by simp
qed

theorem overlapping_roots_self_duplicate_witness:
  "\<exists>files gs. scan sample_env (sample_opts [js ''/'', js ''/d'']) = Some files \<and> detect two_copies (map rf_path files) = Inr gs
     \<and> (\<exists>g\<in>set gs. 2 \<le> count_list (dg_files g) (js ''/d/a.TXT''))"
proof -
  let ?p = "js ''/d/a.TXT''" and ?o = "sample_opts [js ''/'', js ''/d'']"
  have it: "mset (iteration two_copies m) = mset m" for m by (simp add: two_copies_def)
  have hash: "hash_file two_copies q = Inr (Some (js ''h''))" for q by (simp add: two_copies_def hash_file_def)
  obtain files where files: "scan sample_env ?o = Some files"
    by (simp add: scan_spec scan_rate_def sample_every_def sample_env_def)
  obtain gs where gs: "detect two_copies (map rf_path files) = Inr gs"
    using hash_groups_grouped [OF grouped_Nil [of "hash_of two_copies"], of "map rf_path files"] hash
    by (auto simp: detect_def)
  have roots: "sc_roots ?o = [] @ js ''/'' # [] @ js ''/d'' # []" by (simp add: sample_opts_def)
  have p: "?p \<in> set (root_paths sample_env ?o r)" for r
    by (simp add: root_paths_def sample_env_def sample_opts_def sample_entry_def visit_def excluded_def too_large_def
        max_bytes_def map_filter_simps)
  have "hash_of two_copies ?p = Some (js ''h'')" by (simp add: hash_of_def hash)
  from overlapping_roots_self_duplicate [OF it roots p p files gs this] files gs show ?thesis by blast
qed

end
