(* ===== verification/Utf16.thy ===== *)
theory Utf16
  imports Utf8 StringUtil
begin

text \<open>
  The texts of the two languages. A JavaScript string is any list of UTF-16 code units, a Rust
  string is a list of Unicode scalar values. A command or an event carries a text as JSON: on
  the way to the frontend every scalar value becomes one or two code units, on the way to the
  backend a surrogate that has no partner makes the decoding of the command fail. The locale
  \<open>partial_codec\<close> is the contract of an encoding whose decoder rejects what the encoder never
  writes.
\<close>

section \<open>Encodings with a partial decoder\<close>

locale partial_codec =
  fixes enc :: "'a \<Rightarrow> 'b"
    and dec :: "'b \<Rightarrow> 'a option"
    and valid :: "'a \<Rightarrow> bool"
  assumes dec_enc: "valid x \<Longrightarrow> dec (enc x) = Some x"
    and dec_valid: "dec y = Some x \<Longrightarrow> valid x"
    and enc_dec: "dec y = Some x \<Longrightarrow> enc x = y"
begin

lemma dec_Some_iff: "dec y = Some x \<longleftrightarrow> valid x \<and> enc x = y"
  using dec_enc dec_valid enc_dec by blast

lemma accepted_iff: "dec y \<noteq> None \<longleftrightarrow> (\<exists>x. valid x \<and> y = enc x)"
  using dec_Some_iff by fastforce

lemma enc_inject: "valid x \<Longrightarrow> valid x' \<Longrightarrow> enc x = enc x' \<longleftrightarrow> x = x'"
  using dec_enc by (metis option.inject)

lemma those_enc: "list_all valid xs \<Longrightarrow> those (map (dec \<circ> enc) xs) = Some xs"
  by (induction xs) (simp_all add: dec_enc)

lemma those_Some_iff: "those (map dec ys) = Some xs \<longleftrightarrow> list_all valid xs \<and> map enc xs = ys"
proof (induction ys arbitrary: xs)
  case (Cons y ys)
  show ?case
  proof (cases xs)
    case (Cons x zs)
    show ?thesis
    proof (cases "dec y")
      case None
      with dec_enc [of x] show ?thesis by (auto simp: Cons)
    next
      case (Some x')
      with dec_Some_iff [of y] dec_enc [of x] show ?thesis by (auto simp: Cons Cons.IH)
    qed
  qed (auto split: option.split)
qed auto

end

section \<open>UTF-16\<close>

definition high_surrogate :: "js_char \<Rightarrow> bool" where
  "high_surrogate u \<longleftrightarrow> 0xD800 \<le> u \<and> u < 0xDC00"

definition low_surrogate :: "js_char \<Rightarrow> bool" where
  "low_surrogate u \<longleftrightarrow> 0xDC00 \<le> u \<and> u < 0xE000"

text \<open>A code unit that is a character of its own.\<close>

definition bmp :: "js_char \<Rightarrow> bool" where
  "bmp u \<longleftrightarrow> 0 \<le> u \<and> u < 0xD800 \<or> 0xE000 \<le> u \<and> u < 0x10000"

definition utf16_char :: "int \<Rightarrow> js_string" where
  "utf16_char c =
     (if c < 0x10000 then [c] else [0xD800 + (c - 0x10000) div 1024, 0xDC00 + (c - 0x10000) mod 1024])"

definition utf16 :: "int list \<Rightarrow> js_string" where
  "utf16 t = concat (map utf16_char t)"

fun from_utf16 :: "js_string \<Rightarrow> int list option" where
  "from_utf16 [] = Some []"
| "from_utf16 [u] = (if bmp u then Some [u] else None)"
| "from_utf16 (u # v # us) =
     (if bmp u then map_option ((#) u) (from_utf16 (v # us))
      else if high_surrogate u \<and> low_surrogate v
      then map_option ((#) (0x10000 + (u - 0xD800) * 1024 + (v - 0xDC00))) (from_utf16 us)
      else None)"

text \<open>A string that is the form of some text, and that text.\<close>

definition well_formed :: "js_string \<Rightarrow> bool" where
  "well_formed s \<longleftrightarrow> from_utf16 s \<noteq> None"

definition text_of :: "js_string \<Rightarrow> int list" where
  "text_of s = (case from_utf16 s of None \<Rightarrow> [] | Some t \<Rightarrow> t)"

section \<open>Both directions\<close>

lemma utf16_simps [simp]: "utf16 [] = []" "utf16 (c # t) = utf16_char c @ utf16 t" "utf16 (s @ t) = utf16 s @ utf16 t"
  by (simp_all add: utf16_def)

lemma from_utf16_bmp: "bmp u \<Longrightarrow> from_utf16 (u # us) = map_option ((#) u) (from_utf16 us)"
  by (cases us) simp_all

lemma from_utf16_pair:
  "high_surrogate u \<Longrightarrow> low_surrogate v \<Longrightarrow> from_utf16 (u # v # us) =
     map_option ((#) (0x10000 + (u - 0xD800) * 1024 + (v - 0xDC00))) (from_utf16 us)"
  by (simp add: bmp_def high_surrogate_def)

lemma utf16_char_cases:
  assumes "scalar c"
  obtains "bmp c" "utf16_char c = [c]"
  | u v where "utf16_char c = [u, v]" "high_surrogate u" "low_surrogate v" "c = 0x10000 + (u - 0xD800) * 1024 + (v - 0xDC00)"
proof (cases "c < 0x10000")
  case True
  with assms that(1) show ?thesis by (auto simp: scalar_def bmp_def utf16_char_def)
next
  case False
  let ?d = "c - 0x10000"
  have "0 \<le> ?d div 1024" "?d div 1024 < 1024" using False assms by (auto simp: scalar_def)
  moreover have "0 \<le> ?d mod 1024" "?d mod 1024 < 1024" by simp_all
  moreover have "c = 0x10000 + ?d div 1024 * 1024 + ?d mod 1024" by simp
  ultimately show ?thesis using False
    by (intro that(2) [of "0xD800 + ?d div 1024" "0xDC00 + ?d mod 1024"])
      (simp_all add: utf16_char_def high_surrogate_def low_surrogate_def)
qed

lemma from_utf16_char: "scalar c \<Longrightarrow> from_utf16 (utf16_char c @ us) = map_option ((#) c) (from_utf16 us)"
  by (erule utf16_char_cases) (simp_all add: from_utf16_bmp from_utf16_pair del: from_utf16.simps)

lemma from_utf16_encoded: "list_all scalar t \<Longrightarrow> from_utf16 (utf16 t @ us) = map_option ((@) t) (from_utf16 us)"
proof (induction t)
  case (Cons c t)
  then show ?case by (simp add: from_utf16_char option.map_comp comp_def)
qed (simp add: option.map_id0 [unfolded id_def] map_option_idI)

lemma pair_char:
  assumes "high_surrogate u" "low_surrogate v"
  shows "scalar (0x10000 + (u - 0xD800) * 1024 + (v - 0xDC00))"
    and "utf16_char (0x10000 + (u - 0xD800) * 1024 + (v - 0xDC00)) = [u, v]"
proof -
  let ?q = "u - 0xD800" and ?r = "v - 0xDC00"
  have b: "0 \<le> ?q" "?q < 1024" "0 \<le> ?r" "?r < 1024"
    using assms by (auto simp: high_surrogate_def low_surrogate_def)
  then have "(?q * 1024 + ?r) div 1024 = ?q" "(?q * 1024 + ?r) mod 1024 = ?r"
    using int_div_pos_eq [of "?q * 1024 + ?r" 1024 ?q ?r] int_mod_pos_eq [of "?q * 1024 + ?r" 1024 ?q ?r]
    by (simp_all only: mult.commute)
  moreover have "0x10000 + ?q * 1024 + ?r - 0x10000 = ?q * 1024 + ?r" by simp
  moreover have "\<not> 0x10000 + ?q * 1024 + ?r < 0x10000" using b by simp
  ultimately show "utf16_char (0x10000 + ?q * 1024 + ?r) = [u, v]"
    unfolding utf16_char_def by (simp only: if_False) simp
  show "scalar (0x10000 + ?q * 1024 + ?r)" using b by (simp add: scalar_def)
qed

lemma from_utf16_sound: "from_utf16 s = Some t \<Longrightarrow> list_all scalar t \<and> utf16 t = s"
proof (induction s arbitrary: t rule: from_utf16.induct)
  case (2 u)
  then show ?case by (auto simp: bmp_def scalar_def utf16_char_def split: if_splits)
next
  case (3 u v us)
  show ?case
  proof (cases "bmp u")
    case True
    with 3 show ?thesis by (auto simp: bmp_def scalar_def utf16_char_def simp del: from_utf16.simps simp add: from_utf16_bmp)
  next
    case False
    then have p: "high_surrogate u" "low_surrogate v" using 3(3) by (auto split: if_splits)
    with 3(3) obtain t' where "t = (0x10000 + (u - 0xD800) * 1024 + (v - 0xDC00)) # t'" "from_utf16 us = Some t'"
      by (auto simp: from_utf16_pair simp del: from_utf16.simps)
    with 3(2) [of t'] False p pair_char [OF p] show ?thesis by simp
  qed
qed simp

interpretation u16: partial_codec utf16 from_utf16 "list_all scalar"
  using from_utf16_sound from_utf16_encoded [of _ "[]"] by unfold_locales auto

lemma text_of_utf16 [simp]: "list_all scalar t \<Longrightarrow> text_of (utf16 t) = t"
  by (simp add: text_of_def u16.dec_enc)

lemma well_formed_text:
  assumes "well_formed s"
  shows "from_utf16 s = Some (text_of s)" "list_all scalar (text_of s)" "utf16 (text_of s) = s"
proof -
  obtain t where t: "from_utf16 s = Some t" using assms by (auto simp: well_formed_def)
  with from_utf16_sound [OF t] show "from_utf16 s = Some (text_of s)" "list_all scalar (text_of s)" "utf16 (text_of s) = s"
    by (simp_all add: text_of_def)
qed

lemma well_formed_iff: "well_formed s \<longleftrightarrow> (\<exists>t. list_all scalar t \<and> s = utf16 t)"
  unfolding well_formed_def by (rule u16.accepted_iff)

lemma well_formed_utf16 [simp]: "list_all scalar t \<Longrightarrow> well_formed (utf16 t)"
  by (auto simp: well_formed_iff)

section \<open>Well formed parts\<close>

lemma well_formed_append: "well_formed s \<Longrightarrow> well_formed (s @ u) \<longleftrightarrow> well_formed u"
  using from_utf16_encoded [of "text_of s" u] well_formed_text [of s] by (simp add: well_formed_def)

lemma well_formed_bmp: "bmp c \<Longrightarrow> well_formed (c # s) \<longleftrightarrow> well_formed s"
  by (simp add: well_formed_def from_utf16_bmp)

lemma well_formed_Nil [simp]: "well_formed []"
  by (simp add: well_formed_def)

lemma bmp_not_surrogate: "bmp c \<Longrightarrow> \<not> low_surrogate c \<and> \<not> high_surrogate c"
  by (auto simp: bmp_def low_surrogate_def high_surrogate_def)

text \<open>A character of one unit separates: what stands on either side is well formed by itself.\<close>

lemma well_formed_split: "bmp c \<Longrightarrow> well_formed (s @ c # u) \<longleftrightarrow> well_formed s \<and> well_formed u"
proof (induction s rule: from_utf16.induct)
  case 1
  then show ?case by (simp add: well_formed_bmp)
next
  case (2 x)
  then show ?case
    using bmp_not_surrogate [of c]
    by (cases "bmp x") (auto simp: well_formed_bmp, auto simp: well_formed_def)
next
  case (3 x y s)
  then show ?case
    by (cases "bmp x") (auto simp: well_formed_bmp, auto simp: well_formed_def split: if_splits)
qed

lemma ws_bmp: "is_ws c \<Longrightarrow> bmp c"
  by (auto simp: is_ws_def bmp_def)

lemma well_formed_dropWhile_ws: "well_formed s \<Longrightarrow> well_formed (dropWhile is_ws s)"
  by (induction s) (auto simp: well_formed_bmp ws_bmp)

lemma well_formed_trim_end: "well_formed s \<Longrightarrow> well_formed (rev (dropWhile is_ws (rev s)))"
proof (induction s rule: rev_induct)
  case (snoc c s)
  then show ?case using well_formed_split [of c s "[]"] by (auto simp: ws_bmp)
qed simp

lemma well_formed_trim: "well_formed s \<Longrightarrow> well_formed (js_trim s)"
  unfolding js_trim_def by (intro well_formed_trim_end well_formed_dropWhile_ws)

lemma well_formed_pieces:
  assumes "bmp c" "well_formed s"
  shows "list_all well_formed (js_split (\<lambda>d. d = c) s)"
proof -
  have "well_formed (js_join [c] ps) \<longleftrightarrow> list_all well_formed ps" if "ps \<noteq> []" for ps
    using that
  proof (induction ps)
    case (Cons p ps)
    then show ?case by (cases ps) (simp_all add: well_formed_split [OF assms(1)])
  qed simp
  with assms(2) show ?thesis using js_join_split [of c s] by (metis js_split_nonempty)
qed

lemma well_formed_parseCSV: "well_formed s \<Longrightarrow> list_all well_formed (parseCSV s)"
  using well_formed_pieces [of 44 s] by (auto simp: parseCSV_def list_all_iff bmp_def well_formed_trim)

lemma well_formed_js [simp]: "well_formed (js s)"
proof (induction s)
  case (Cons c s)
  have "(of_char c :: nat) < 256" by simp
  then have "(of_char c :: int) < 256" "0 \<le> (of_char c :: int)"
    using of_nat_of_char [of c, where ?'a = int] by linarith+
  then have "bmp (of_char c)" by (simp add: bmp_def)
  with Cons show ?case by (simp add: well_formed_bmp)
qed simp

end
