(* ===== verification/Config.thy ===== *)
theory Config
  imports Api Utf16 "HOL-Library.Sublist"
begin

text \<open>
  \<open>src-tauri/src/config.rs\<close>: the configuration file of the backend. The file holds a JSON
  object; the derived decoder fills missing fields with defaults and rejects fields of the
  wrong type or with a surrogate that has no partner. The texts of a configuration are lists
  of scalar values. What the machine provides is a record of parameters: which drives exist, the
  home directory, the default index directory and Unicode lower case.
\<close>

section \<open>Data\<close>

record RustConfig =
  rc_search_mode :: js_string
  rc_scan_roots :: "js_string list"
  rc_exclude_patterns :: "js_string list"
  rc_index_dir :: js_string
  rc_path_max_len :: "32 word"
  rc_auto_scan_enabled :: bool

datatype platform = Windows "js_string \<Rightarrow> bool" | OtherSystem "js_string option"

record config_env =
  ce_platform :: platform
  ce_index_dir :: js_string
  ce_lower :: "js_string \<Rightarrow> js_string"

text \<open>The file, \<open>None\<close> when there is none, and what the file system allows.\<close>

record config_store =
  cs_file :: "json option"
  cs_dir_ok :: bool
  cs_can_read :: bool
  cs_can_write :: bool
  cs_can_remove :: bool

definition io_error :: js_error where
  "io_error = Rejected (js ''io'')"

section \<open>Defaults\<close>

definition default_search_mode :: js_string where
  "default_search_mode = js ''inverted''"

definition default_scan_roots :: "config_env \<Rightarrow> js_string list" where
  "default_scan_roots env =
     (case ce_platform env of
        Windows drive_exists \<Rightarrow>
          (let drives = filter drive_exists (map (\<lambda>c. c # js '':/'') [65..90])
           in if drives = [] then [js ''C:/''] else drives)
      | OtherSystem home \<Rightarrow> [case home of None \<Rightarrow> js ''~/'' | Some h \<Rightarrow> h])"

definition default_exclude_patterns :: "js_string list" where
  "default_exclude_patterns = map (\<lambda>s. 92 # js s) [''Windows'', ''Program Files'', ''Program Files (x86)'',
     ''AppData'', ''ProgramData'', ''Temp'', ''$Recycle.Bin'', ''System Volume Information'', ''node_modules'']"

definition default_config :: "config_env \<Rightarrow> RustConfig" where
  "default_config env = \<lparr>rc_search_mode = default_search_mode, rc_scan_roots = default_scan_roots env,
     rc_exclude_patterns = default_exclude_patterns, rc_index_dir = ce_index_dir env,
     rc_path_max_len = 80, rc_auto_scan_enabled = True\<rparr>"

section \<open>Encoding\<close>

definition word_number :: "'a::len word \<Rightarrow> js_number" where
  "word_number n = Fin (of_int (uint n))"

definition encode_config :: "RustConfig \<Rightarrow> json" where
  "encode_config c = JObj [(''search_mode'', JStr (utf16 (rc_search_mode c))),
     (''scan_roots'', jstrs (map utf16 (rc_scan_roots c))),
     (''exclude_patterns'', jstrs (map utf16 (rc_exclude_patterns c))),
     (''index_dir'', JStr (utf16 (rc_index_dir c))),
     (''path_max_len'', JNum (word_number (rc_path_max_len c))),
     (''auto_scan_enabled'', JBool (rc_auto_scan_enabled c))]"

fun decode_str :: "json \<Rightarrow> js_string option" where
  "decode_str (JStr s) = from_utf16 s"
| "decode_str _ = None"

fun decode_strs :: "json list \<Rightarrow> js_string list option" where
  "decode_strs [] = Some []"
| "decode_strs (j # items) =
     (case decode_str j of None \<Rightarrow> None | Some s \<Rightarrow> map_option ((#) s) (decode_strs items))"

fun decode_vec :: "json \<Rightarrow> js_string list option" where
  "decode_vec (JArr items) = decode_strs items"
| "decode_vec _ = None"

fun decode_u32 :: "json \<Rightarrow> 32 word option" where
  "decode_u32 (JNum (Fin x)) =
     (if x = of_int \<lfloor>x\<rfloor> \<and> 0 \<le> x \<and> x < 2 ^ 32 then Some (word_of_int \<lfloor>x\<rfloor>) else None)"
| "decode_u32 _ = None"

fun decode_bool :: "json \<Rightarrow> bool option" where
  "decode_bool (JBool b) = Some b"
| "decode_bool _ = None"

text \<open>A field with \<open>serde(default)\<close>.\<close>

definition field_or :: "(string \<times> json) list \<Rightarrow> string \<Rightarrow> (json \<Rightarrow> 'a option) \<Rightarrow> 'a \<Rightarrow> 'a option" where
  "field_or fs k dec d = (case map_of fs k of None \<Rightarrow> Some d | Some j \<Rightarrow> dec j)"

fun decode_config :: "config_env \<Rightarrow> json \<Rightarrow> RustConfig option" where
  "decode_config env (JObj fs) =
     Option.bind (field_or fs ''search_mode'' decode_str default_search_mode) (\<lambda>m.
     Option.bind (field_or fs ''scan_roots'' decode_vec (default_scan_roots env)) (\<lambda>r.
     Option.bind (field_or fs ''exclude_patterns'' decode_vec default_exclude_patterns) (\<lambda>x.
     Option.bind (field_or fs ''index_dir'' decode_str (ce_index_dir env)) (\<lambda>d.
     Option.bind (field_or fs ''path_max_len'' decode_u32 80) (\<lambda>n.
     Option.bind (field_or fs ''auto_scan_enabled'' decode_bool True) (\<lambda>a.
       Some \<lparr>rc_search_mode = m, rc_scan_roots = r, rc_exclude_patterns = x, rc_index_dir = d,
         rc_path_max_len = n, rc_auto_scan_enabled = a\<rparr>))))))"
| "decode_config env _ = None"

section \<open>Operations\<close>

text \<open>The white space of \<open>str::trim\<close>: Unicode's property, with U+0085 and without U+FEFF.\<close>

definition rust_ws :: "js_char \<Rightarrow> bool" where
  "rust_ws c \<longleftrightarrow> (is_ws c \<and> c \<noteq> 0xFEFF) \<or> c = 0x85"

definition blank :: "js_string \<Rightarrow> bool" where
  "blank s \<longleftrightarrow> list_all rust_ws s"

definition in_src_tauri :: "config_env \<Rightarrow> js_string \<Rightarrow> bool" where
  "in_src_tauri env dir \<longleftrightarrow> sublist (js ''src-tauri'') (ce_lower env dir)"

definition write_config :: "config_env \<Rightarrow> RustConfig \<Rightarrow> config_store \<Rightarrow> unit result \<times> config_store" where
  "write_config env cfg st =
     (if \<not> cs_dir_ok st then (Inl io_error, st)
      else let cfg_fixed = (if in_src_tauri env (rc_index_dir cfg)
                            then cfg\<lparr>rc_index_dir := ce_index_dir env\<rparr> else cfg)
           in if \<not> cs_can_write st then (Inl io_error, st)
              else (Inr (), st\<lparr>cs_file := Some (encode_config cfg_fixed)\<rparr>))"

definition repair :: "config_env \<Rightarrow> RustConfig \<Rightarrow> RustConfig" where
  "repair env cfg =
     (let c1 = (if blank (rc_search_mode cfg) then cfg\<lparr>rc_search_mode := default_search_mode\<rparr> else cfg);
          c2 = (if rc_scan_roots c1 = [] then c1\<lparr>rc_scan_roots := default_scan_roots env\<rparr> else c1);
          c3 = (if rc_exclude_patterns c2 = [] then c2\<lparr>rc_exclude_patterns := default_exclude_patterns\<rparr> else c2);
          c4 = (if blank (rc_index_dir c3) then c3\<lparr>rc_index_dir := ce_index_dir env\<rparr> else c3);
          c5 = (if rc_path_max_len c4 = 0 then c4\<lparr>rc_path_max_len := 80\<rparr> else c4)
      in if in_src_tauri env (rc_index_dir c5) then c5\<lparr>rc_index_dir := ce_index_dir env\<rparr> else c5)"

definition read_config :: "config_env \<Rightarrow> config_store \<Rightarrow> RustConfig result \<times> config_store" where
  "read_config env st =
     (if \<not> cs_dir_ok st then (Inl io_error, st)
      else case cs_file st of
          None \<Rightarrow>
            (case write_config env (default_config env) st of
               (Inl e, st') \<Rightarrow> (Inl e, st') | (Inr _, st') \<Rightarrow> (Inr (default_config env), st'))
        | Some j \<Rightarrow>
            if \<not> cs_can_read st then (Inl io_error, st)
            else case decode_config env j of
                None \<Rightarrow> (Inl (SyntaxError (js ''config.json'')), st)
              | Some cfg \<Rightarrow> (Inr (repair env cfg), st))"

definition reset_config :: "config_env \<Rightarrow> config_store \<Rightarrow> RustConfig result \<times> config_store" where
  "reset_config env st =
     (if \<not> cs_dir_ok st then (Inl io_error, st)
      else read_config env (if cs_can_remove st then st\<lparr>cs_file := None\<rparr> else st))"

section \<open>Lemmas\<close>

lemma decode_strs_JStr: "decode_strs (map JStr xs) = those (map from_utf16 xs)"
  by (induction xs) (auto split: option.split)

lemma decode_strs_Some: "decode_strs items = Some ts \<Longrightarrow> items = map (JStr \<circ> utf16) ts \<and> list_all (list_all scalar) ts"
proof (induction items arbitrary: ts)
  case (Cons j items)
  then obtain s t us where "j = JStr s" "from_utf16 s = Some t" "decode_strs items = Some us" "ts = t # us"
    by (cases j) (auto split: option.splits)
  with Cons.IH [of us] from_utf16_sound [of s t] show ?case by simp
qed simp

interpretation vec: partial_codec "\<lambda>ts. jstrs (map utf16 ts)" decode_vec "list_all (list_all scalar)"
proof
  show "decode_vec (jstrs (map utf16 ts)) = Some ts" if "list_all (list_all scalar) ts" for ts
    using that u16.those_Some_iff [of "map utf16 ts" ts] by (simp add: jstrs_def decode_strs_JStr del: map_map)
  show "list_all (list_all scalar) ts" "jstrs (map utf16 ts) = j" if "decode_vec j = Some ts" for j ts
    using that decode_strs_Some [of _ ts] by (cases j; simp add: jstrs_def comp_def)+
qed

lemma decode_str_JStr: "decode_str (JStr s) = (if well_formed s then Some (text_of s) else None)"
  using well_formed_text(1) [of s] by (auto simp: well_formed_def)

lemma decode_vec_jstrs:
  "decode_vec (jstrs xs) = (if list_all well_formed xs then Some (map text_of xs) else None)"
proof (induction xs)
  case (Cons x xs)
  show ?case
  proof (cases "well_formed x")
    case True
    with Cons well_formed_text(1) [OF True] show ?thesis by (auto simp: jstrs_def)
  qed (use Cons in \<open>auto simp: jstrs_def well_formed_def split: option.splits\<close>)
qed (simp add: jstrs_def)

lemma decode_u32_word [simp]: "decode_u32 (JNum (word_number n)) = Some n"
proof -
  have "uint n < 2 ^ 32" using uint_lt2p [of n] by simp
  then have "(of_int (uint n) :: rat) < of_int (2 ^ 32)" by (simp only: of_int_less_iff)
  then show ?thesis by (simp add: word_number_def word_of_int_uint del: of_int_uint)
qed

text \<open>All texts of a configuration are lists of scalar values.\<close>

definition config_texts :: "RustConfig \<Rightarrow> bool" where
  "config_texts c \<longleftrightarrow> list_all scalar (rc_search_mode c) \<and> list_all (list_all scalar) (rc_scan_roots c)
     \<and> list_all (list_all scalar) (rc_exclude_patterns c) \<and> list_all scalar (rc_index_dir c)"

lemma decode_encode: "config_texts c \<Longrightarrow> decode_config env (encode_config c) = Some c"
  by (simp add: encode_config_def field_or_def config_texts_def u16.dec_enc vec.dec_enc del: decode_u32.simps decode_vec.simps)

text \<open>A usable configuration: what the rest of the backend may rely on.\<close>

definition usable :: "config_env \<Rightarrow> RustConfig \<Rightarrow> bool" where
  "usable env c \<longleftrightarrow> \<not> blank (rc_search_mode c) \<and> rc_scan_roots c \<noteq> [] \<and> rc_exclude_patterns c \<noteq> []
     \<and> \<not> blank (rc_index_dir c) \<and> rc_path_max_len c \<noteq> 0 \<and> \<not> in_src_tauri env (rc_index_dir c)"

lemma default_roots_nonempty: "default_scan_roots env \<noteq> []"
proof (cases "ce_platform env")
  case (Windows f)
  have "(if ds = [] then [js ''C:/''] else ds) \<noteq> []" for ds by simp
  then show ?thesis unfolding default_scan_roots_def Windows platform.case Let_def by metis
qed (simp add: default_scan_roots_def)

lemma default_mode_not_blank: "\<not> blank default_search_mode"
  by (simp add: blank_def default_search_mode_def rust_ws_def is_ws_def)

lemma default_patterns_nonempty: "default_exclude_patterns \<noteq> []"
  by (simp add: default_exclude_patterns_def)

lemma repair_usable:
  assumes "\<not> blank (ce_index_dir env)" "\<not> in_src_tauri env (ce_index_dir env)"
  shows "usable env (repair env c)"
  using assms default_roots_nonempty default_mode_not_blank default_patterns_nonempty
  by (simp add: usable_def repair_def Let_def)

lemma repair_id: "usable env c \<Longrightarrow> repair env c = c"
  by (simp add: usable_def repair_def Let_def)

lemma default_usable:
  assumes "\<not> blank (ce_index_dir env)" "\<not> in_src_tauri env (ce_index_dir env)"
  shows "usable env (default_config env)"
  using assms default_roots_nonempty default_mode_not_blank default_patterns_nonempty
  by (simp add: usable_def default_config_def)

lemma write_read:
  assumes "usable env c" "config_texts c" "cs_dir_ok st" "cs_can_write st" "cs_can_read st"
  shows "\<exists>st'. write_config env c st = (Inr (), st') \<and> fst (read_config env st') = Inr c"
  using assms by (simp add: write_config_def read_config_def Let_def usable_def decode_encode repair_id [unfolded usable_def])

lemma read_config_cases:
  assumes "read_config env st = (Inr c, st')"
  shows "c = default_config env \<or> (\<exists>d. c = repair env d)"
  using assms by (auto simp: read_config_def split: if_splits option.splits prod.splits sum.splits)

text \<open>A machine with one drive and ASCII letters.\<close>

definition one_drive :: config_env where
  "one_drive = \<lparr>ce_platform = Windows (\<lambda>d. d = js ''D:/''), ce_index_dir = js ''D:/idx'', ce_lower = id\<rparr>"

lemma one_drive_ok: "\<not> blank (ce_index_dir one_drive)" "\<not> in_src_tauri one_drive (ce_index_dir one_drive)"
  by (auto simp: one_drive_def blank_def rust_ws_def is_ws_def in_src_tauri_def dest: sublist_length_le)

definition empty_store :: config_store where
  "empty_store = \<lparr>cs_file = None, cs_dir_ok = True, cs_can_read = True, cs_can_write = True, cs_can_remove = True\<rparr>"

section \<open>Properties\<close>

text \<open>
  C29. Whatever the file holds, a configuration that \<open>read_config\<close> or \<open>reset_config\<close>
  returns is usable: it has roots and patterns, a search mode and an index directory that are
  not blank, a positive path length, and its index directory is not inside the source tree;
  only the default index directory itself has to be so.
\<close>

theorem read_config_usable:
  assumes "\<not> blank (ce_index_dir env)" "\<not> in_src_tauri env (ce_index_dir env)"
    and "read_config env st = (Inr c, st') \<or> reset_config env st = (Inr c, st')"
  shows "usable env c"
proof -
  obtain st1 st2 where "read_config env st1 = (Inr c, st2)"
    using assms(3) by (auto simp: reset_config_def split: if_splits)
  from read_config_cases [OF this] show ?thesis
    using repair_usable [OF assms(1,2)] default_usable [OF assms(1,2)] by auto
qed

theorem read_config_usable_witness:
  "\<exists>c st'. read_config one_drive empty_store = (Inr c, st') \<and> usable one_drive c"
proof -
  obtain c st' where r: "read_config one_drive empty_store = (Inr c, st')"
    by (simp add: read_config_def write_config_def empty_store_def Let_def)
  with read_config_usable [OF one_drive_ok, of empty_store c st'] show ?thesis by blast
qed

end
