(* ===== verification/AutoScan.thy ===== *)
theory AutoScan
  imports Config
begin

text \<open>
  \<open>src-tauri/src/pipeline_state.rs\<close>, the daily loop of \<open>main.rs\<close> and \<open>start_auto_scan_now\<close>
  of \<open>pipeline.rs\<close>: when scans run on their own. The loop wakes once a minute, reads the
  configuration and the state file and starts a run if none has been completed today and the
  machine is idle. A run starts by taking the writer of the index, of which the library gives
  out only one at a time, and gives it back when its last worker has finished. The averages of
  the processor load are exact here.
\<close>

section \<open>The state file\<close>

record PipelineState =
  ps_last_day :: "js_string option"
  ps_completed :: bool

text \<open>The file: absent, unreadable or malformed, or with the state it encodes.\<close>

datatype state_file = NoState | BadState | State PipelineState

definition default_state :: PipelineState where
  "default_state = \<lparr>ps_last_day = None, ps_completed = False\<rparr>"

definition load_state :: "state_file \<Rightarrow> PipelineState result" where
  "load_state f = (case f of NoState \<Rightarrow> Inr default_state | BadState \<Rightarrow> Inl io_error | State st \<Rightarrow> Inr st)"

definition load_or_default :: "state_file \<Rightarrow> PipelineState" where
  "load_or_default f = (case load_state f of Inl e \<Rightarrow> default_state | Inr st \<Rightarrow> st)"

text \<open>Both writers replace the file; their callers ignore a failure.\<close>

definition mark_started :: "bool \<Rightarrow> js_string \<Rightarrow> state_file \<Rightarrow> state_file" where
  "mark_started can_write today f =
     (if can_write then State \<lparr>ps_last_day = Some today, ps_completed = False\<rparr> else f)"

definition mark_completed :: "bool \<Rightarrow> js_string \<Rightarrow> state_file \<Rightarrow> state_file" where
  "mark_completed can_write today f =
     (if can_write then State \<lparr>ps_last_day = Some today, ps_completed = True\<rparr> else f)"

section \<open>The daily loop\<close>

definition avg_cpu :: "rat list \<Rightarrow> rat" where
  "avg_cpu cpus = sum_list cpus / of_nat (max (length cpus) 1)"

definition need_run :: "PipelineState \<Rightarrow> js_string \<Rightarrow> bool" where
  "need_run st today \<longleftrightarrow> \<not> ps_completed st \<or> ps_last_day st \<noteq> Some today"

text \<open>One turn of the loop, up to its sleep: the configuration to run with, if any.\<close>

definition auto_decision :: "RustConfig result \<Rightarrow> state_file \<Rightarrow> js_string \<Rightarrow> rat list \<Rightarrow> RustConfig option" where
  "auto_decision cfg f today cpus =
     (case cfg of Inl e \<Rightarrow> None
      | Inr c \<Rightarrow>
          let st = load_or_default f in
          if \<not> rc_auto_scan_enabled c then None
          else if need_run st today then (if avg_cpu cpus < 20 then Some c else None) else None)"

section \<open>Runs\<close>

text \<open>A run that was spawned, one that walks the roots, one whose workers still write.\<close>

datatype run_phase = Spawned | WalkingRun | WritingRun

record auto_state =
  au_day :: js_string
  au_file :: state_file
  au_runs :: "run_phase list"
  au_notices :: nat
  au_begun :: nat

definition auto_tick :: "RustConfig result \<Rightarrow> rat list \<Rightarrow> auto_state \<Rightarrow> auto_state" where
  "auto_tick cfg cpus s =
     (case auto_decision cfg (au_file s) (au_day s) cpus of None \<Rightarrow> s
      | Some c \<Rightarrow> s\<lparr>au_notices := au_notices s + 1, au_runs := au_runs s @ [Spawned]\<rparr>)"

definition start_auto_scan_now :: "RustConfig result \<Rightarrow> auto_state \<Rightarrow> unit result \<times> auto_state" where
  "start_auto_scan_now cfg s =
     (case cfg of Inl e \<Rightarrow> (Inl e, s)
      | Inr c \<Rightarrow> (Inr (), s\<lparr>au_notices := au_notices s + 1, au_runs := au_runs s @ [Spawned]\<rparr>))"

definition writer_taken :: "auto_state \<Rightarrow> bool" where
  "writer_taken s \<longleftrightarrow> list_ex (\<lambda>r. r \<noteq> Spawned) (au_runs s)"

text \<open>The beginning of the pipeline: without the writer the run ends with an error nobody sees.\<close>

definition run_begins :: "bool \<Rightarrow> bool \<Rightarrow> run_phase list \<Rightarrow> run_phase list \<Rightarrow> auto_state \<Rightarrow> auto_state" where
  "run_begins setup_ok can_write xs ys s =
     (if writer_taken s \<or> \<not> setup_ok then s\<lparr>au_runs := xs @ ys\<rparr>
      else s\<lparr>au_runs := xs @ WalkingRun # ys, au_begun := au_begun s + 1,
             au_file := mark_started can_write (au_day s) (au_file s)\<rparr>)"

definition run_completes :: "bool \<Rightarrow> run_phase list \<Rightarrow> run_phase list \<Rightarrow> auto_state \<Rightarrow> auto_state" where
  "run_completes can_write xs ys s =
     s\<lparr>au_runs := xs @ WritingRun # ys, au_file := mark_completed can_write (au_day s) (au_file s)\<rparr>"

definition run_releases :: "run_phase list \<Rightarrow> run_phase list \<Rightarrow> auto_state \<Rightarrow> auto_state" where
  "run_releases xs ys s = s\<lparr>au_runs := xs @ ys\<rparr>"

text \<open>What happens during one day without the user.\<close>

inductive daily_step :: "auto_state \<Rightarrow> auto_state \<Rightarrow> bool" where
  tick: "daily_step s (auto_tick cfg cpus s)"
| begins: "au_runs s = xs @ Spawned # ys \<Longrightarrow> daily_step s (run_begins setup_ok can_write xs ys s)"
| completes: "au_runs s = xs @ WalkingRun # ys \<Longrightarrow> daily_step s (run_completes can_write xs ys s)"
| releases: "au_runs s = xs @ WritingRun # ys \<Longrightarrow> daily_step s (run_releases xs ys s)"

inductive auto_step :: "auto_state \<Rightarrow> auto_state \<Rightarrow> bool" where
  daily: "daily_step s t \<Longrightarrow> auto_step s t"
| manual: "start_auto_scan_now cfg s = (r, t) \<Longrightarrow> auto_step s t"
| midnight: "auto_step s (s\<lparr>au_day := d\<rparr>)"

inductive_cases daily_stepE: "daily_step s t"
inductive_cases auto_stepE: "auto_step s t"

definition auto_begin :: "auto_state \<Rightarrow> bool" where
  "auto_begin s \<longleftrightarrow> au_runs s = [] \<and> au_notices s = 0 \<and> au_begun s = 0"

interpretation asc: transition_system auto_begin auto_step .

lemmas auto_defs = auto_tick_def start_auto_scan_now_def run_begins_def run_completes_def run_releases_def
  mark_started_def mark_completed_def

section \<open>Invariants\<close>

definition one_writer :: "auto_state \<Rightarrow> bool" where
  "one_writer s \<longleftrightarrow> length (filter (\<lambda>r. r \<noteq> Spawned) (au_runs s)) \<le> 1"

lemma one_writer_daily: "daily_step s t \<Longrightarrow> one_writer s \<Longrightarrow> one_writer t"
proof (induction rule: daily_step.induct)
  case (begins s xs ys setup_ok can_write)
  then have "\<not> writer_taken s \<Longrightarrow> filter (\<lambda>r. r \<noteq> Spawned) (xs @ ys) = []"
    by (auto simp: writer_taken_def filter_empty_conv list_ex_iff)
  with begins show ?case by (auto simp: one_writer_def auto_defs)
qed (auto simp: one_writer_def auto_defs split: option.split)

lemma one_writer_reach: "asc.reach s \<Longrightarrow> one_writer s"
proof (rule asc.reach_invariant [of one_writer])
  fix s t
  assume "auto_step s t" "one_writer s"
  then show "one_writer t"
    by cases (auto simp: one_writer_daily, auto simp: one_writer_def auto_defs split: sum.splits)
qed (simp_all add: auto_begin_def one_writer_def)

text \<open>Completed today, and no run left that could overwrite the state file.\<close>

definition done_today :: "auto_state \<Rightarrow> bool" where
  "done_today s \<longleftrightarrow> au_file s = State \<lparr>ps_last_day = Some (au_day s), ps_completed = True\<rparr>
     \<and> list_all (\<lambda>r. r = WritingRun) (au_runs s)"

lemma done_today_daily:
  "daily_step s t \<Longrightarrow> done_today s \<Longrightarrow> done_today t \<and> au_notices t = au_notices s \<and> au_begun t = au_begun s"
  by (induction rule: daily_step.induct)
    (auto simp: done_today_def auto_defs auto_decision_def load_or_default_def load_state_def need_run_def Let_def
      split: sum.splits)

lemma done_today_run:
  "(daily_step ^^ n) s t \<Longrightarrow> done_today s \<Longrightarrow> done_today t \<and> au_notices t = au_notices s \<and> au_begun t = au_begun s"
proof (induction n arbitrary: t)
  case (Suc n)
  then obtain u where "(daily_step ^^ n) s u" "daily_step u t" by auto
  with Suc.IH [of u] Suc.prems(2) done_today_daily [of u t] show ?case by simp
qed simp

text \<open>A tick of an idle machine while a run is under way, and the end of the run it starts.\<close>

lemma idle_tick:
  fixes c :: RustConfig and s :: auto_state
  assumes "rc_auto_scan_enabled c" "avg_cpu cpus < 20" "need_run (load_or_default (au_file s)) (au_day s)"
    and "writer_taken s"
  shows "(daily_step ^^ 2) s (s\<lparr>au_notices := au_notices s + 1\<rparr>)"
proof -
  let ?t = "auto_tick (Inr c) cpus s"
  have t: "au_runs ?t = au_runs s @ Spawned # []" "?t = s\<lparr>au_notices := au_notices s + 1, au_runs := au_runs s @ [Spawned]\<rparr>"
    using assms by (simp_all add: auto_tick_def auto_decision_def Let_def)
  have "writer_taken ?t" using assms(4) by (simp add: t(2) writer_taken_def)
  then have "run_begins True True (au_runs s) [] ?t = s\<lparr>au_notices := au_notices s + 1\<rparr>"
    by (simp add: run_begins_def t(2))
  with begins [OF t(1), of True True] have "daily_step ?t (s\<lparr>au_notices := au_notices s + 1\<rparr>)" by simp
  moreover have "daily_step s ?t" by (rule tick)
  ultimately show ?thesis by (auto simp: numeral_2_eq_2)
qed

text \<open>A first run of a day, while it walks.\<close>

definition busy_day :: auto_state where
  "busy_day = \<lparr>au_day = js ''2025-01-01'', au_file = State \<lparr>ps_last_day = Some (js ''2025-01-01''), ps_completed = False\<rparr>,
     au_runs = [WalkingRun], au_notices = 1, au_begun = 1\<rparr>"

section \<open>Properties\<close>

text \<open>
  C32. Automatic scans run once a day. A turn of the loop starts a run exactly when the
  configuration can be read and asks for it, the machine is idle and no run was completed
  today; and once a run has been completed today and none is about to begin, however often the
  loop turns, no run starts and none begins until the day changes or the user starts one.
\<close>

theorem auto_scan_once_a_day:
  assumes "done_today s" "(daily_step ^^ n) s t"
  shows "au_notices t = au_notices s \<and> au_begun t = au_begun s \<and> done_today t
    \<and> (\<forall>u cfg cpus. au_notices (auto_tick cfg cpus u) \<noteq> au_notices u \<longleftrightarrow>
         (\<exists>c. cfg = Inr c \<and> rc_auto_scan_enabled c \<and> avg_cpu cpus < 20
            \<and> load_or_default (au_file u) \<noteq> \<lparr>ps_last_day = Some (au_day u), ps_completed = True\<rparr>))"
proof -
  have "need_run st d \<longleftrightarrow> st \<noteq> \<lparr>ps_last_day = Some d, ps_completed = True\<rparr>" for st d
    by (cases st) (auto simp: need_run_def)
  then have "au_notices (auto_tick cfg cpus u) \<noteq> au_notices u \<longleftrightarrow>
      (\<exists>c. cfg = Inr c \<and> rc_auto_scan_enabled c \<and> avg_cpu cpus < 20
         \<and> load_or_default (au_file u) \<noteq> \<lparr>ps_last_day = Some (au_day u), ps_completed = True\<rparr>)" for u cfg cpus
    by (auto simp: auto_tick_def auto_decision_def Let_def split: sum.splits)
  with done_today_run [OF assms(2,1)] show ?thesis by blast
qed

theorem auto_scan_once_a_day_witness:
  "\<exists>t. (daily_step ^^ 1) (busy_day\<lparr>au_runs := [], au_file := mark_completed True (au_day busy_day) NoState\<rparr>) t
     \<and> au_notices t = 1"
proof -
  let ?s = "busy_day\<lparr>au_runs := [], au_file := mark_completed True (au_day busy_day) NoState\<rparr>"
  have s: "done_today ?s" by (simp add: done_today_def mark_completed_def)
  have "(daily_step ^^ 1) ?s (auto_tick (Inr (default_config one_drive)) [] ?s)"
    using tick [of ?s] by (auto simp: relpowp_1)
  with auto_scan_once_a_day [OF s this] show ?thesis by (auto simp: busy_day_def)
qed

text \<open>
  A run under way does not stop the loop from starting others. While a run walks or
  writes and the state file does not say completed today, each turn of an idle machine
  announces another automatic scan; each of these runs fails to get the writer and ends
  silently, so that any number of announcements can follow each other without any new scan. In
  no reachable state do two runs hold the writer.
\<close>

theorem auto_scan_restarts:
  fixes c :: RustConfig
  assumes "asc.reach s" "writer_taken s" "need_run (load_or_default (au_file s)) (au_day s)"
    and "rc_auto_scan_enabled c" "avg_cpu cpus < 20"
  shows "(daily_step ^^ (2 * n)) s (s\<lparr>au_notices := au_notices s + n\<rparr>)
    \<and> length (filter (\<lambda>r. r \<noteq> Spawned) (au_runs s)) = 1"
proof
  show "(daily_step ^^ (2 * n)) s (s\<lparr>au_notices := au_notices s + n\<rparr>)"
  proof (induction n)
    case (Suc n)
    let ?t = "s\<lparr>au_notices := au_notices s + n\<rparr>"
    have "(daily_step ^^ 2) ?t (?t\<lparr>au_notices := au_notices ?t + 1\<rparr>)"
      using assms by (intro idle_tick [of c cpus]) (simp_all add: writer_taken_def)
    with Suc have "(daily_step ^^ (2 * n + 2)) s (?t\<lparr>au_notices := au_notices ?t + 1\<rparr>)"
      unfolding relpowp_add by blast
    then show ?case by simp
  qed simp
  have "filter (\<lambda>r. r \<noteq> Spawned) (au_runs s) \<noteq> []"
    using assms(2) by (auto simp: writer_taken_def list_ex_iff filter_empty_conv)
  with one_writer_reach [OF assms(1)] show "length (filter (\<lambda>r. r \<noteq> Spawned) (au_runs s)) = 1"
    by (cases "filter (\<lambda>r. r \<noteq> Spawned) (au_runs s)") (auto simp: one_writer_def)
qed

theorem auto_scan_restarts_witness:
  "\<exists>s t. asc.reach s \<and> (daily_step ^^ 120) s t \<and> au_notices t = 61 \<and> au_begun t = 1"
proof -
  define s0 where "s0 = \<lparr>au_day = js ''2025-01-01'', au_file = NoState, au_runs = [], au_notices = 0, au_begun = 0\<rparr>"
  let ?c = "default_config one_drive"
  let ?s1 = "auto_tick (Inr ?c) [] s0"
  have c: "rc_auto_scan_enabled ?c" "avg_cpu [] < 20" by (simp_all add: default_config_def avg_cpu_def)
  have s1: "?s1 = s0\<lparr>au_notices := 1, au_runs := [Spawned]\<rparr>"
    using c by (simp add: auto_tick_def auto_decision_def s0_def load_or_default_def load_state_def default_state_def
        need_run_def Let_def)
  have b: "run_begins True True [] [] ?s1 = busy_day"
    unfolding s1 by (simp add: run_begins_def writer_taken_def s0_def busy_day_def mark_started_def)
  have "asc.reach s0" by (rule asc.reach_start) (simp add: s0_def auto_begin_def)
  then have "asc.reach ?s1" by (rule asc.reach_step) (intro daily tick)
  then have r: "asc.reach busy_day"
    using daily [OF begins [of ?s1 "[]" "[]" True True]] unfolding b by (auto simp: s1 intro: asc.reach_step)
  have "writer_taken busy_day" "need_run (load_or_default (au_file busy_day)) (au_day busy_day)"
    by (simp_all add: busy_day_def writer_taken_def load_or_default_def load_state_def need_run_def)
  from auto_scan_restarts [OF r this c, of 60] r show ?thesis
    by (intro exI [of _ busy_day] exI [of _ "busy_day\<lparr>au_notices := au_notices busy_day + 60\<rparr>"]) (simp add: busy_day_def)
qed

end
