(* ===== verification/Diagnostics.thy ===== *)
theory Diagnostics
  imports AutoScan
begin

text \<open>
  \<open>src-tauri/src/diagnostics.rs\<close>: the health report. What the machine answers is a record
  of parameters: whether a directory exists, what opening the index gives (its field names and,
  if they can be counted, its documents), the loads of the processors and the memory.
\<close>

record diag_env =
  dx_exists :: "js_string \<Rightarrow> bool"
  dx_open :: "js_string \<Rightarrow> js_string + js_string list \<times> nat option"
  dx_cpus :: "rat list"
  dx_total_mem :: "64 word"
  dx_free_mem :: "64 word"

record RustReport =
  rp_index_dir :: js_string
  rp_index_open_ok :: bool
  rp_index_doc_count :: "nat option"
  rp_schema_fields :: "js_string list option"
  rp_config_scan_roots_count :: nat
  rp_config_auto_scan_enabled :: bool
  rp_pipeline_started :: bool
  rp_pipeline_completed :: bool
  rp_pipeline_last_day :: "js_string option"
  rp_sys_cpu_avg :: "rat option"
  rp_sys_total_mem_kib :: "64 word option"
  rp_sys_free_mem_kib :: "64 word option"
  rp_warnings :: "js_string list"

definition warn_roots :: js_string where
  "warn_roots = js ''config.scan_roots is empty''"

definition warn_dir_empty :: js_string where
  "warn_dir_empty = js ''config.index_dir is empty''"

definition warn_dir_missing :: js_string where
  "warn_dir_missing = js ''index_dir does not exist''"

definition warn_open :: "js_string \<Rightarrow> js_string" where
  "warn_open e = js ''open index failed: '' @ e"

definition sys_cpu_avg :: "rat list \<Rightarrow> rat option" where
  "sys_cpu_avg cpus = (if cpus = [] then None else Some (sum_list cpus / of_nat (length cpus)))"

definition config_warnings :: "diag_env \<Rightarrow> RustConfig \<Rightarrow> js_string list" where
  "config_warnings env cfg =
     (if rc_scan_roots cfg = [] then [warn_roots] else [])
     @ (if blank (rc_index_dir cfg) then [warn_dir_empty] else [])
     @ (if \<not> dx_exists env (rc_index_dir cfg) then [warn_dir_missing] else [])"

text \<open>Whether the index opened, its documents, its fields, and the warning if it did not.\<close>

definition index_status :: "diag_env \<Rightarrow> js_string \<Rightarrow> bool \<times> nat option \<times> js_string list option \<times> js_string list" where
  "index_status env dir =
     (if dx_exists env dir
      then case dx_open env dir of
          Inr (names, cnt) \<Rightarrow> (True, cnt, Some names, [])
        | Inl e \<Rightarrow> (False, None, None, [warn_open e])
      else (False, None, None, []))"

definition diagnostics_report :: "diag_env \<Rightarrow> config_env \<Rightarrow> config_store \<Rightarrow> state_file \<Rightarrow> RustReport result" where
  "diagnostics_report env cenv store file =
     (case fst (read_config cenv store) of Inl e \<Rightarrow> Inl e
      | Inr cfg \<Rightarrow>
          let st = load_or_default file; (open_ok, cnt, names, w) = index_status env (rc_index_dir cfg)
          in Inr \<lparr>rp_index_dir = rc_index_dir cfg, rp_index_open_ok = open_ok, rp_index_doc_count = cnt,
               rp_schema_fields = names, rp_config_scan_roots_count = length (rc_scan_roots cfg),
               rp_config_auto_scan_enabled = rc_auto_scan_enabled cfg,
               rp_pipeline_started = (ps_last_day st \<noteq> None \<and> \<not> ps_completed st),
               rp_pipeline_completed = ps_completed st, rp_pipeline_last_day = ps_last_day st,
               rp_sys_cpu_avg = sys_cpu_avg (dx_cpus env), rp_sys_total_mem_kib = Some (dx_total_mem env),
               rp_sys_free_mem_kib = Some (dx_free_mem env), rp_warnings = config_warnings env cfg @ w\<rparr>)"

text \<open>A machine whose index opens with three documents.\<close>

definition healthy :: diag_env where
  "healthy = \<lparr>dx_exists = (\<lambda>_. True), dx_open = (\<lambda>_. Inr ([js ''path''], Some 3)), dx_cpus = [10, 20],
     dx_total_mem = 16, dx_free_mem = 8\<rparr>"

section \<open>Properties\<close>

text \<open>
  The health report is consistent: it has no warning exactly when the index could be
  opened, and then and only then it lists the fields of the schema; the pipeline is never
  reported as started and completed at once. The warnings about missing roots and a blank
  index directory cannot occur at all, because the configuration is repaired when it is read.
\<close>

theorem diagnostics_consistent:
  assumes "\<not> blank (ce_index_dir cenv)" "\<not> in_src_tauri cenv (ce_index_dir cenv)"
    and "diagnostics_report env cenv store file = Inr r"
  shows "(rp_warnings r = [] \<longleftrightarrow> rp_index_open_ok r) \<and> (rp_schema_fields r \<noteq> None \<longleftrightarrow> rp_index_open_ok r)
    \<and> (rp_index_doc_count r \<noteq> None \<longrightarrow> rp_index_open_ok r)
    \<and> \<not> (rp_pipeline_started r \<and> rp_pipeline_completed r) \<and> 0 < rp_config_scan_roots_count r
    \<and> warn_roots \<notin> set (rp_warnings r) \<and> warn_dir_empty \<notin> set (rp_warnings r)"
proof -
  obtain cfg st' where cfg: "read_config cenv store = (Inr cfg, st')"
    using assms(3) by (cases "read_config cenv store") (auto simp: diagnostics_report_def split: sum.splits)
  from read_config_cases [OF this] have "usable cenv cfg"
    using repair_usable [OF assms(1,2)] default_usable [OF assms(1,2)] by auto
  then have u: "rc_scan_roots cfg \<noteq> []" "\<not> blank (rc_index_dir cfg)" by (simp_all add: usable_def)
  have "warn_open e \<noteq> warn_roots" "warn_open e \<noteq> warn_dir_empty" "warn_roots \<noteq> warn_open e" "warn_dir_empty \<noteq> warn_open e" for e
    by (simp_all add: warn_open_def warn_roots_def warn_dir_empty_def)
  moreover have "warn_dir_missing \<noteq> warn_roots" "warn_dir_missing \<noteq> warn_dir_empty"
    by (simp_all add: warn_dir_missing_def warn_roots_def warn_dir_empty_def)
  ultimately show ?thesis
    using assms(3) u
    by (auto simp: diagnostics_report_def cfg config_warnings_def index_status_def Let_def split: if_splits sum.splits)
qed

theorem diagnostics_consistent_witness:
  "\<exists>r. diagnostics_report healthy one_drive empty_store NoState = Inr r \<and> rp_warnings r = [] \<and> rp_index_open_ok r"
proof -
  obtain r where r: "diagnostics_report healthy one_drive empty_store NoState = Inr r" "rp_index_open_ok r"
    by (simp add: diagnostics_report_def read_config_def write_config_def empty_store_def index_status_def healthy_def
        Let_def)
  from diagnostics_consistent [OF one_drive_ok r(1)] r show ?thesis by blast
qed

end
