(* ===== verification/SearchBackend.thy ===== *)
theory SearchBackend
  imports Api "HOL-Library.Word"
begin

text \<open>
  \<open>src-tauri/src/search.rs\<close>: the search command. The index library is a parameter: whether
  an index can be opened, which fields its schema has, whether a query parses, and the
  documents that match it, best first, with their scores. The loop over the best fifty and
  its filters are the program's own.
\<close>

section \<open>Data\<close>

datatype rust_error = Failed js_error | Panicked

record RustFilters =
  rfl_ext :: "js_string list option"
  rfl_min_size :: "64 word option"
  rfl_max_size :: "64 word option"

record RustResult =
  rr_path :: js_string
  rr_name :: js_string
  rr_ext :: js_string
  rr_score :: js_number
  rr_size :: "64 word option"
  rr_modified_ts :: "int option"
  rr_summary :: "js_string option"

record QueryRequest =
  qr_query :: js_string
  qr_filters :: "RustFilters option"
  qr_index_dir :: js_string

text \<open>The stored fields of a document, \<open>None\<close> for a field without a value of its type.\<close>

record stored_doc =
  sd_path :: "js_string option"
  sd_name :: "js_string option"
  sd_ext :: "js_string option"
  sd_size :: "64 word option"
  sd_modified_ts :: "int option"
  sd_summary :: "js_string option"

record opened_index =
  oi_fields :: "string list"
  oi_parse :: "js_string \<Rightarrow> unit result"
  oi_ranking :: "js_string \<Rightarrow> (js_number \<times> stored_doc result) list result"

section \<open>Filters\<close>

definition eq_ignore_ascii_case :: "js_string \<Rightarrow> js_string \<Rightarrow> bool" where
  "eq_ignore_ascii_case a b \<longleftrightarrow> map ascii_lower a = map ascii_lower b"

text \<open>The three tests of the loop, \<open>True\<close> for a \<open>continue\<close>.\<close>

definition skip_by_ext :: "RustFilters \<Rightarrow> js_string \<Rightarrow> bool" where
  "skip_by_ext fl ext =
     (case rfl_ext fl of None \<Rightarrow> False
      | Some exts \<Rightarrow> exts \<noteq> [] \<and> \<not> list_ex (\<lambda>e. eq_ignore_ascii_case e ext) exts)"

definition skip_by_min :: "RustFilters \<Rightarrow> 64 word option \<Rightarrow> bool" where
  "skip_by_min fl sz =
     (case rfl_min_size fl of None \<Rightarrow> False
      | Some lo \<Rightarrow> (case sz of None \<Rightarrow> False | Some n \<Rightarrow> n < lo))"

definition skip_by_max :: "RustFilters \<Rightarrow> 64 word option \<Rightarrow> bool" where
  "skip_by_max fl sz =
     (case rfl_max_size fl of None \<Rightarrow> False
      | Some hi \<Rightarrow> (case sz of None \<Rightarrow> False | Some n \<Rightarrow> hi < n))"

definition or_empty :: "js_string option \<Rightarrow> js_string" where
  "or_empty v = (case v of None \<Rightarrow> [] | Some s \<Rightarrow> s)"

section \<open>The command\<close>

definition result_of :: "opened_index \<Rightarrow> js_number \<Rightarrow> stored_doc \<Rightarrow> RustResult" where
  "result_of ix score d = \<lparr>rr_path = or_empty (sd_path d), rr_name = or_empty (sd_name d),
     rr_ext = or_empty (sd_ext d), rr_score = score,
     rr_size = (if ''size'' \<in> set (oi_fields ix) then sd_size d else None),
     rr_modified_ts = (if ''modified_ts'' \<in> set (oi_fields ix) then sd_modified_ts d else None),
     rr_summary = (if ''summary'' \<in> set (oi_fields ix) then sd_summary d else None)\<rparr>"

definition skipped :: "RustFilters option \<Rightarrow> RustResult \<Rightarrow> bool" where
  "skipped filters r =
     (case filters of None \<Rightarrow> False
      | Some fl \<Rightarrow> if skip_by_ext fl (rr_ext r) then True
          else if skip_by_min fl (rr_size r) then True else skip_by_max fl (rr_size r))"

fun query_loop :: "opened_index \<Rightarrow> RustFilters option \<Rightarrow> (js_number \<times> stored_doc result) list
    \<Rightarrow> RustResult list \<Rightarrow> rust_error + RustResult list" where
  "query_loop ix filters [] acc = Inr acc"
| "query_loop ix filters ((score, doc) # docs) acc =
     (case doc of Inl e \<Rightarrow> Inl (Failed e)
      | Inr d \<Rightarrow>
          let r = result_of ix score d
          in query_loop ix filters docs (if skipped filters r then acc else acc @ [r]))"

definition search_query :: "(js_string \<Rightarrow> opened_index result) \<Rightarrow> QueryRequest
    \<Rightarrow> rust_error + RustResult list" where
  "search_query open_in_dir req =
     (case open_in_dir (qr_index_dir req) of Inl e \<Rightarrow> Inl (Failed e)
      | Inr ix \<Rightarrow>
          if \<not> list_all (\<lambda>f. f \<in> set (oi_fields ix)) [''name'', ''content'', ''ext'', ''path''] then Inl Panicked
          else case oi_parse ix (qr_query req) of Inl e \<Rightarrow> Inl (Failed e)
          | Inr _ \<Rightarrow>
              (case oi_ranking ix (qr_query req) of Inl e \<Rightarrow> Inl (Failed e)
               | Inr ranked \<Rightarrow> query_loop ix (qr_filters req) (take 50 ranked) []))"

section \<open>The filters as a specification\<close>

text \<open>What a user of the filters expects of a result.\<close>

definition passes :: "RustFilters option \<Rightarrow> RustResult \<Rightarrow> bool" where
  "passes filters r \<longleftrightarrow> (\<forall>fl. filters = Some fl \<longrightarrow>
       (\<forall>exts. rfl_ext fl = Some exts \<and> exts \<noteq> [] \<longrightarrow>
          (\<exists>e\<in>set exts. map ascii_lower e = map ascii_lower (rr_ext r)))
     \<and> (\<forall>n. rr_size r = Some n \<longrightarrow>
          (\<forall>lo. rfl_min_size fl = Some lo \<longrightarrow> lo \<le> n) \<and> (\<forall>hi. rfl_max_size fl = Some hi \<longrightarrow> n \<le> hi)))"

lemma skipped_iff: "skipped filters r \<longleftrightarrow> \<not> passes filters r"
  by (auto simp: skipped_def passes_def skip_by_ext_def skip_by_min_def skip_by_max_def list_ex_iff
      eq_ignore_ascii_case_def not_less split: option.splits)

lemma query_loop_spec:
  "query_loop ix filters (map (\<lambda>(score, d). (score, Inr d)) docs) acc =
     Inr (acc @ filter (passes filters) (map (\<lambda>(score, d). result_of ix score d) docs))"
  by (induction docs arbitrary: acc) (auto simp: Let_def skipped_iff)

text \<open>A request and an index that answers with the given documents, all with score 1.\<close>

definition ranked_index :: "stored_doc list \<Rightarrow> js_string \<Rightarrow> opened_index result" where
  "ranked_index docs dir = Inr \<lparr>oi_fields = [''path'', ''name'', ''ext'', ''content'', ''summary'', ''size'', ''modified_ts''],
     oi_parse = (\<lambda>_. Inr ()), oi_ranking = (\<lambda>_. Inr (map (\<lambda>d. (Fin 1, Inr d)) docs))\<rparr>"

definition doc_of_ext :: "js_string \<Rightarrow> stored_doc" where
  "doc_of_ext x = \<lparr>sd_path = Some (js ''/d''), sd_name = Some (js ''n''), sd_ext = Some x, sd_size = Some 1,
     sd_modified_ts = Some 0, sd_summary = None\<rparr>"

definition md_request :: QueryRequest where
  "md_request = \<lparr>qr_query = js ''n'', qr_filters = Some \<lparr>rfl_ext = Some [js ''MD''], rfl_min_size = None,
     rfl_max_size = None\<rparr>, qr_index_dir = []\<rparr>"

section \<open>Properties\<close>

text \<open>
  C23. The search command returns, of the fifty best matches, exactly those that pass the
  filters, in the order of the ranking: an extension of the list, compared without case, and
  a size between the bounds, where a document without a size passes. It is never more than
  fifty results.
\<close>

theorem search_query_exact:
  assumes "open_in_dir (qr_index_dir req) = Inr ix"
    and "{''name'', ''content'', ''ext'', ''path''} \<subseteq> set (oi_fields ix)"
    and "oi_parse ix (qr_query req) = Inr ()"
    and "oi_ranking ix (qr_query req) = Inr (map (\<lambda>(score, d). (score, Inr d)) docs)"
  shows "\<exists>rs. search_query open_in_dir req = Inr rs \<and> length rs \<le> 50
     \<and> rs = filter (passes (qr_filters req)) (map (\<lambda>(score, d). result_of ix score d) (take 50 docs))"
proof -
  have "search_query open_in_dir req =
      Inr (filter (passes (qr_filters req)) (map (\<lambda>(score, d). result_of ix score d) (take 50 docs)))"
    using assms query_loop_spec [of ix "qr_filters req" "take 50 docs" "[]"]
    by (simp add: search_query_def flip: take_map)
  moreover have "length (filter P (map f (take 50 docs))) \<le> 50" for P f
    by (rule le_trans [OF length_filter_le]) simp
  ultimately show ?thesis by blast
qed

theorem search_query_exact_witness:
  "\<exists>rs. search_query (ranked_index [doc_of_ext (js ''txt''), doc_of_ext (js ''md'')]) md_request = Inr rs
     \<and> map rr_ext rs = [js ''md'']"
proof -
  let ?docs = "[(Fin 1, doc_of_ext (js ''txt'')), (Fin 1, doc_of_ext (js ''md''))]"
  obtain ix where ix: "ranked_index [doc_of_ext (js ''txt''), doc_of_ext (js ''md'')] (qr_index_dir md_request) = Inr ix"
    "oi_fields ix = [''path'', ''name'', ''ext'', ''content'', ''summary'', ''size'', ''modified_ts'']"
    "oi_parse ix (qr_query md_request) = Inr ()"
    "oi_ranking ix (qr_query md_request) = Inr (map (\<lambda>(score, d). (score, Inr d)) ?docs)"
    by (simp add: ranked_index_def)
  from search_query_exact [where open_in_dir = "ranked_index [doc_of_ext (js ''txt''), doc_of_ext (js ''md'')]"
      and req = md_request and ix = ix and docs = ?docs, OF ix(1) _ ix(3,4)] ix(2)
  show ?thesis by (auto simp: md_request_def passes_def result_of_def doc_of_ext_def or_empty_def ascii_lower_def)
qed

text \<open>
  The filters are applied after the limit: when the fifty best matches are all filtered
  out, the answer is empty, although a match further down may pass the filters.
\<close>

theorem search_filter_after_limit:
  assumes "open_in_dir (qr_index_dir req) = Inr ix"
    and "{''name'', ''content'', ''ext'', ''path''} \<subseteq> set (oi_fields ix)"
    and "oi_parse ix (qr_query req) = Inr ()"
    and "oi_ranking ix (qr_query req) = Inr (map (\<lambda>(score, d). (score, Inr d)) (docs @ rest))"
    and "length docs = 50" "\<And>score d. (score, d) \<in> set docs \<Longrightarrow> \<not> passes (qr_filters req) (result_of ix score d)"
  shows "search_query open_in_dir req = Inr []"
  using assms query_loop_spec [of ix "qr_filters req" docs "[]"]
  by (auto simp: search_query_def filter_empty_conv)

theorem search_filter_after_limit_witness:
  "search_query (ranked_index (replicate 50 (doc_of_ext (js ''log'')) @ [doc_of_ext (js ''md'')])) md_request = Inr []
   \<and> search_query (ranked_index [doc_of_ext (js ''md'')]) md_request \<noteq> Inr []"
proof
  let ?docs = "replicate 50 (Fin 1, doc_of_ext (js ''log''))"
  obtain ix where ix: "ranked_index (replicate 50 (doc_of_ext (js ''log'')) @ [doc_of_ext (js ''md'')])
      (qr_index_dir md_request) = Inr ix"
    "oi_fields ix = [''path'', ''name'', ''ext'', ''content'', ''summary'', ''size'', ''modified_ts'']"
    "oi_parse ix (qr_query md_request) = Inr ()"
    "oi_ranking ix (qr_query md_request) = Inr (map (\<lambda>(score, d). (score, Inr d)) (?docs @ [(Fin 1, doc_of_ext (js ''md''))]))"
    by (simp add: ranked_index_def map_replicate)
  have "\<not> passes (qr_filters md_request) (result_of ix score (doc_of_ext (js ''log'')))" for score
    by (simp add: md_request_def passes_def result_of_def doc_of_ext_def or_empty_def ascii_lower_def)
  with search_filter_after_limit [where req = md_request and ix = ix and docs = ?docs and
      open_in_dir = "ranked_index (replicate 50 (doc_of_ext (js ''log'')) @ [doc_of_ext (js ''md'')])", OF ix(1) _ ix(3,4)] ix(2)
  show "search_query (ranked_index (replicate 50 (doc_of_ext (js ''log'')) @ [doc_of_ext (js ''md'')])) md_request = Inr []"
    by (auto simp: in_set_replicate)
  show "search_query (ranked_index [doc_of_ext (js ''md'')]) md_request \<noteq> Inr []" by code_simp
qed

end
