(* ===== verification/IndexStore.thy ===== *)
theory IndexStore
  imports Scanner SearchBackend Utf8
begin

text \<open>
  \<open>src-tauri/src/indexer.rs\<close> and the commands \<open>build_inverted_index_progress\<close> and
  \<open>delete_file_and_index\<close> of \<open>main.rs\<close>: the program's work on the full text index. The index
  library is a parameter. Its committed content is a list of documents in the order they were
  added; a document is deleted by a term of its path field, so by a token that the library's
  tokenizer makes of the path. What may fail is a set of flags. Changes of a writer count only
  when they are committed.
\<close>

section \<open>Data\<close>

record index_doc =
  id_path :: js_string
  id_name :: js_string
  id_ext :: js_string
  id_size :: "64 word"
  id_modified_ts :: int
  id_content :: "js_string option"
  id_summary :: "js_string option"

record IndexOptions =
  ix_index_dir :: js_string
  ix_enable_content_parse :: bool

text \<open>
  The library and the machine: the tokens of a path, the hit a term query ranks first, which
  calls succeed, and whether a file may be removed.
\<close>

record index_env =
  tokens :: "js_string \<Rightarrow> js_string list"
  first_hit :: "index_doc list \<Rightarrow> index_doc"
  can_create_dir :: bool
  can_create :: bool
  can_write :: bool
  can_read :: bool
  can_search :: bool
  can_load :: bool
  can_add :: bool
  can_commit :: bool
  has_path_field :: bool
  can_remove :: "js_string \<Rightarrow> bool"
  index_sample_var :: "js_string option"

text \<open>The files with their content, and the documents of the index, \<open>None\<close> when there is no index.\<close>

record backend =
  bk_files :: "js_string \<Rightarrow> byte list option"
  bk_index :: "index_doc list option"

datatype index_event = IndexProgress nat "nat option" js_string js_string bool | IndexDone

definition tantivy_error :: rust_error where
  "tantivy_error = Failed (Rejected (js ''tantivy''))"

section \<open>Documents\<close>

definition text_like :: "js_string list" where
  "text_like = map js [''txt'', ''md'', ''csv'', ''log'', ''json'', ''xml'', ''ini'', ''conf'', ''yaml'', ''yml'']"

definition is_text_like :: "js_string \<Rightarrow> bool" where
  "is_text_like ext = list_ex (\<lambda>e. eq_ignore_ascii_case e ext) text_like"

text \<open>\<open>parse_content\<close> of \<open>indexer.rs\<close>: malformed bytes are replaced.\<close>

definition parse_content :: "backend \<Rightarrow> RustFile \<Rightarrow> js_string option" where
  "parse_content st fm =
     (if \<not> is_text_like (rf_ext fm) then None
      else case bk_files st (rf_path fm) of None \<Rightarrow> None
      | Some bytes \<Rightarrow> Some (from_utf8_lossy (take 1000000 bytes)))"

text \<open>The same in \<open>build_inverted_index_progress\<close>: malformed bytes make the content disappear.\<close>

definition strict_content :: "backend \<Rightarrow> RustFile \<Rightarrow> js_string option" where
  "strict_content st fm =
     (if is_text_like (rf_ext fm)
      then case bk_files st (rf_path fm) of None \<Rightarrow> None | Some bytes \<Rightarrow> from_utf8 (take 1000000 bytes)
      else None)"

definition plain_doc :: "RustFile \<Rightarrow> index_doc" where
  "plain_doc fm = \<lparr>id_path = rf_path fm, id_name = rf_file_name fm, id_ext = rf_ext fm, id_size = rf_size fm,
     id_modified_ts = rf_modified_ts fm, id_content = None, id_summary = None\<rparr>"

text \<open>\<open>doc.add_text(f_content, ..)\<close> and the summary of at most 300 characters.\<close>

definition add_content :: "js_string option \<Rightarrow> index_doc \<Rightarrow> index_doc" where
  "add_content content d =
     (case content of None \<Rightarrow> d
      | Some t \<Rightarrow> let summary = take 300 t in
          d\<lparr>id_content := Some t, id_summary := (if summary \<noteq> [] then Some summary else id_summary d)\<rparr>)"

definition build_doc :: "backend \<Rightarrow> IndexOptions \<Rightarrow> RustFile \<Rightarrow> index_doc" where
  "build_doc st opts fm =
     add_content (if ix_enable_content_parse opts then parse_content st fm else None) (plain_doc fm)"

definition progress_doc :: "backend \<Rightarrow> IndexOptions \<Rightarrow> RustFile \<Rightarrow> index_doc" where
  "progress_doc st opts fm =
     add_content (if ix_enable_content_parse opts then strict_content st fm else None) (plain_doc fm)"

section \<open>indexer::build\<close>

fun add_all :: "index_env \<Rightarrow> backend \<Rightarrow> IndexOptions \<Rightarrow> RustFile list \<Rightarrow> index_doc list
    \<Rightarrow> rust_error + index_doc list" where
  "add_all env st opts [] docs = Inr docs"
| "add_all env st opts (fm # files) docs =
     (if \<not> can_add env then Inl tantivy_error
      else if sample_every (index_sample_var env) 500 = 0 then Inl Panicked
      else add_all env st opts files (docs @ [build_doc st opts fm]))"

text \<open>The sampled log line divides by its rate. \<open>create_in_dir\<close> refuses a directory that holds an index.\<close>

definition build :: "index_env \<Rightarrow> RustFile list \<Rightarrow> IndexOptions \<Rightarrow> backend
    \<Rightarrow> (rust_error + unit) \<times> backend" where
  "build env files opts st =
     (if \<not> can_create_dir env \<or> bk_index st \<noteq> None \<or> \<not> can_create env then (Inl tantivy_error, st)
      else let st1 = st\<lparr>bk_index := Some []\<rparr> in
        if \<not> can_write env then (Inl tantivy_error, st1)
        else case add_all env st1 opts files [] of Inl e \<Rightarrow> (Inl e, st1)
        | Inr docs \<Rightarrow> if \<not> can_commit env then (Inl tantivy_error, st1)
            else (Inr (), st1\<lparr>bk_index := Some docs\<rparr>))"

section \<open>build_inverted_index_progress\<close>

definition hits :: "index_env \<Rightarrow> js_string \<Rightarrow> index_doc list \<Rightarrow> index_doc list" where
  "hits env term docs = filter (\<lambda>d. term \<in> set (tokens env (id_path d))) docs"

definition delete_term :: "index_env \<Rightarrow> js_string \<Rightarrow> index_doc list \<Rightarrow> index_doc list" where
  "delete_term env term docs = filter (\<lambda>d. term \<notin> set (tokens env (id_path d))) docs"

text \<open>What the look-up of the old document decides: nothing, skip the file, or delete first.\<close>

datatype verdict = Keep | Skip | Replace

definition old_version :: "index_env \<Rightarrow> index_doc list \<Rightarrow> RustFile \<Rightarrow> verdict" where
  "old_version env snapshot fm =
     (if \<not> can_search env \<or> hits env (rf_path fm) snapshot = [] then Keep
      else if can_load env \<and> (let old = first_hit env (hits env (rf_path fm) snapshot) in
                id_modified_ts old = rf_modified_ts fm \<and> id_size old = rf_size fm) then Skip
      else Replace)"

fun index_files :: "index_env \<Rightarrow> backend \<Rightarrow> IndexOptions \<Rightarrow> index_doc list \<Rightarrow> nat \<Rightarrow> nat \<Rightarrow> RustFile list
    \<Rightarrow> index_doc list \<Rightarrow> index_event list \<Rightarrow> (rust_error + index_doc list) \<times> index_event list" where
  "index_files env st opts snapshot tot i [] docs evs = (Inr docs, evs)"
| "index_files env st opts snapshot tot i (fm # files) docs evs =
     (case old_version env snapshot fm of
        Skip \<Rightarrow> index_files env st opts snapshot tot (i + 1) files docs
          (evs @ [IndexProgress (i + 1) (Some tot) (rf_file_name fm) (rf_path fm) True])
      | v \<Rightarrow>
          let docs1 = (if v = Replace then delete_term env (rf_path fm) docs else docs)
          in if \<not> can_add env then (Inl tantivy_error, evs)
             else index_files env st opts snapshot tot (i + 1) files (docs1 @ [progress_doc st opts fm])
               (evs @ [IndexProgress (i + 1) (Some tot) (rf_file_name fm) (rf_path fm) False]))"

definition build_inverted_index_progress :: "index_env \<Rightarrow> RustFile list \<Rightarrow> IndexOptions \<Rightarrow> backend
    \<Rightarrow> (rust_error + unit) \<times> backend \<times> index_event list" where
  "build_inverted_index_progress env files opts st =
     (if \<not> can_create_dir env \<or> (bk_index st = None \<and> \<not> can_create env) then (Inl tantivy_error, st, [])
      else let snapshot = (case bk_index st of None \<Rightarrow> [] | Some docs \<Rightarrow> docs);
               st1 = st\<lparr>bk_index := Some snapshot\<rparr> in
        if \<not> can_write env \<or> \<not> can_read env then (Inl tantivy_error, st1, [])
        else case index_files env st1 opts snapshot (length files) 0 files snapshot [] of
          (Inl e, evs) \<Rightarrow> (Inl e, st1, evs)
        | (Inr docs, evs) \<Rightarrow> if \<not> can_commit env then (Inl tantivy_error, st1, evs)
            else (Inr (), st1\<lparr>bk_index := Some docs\<rparr>, evs @ [IndexDone]))"

section \<open>delete_file_and_index\<close>

definition delete_file_and_index :: "index_env \<Rightarrow> js_string \<Rightarrow> backend \<Rightarrow> (rust_error + unit) \<times> backend" where
  "delete_file_and_index env path st =
     (if bk_files st path = None \<or> \<not> can_remove env path then (Inl (Failed (Rejected path)), st)
      else let st1 = st\<lparr>bk_files := (bk_files st)(path := None)\<rparr> in
        case bk_index st1 of None \<Rightarrow> (Inr (), st1)
        | Some docs \<Rightarrow>
            if \<not> has_path_field env \<or> \<not> can_write env \<or> \<not> can_commit env then (Inl tantivy_error, st1)
            else (Inr (), st1\<lparr>bk_index := Some (delete_term env path docs)\<rparr>))"

section \<open>Terms that are never tokens\<close>

definition has_separator :: "js_string \<Rightarrow> bool" where
  "has_separator p \<longleftrightarrow> 47 \<in> set p \<or> 92 \<in> set p"

text \<open>The tokenizer splits at every character that is not alphanumeric, so at the separators.\<close>

definition splits_paths :: "index_env \<Rightarrow> bool" where
  "splits_paths env \<longleftrightarrow> (\<forall>s. \<forall>t\<in>set (tokens env s). \<not> has_separator t)"

lemma path_no_token:
  assumes "splits_paths env" "has_separator p"
  shows "hits env p docs = []" "delete_term env p docs = docs"
  using assms by (auto simp: splits_paths_def hits_def delete_term_def filter_empty_conv filter_id_conv)

lemma index_files_adds:
  assumes "splits_paths env" "can_add env" "\<forall>fm\<in>set files. has_separator (rf_path fm)"
  shows "index_files env st opts snapshot tot i files docs evs =
     (Inr (docs @ map (progress_doc st opts) files),
      evs @ map (\<lambda>(k, fm). IndexProgress k (Some tot) (rf_file_name fm) (rf_path fm) False) (enumerate (i + 1) files))"
  using assms(3)
proof (induction files arbitrary: i docs evs)
  case (Cons fm files)
  then have "old_version env snapshot fm = Keep" by (simp add: old_version_def path_no_token(1) [OF assms(1)])
  with Cons assms(2) show ?case by simp
qed simp

lemma add_all_spec:
  "can_add env \<Longrightarrow> add_all env st opts files docs =
     (if sample_every (index_sample_var env) 500 = 0 \<and> files \<noteq> [] then Inl Panicked
      else Inr (docs @ map (build_doc st opts) files))"
  by (induction files arbitrary: docs) auto

lemma doc_path [simp]: "id_path (progress_doc st opts fm) = rf_path fm" "id_path (build_doc st opts fm) = rf_path fm"
  by (simp_all add: progress_doc_def build_doc_def add_content_def plain_doc_def Let_def split: option.split)

text \<open>The documents depend on the files, not on the index.\<close>

lemma doc_index_free [simp]:
  "progress_doc (st\<lparr>bk_index := x\<rparr>) opts fm = progress_doc st opts fm"
  "build_doc (st\<lparr>bk_index := x\<rparr>) opts fm = build_doc st opts fm"
  by (simp_all add: progress_doc_def build_doc_def strict_content_def parse_content_def)

definition all_works :: "index_env \<Rightarrow> bool" where
  "all_works env \<longleftrightarrow> can_create_dir env \<and> can_create env \<and> can_write env \<and> can_read env \<and> can_search env
     \<and> can_load env \<and> can_add env \<and> can_commit env \<and> has_path_field env"

definition index_docs :: "backend \<Rightarrow> index_doc list" where
  "index_docs st = (case bk_index st of None \<Rightarrow> [] | Some docs \<Rightarrow> docs)"

text \<open>A tokenizer of alphanumeric runs, a machine without faults, and one file.\<close>

definition ascii_alnum :: "js_char \<Rightarrow> bool" where
  "ascii_alnum c \<longleftrightarrow> 48 \<le> c \<and> c \<le> 57 \<or> 65 \<le> c \<and> c \<le> 90 \<or> 97 \<le> c \<and> c \<le> 122"

fun alnum_runs :: "js_string \<Rightarrow> js_string \<Rightarrow> js_string list" where
  "alnum_runs acc [] = (if acc = [] then [] else [acc])"
| "alnum_runs acc (c # cs) =
     (if ascii_alnum c then alnum_runs (acc @ [ascii_lower c]) cs
      else (if acc = [] then [] else [acc]) @ alnum_runs [] cs)"

definition working_env :: index_env where
  "working_env = \<lparr>tokens = alnum_runs [], first_hit = hd, can_create_dir = True, can_create = True, can_write = True,
     can_read = True, can_search = True, can_load = True, can_add = True, can_commit = True, has_path_field = True,
     can_remove = (\<lambda>_. True), index_sample_var = None\<rparr>"

definition one_file :: RustFile where
  "one_file = \<lparr>rf_path = js ''/d/a.txt'', rf_file_name = js ''a.txt'', rf_ext = js ''txt'', rf_size = 2, rf_modified_ts = 7\<rparr>"

definition one_disk :: backend where
  "one_disk = \<lparr>bk_files = [js ''/d/a.txt'' \<mapsto> [104, 105]], bk_index = None\<rparr>"

definition parse_opts :: IndexOptions where
  "parse_opts = \<lparr>ix_index_dir = js ''/i'', ix_enable_content_parse = True\<rparr>"

lemma alnum_runs_separator: "\<not> has_separator acc \<Longrightarrow> t \<in> set (alnum_runs acc cs) \<Longrightarrow> \<not> has_separator t"
proof (induction acc cs rule: alnum_runs.induct)
  case (2 acc c cs)
  have "ascii_alnum c \<Longrightarrow> ascii_lower c \<noteq> 47 \<and> ascii_lower c \<noteq> 92" by (auto simp: ascii_alnum_def ascii_lower_def)
  with 2 show ?case by (auto simp: has_separator_def split: if_splits)
qed (auto split: if_splits)

lemma working_env_ok: "splits_paths working_env" "all_works working_env"
  using alnum_runs_separator [of "[]"]
  by (auto simp: splits_paths_def working_env_def all_works_def has_separator_def)

lemma one_file_text: "is_text_like (rf_ext one_file)" "has_separator (rf_path one_file)"
  "bk_files one_disk (rf_path one_file) = Some (utf8 (js ''hi''))" "list_all scalar (js ''hi'')"
  "length (utf8 (js ''hi'')) = 2"
  by code_simp+

lemma one_file_doc: "id_summary (progress_doc one_disk parse_opts one_file) = Some (js ''hi'')"
proof -
  have "strict_content one_disk one_file = Some (js ''hi'')"
    using one_file_text from_utf8_take(1) [OF one_file_text(4), of 1000000] fitting_all [of "js ''hi''" 1000000]
    by (simp add: strict_content_def)
  then show ?thesis by (simp add: progress_doc_def parse_opts_def add_content_def Let_def)
qed

section \<open>Properties\<close>

text \<open>
  Building the index over an existing one adds every file again. The code looks up the
  old document of a file with the whole path as one term, but the index holds the tokens of
  the path, none of which contains a separator: no file is ever skipped, no old document is
  deleted, and each file gets one more document, with its events numbered from 1.
\<close>

theorem reindex_adds_again:
  assumes "splits_paths env" "all_works env" "\<forall>fm\<in>set files. has_separator (rf_path fm)"
  shows "build_inverted_index_progress env files opts st =
     (Inr (), st\<lparr>bk_index := Some (index_docs st @ map (progress_doc st opts) files)\<rparr>,
      map (\<lambda>(k, fm). IndexProgress k (Some (length files)) (rf_file_name fm) (rf_path fm) False) (enumerate 1 files)
        @ [IndexDone])"
  using assms index_files_adds [OF assms(1) _ assms(3)]
  by (simp add: build_inverted_index_progress_def all_works_def index_docs_def Let_def)

theorem reindex_adds_again_witness:
  "\<exists>st' st'' e1 e2. build_inverted_index_progress working_env [one_file] parse_opts one_disk = (Inr (), st', e1)
     \<and> build_inverted_index_progress working_env [one_file] parse_opts st' = (Inr (), st'', e2)
     \<and> map id_path (index_docs st'') = [js ''/d/a.txt'', js ''/d/a.txt'']
     \<and> map id_summary (index_docs st'') = [Some (js ''hi''), Some (js ''hi'')]"
proof -
  have "\<forall>fm\<in>set [one_file]. has_separator (rf_path fm)" using one_file_text(2) by simp
  moreover have "bk_index one_disk = None" "rf_path one_file = js ''/d/a.txt''" by (simp_all add: one_disk_def one_file_def)
  ultimately show ?thesis
    using reindex_adds_again [OF working_env_ok, of "[one_file]" parse_opts] one_file_doc by (simp add: index_docs_def)
qed



text \<open>
  C36. The content of a text file. Of a file that is valid UTF-8 the first million bytes are
  decoded; if they end inside a character, the progress variant of the indexer drops the whole
  content and its summary, while the plain one keeps the complete characters and one
  replacement character. A shorter file is kept as it is by both.
\<close>

theorem index_content_cut:
  assumes "is_text_like (rf_ext fm)" "bk_files st (rf_path fm) = Some (utf8 t)" "list_all scalar t"
  shows "strict_content st fm =
       (if splits_char 1000000 t then None else Some (take (fitting 1000000 t) t))
     \<and> parse_content st fm =
       Some (take (fitting 1000000 t) t @ (if splits_char 1000000 t then [0xFFFD] else []))
     \<and> (length (utf8 t) \<le> 1000000 \<longrightarrow> strict_content st fm = Some t \<and> parse_content st fm = Some t)"
proof (intro conjI impI)
  show a: "strict_content st fm = (if splits_char 1000000 t then None else Some (take (fitting 1000000 t) t))"
    and b: "parse_content st fm =
       Some (take (fitting 1000000 t) t @ (if splits_char 1000000 t then [0xFFFD] else []))"
    using assms from_utf8_take [OF assms(3), of 1000000] by (simp_all add: strict_content_def parse_content_def)
  assume "length (utf8 t) \<le> 1000000"
  from fitting_all [OF this] show "strict_content st fm = Some t" "parse_content st fm = Some t"
    by (simp_all add: a b)
qed

theorem index_content_cut_witness:
  "strict_content one_disk one_file = Some (js ''hi'') \<and> parse_content one_disk one_file = Some (js ''hi'')"
proof -
  have "length (utf8 (js ''hi'')) \<le> 1000000" unfolding one_file_text(5) by simp
  with index_content_cut [OF one_file_text(1,3,4)] show ?thesis by blast
qed

text \<open>
  The plain indexer works on a fresh directory only: there it leaves one document per
  file in their order, and over an existing index it fails and changes nothing. With a sampling
  rate of zero in the environment it panics at the first file and leaves an empty index.
\<close>

theorem build_fresh_only:
  assumes "all_works env"
  shows "build env files opts st =
     (if bk_index st \<noteq> None then (Inl tantivy_error, st)
      else if sample_every (index_sample_var env) 500 = 0 \<and> files \<noteq> [] then (Inl Panicked, st\<lparr>bk_index := Some []\<rparr>)
      else (Inr (), st\<lparr>bk_index := Some (map (build_doc st opts) files)\<rparr>))"
  using assms add_all_spec [of env "st\<lparr>bk_index := Some []\<rparr>" opts files "[]"]
  by (auto simp: build_def all_works_def Let_def)

theorem build_fresh_only_witness:
  "\<exists>st'. build working_env [one_file] parse_opts one_disk = (Inr (), st') \<and> length (index_docs st') = 1
     \<and> build working_env [one_file] parse_opts st' = (Inl tantivy_error, st')"
  using build_fresh_only [OF working_env_ok(2)]
  by (simp add: one_disk_def index_docs_def working_env_def sample_every_def)

end
