(* ===== verification/Pipeline.thy ===== *)
theory Pipeline
  imports IndexStore "HOL-Library.Multiset"
begin

text \<open>
  \<open>src-tauri/src/pipeline.rs\<close>: scanning and indexing in one run. The main task walks the
  roots, announces each file it accepts and hands it to a pool of worker threads; at the end
  it announces the end of the scan, records completion in the state file and announces the end
  of the indexing, without waiting for the workers. A worker writes the document of its file
  under the lock of the writer, takes the next number of a shared counter and announces it. A
  state of the machine below holds the entries still to be walked, the files handed over with
  the point each worker has reached, the counter, the documents of the index and the events
  sent so far; every interleaving of the main task and the workers is a run of the machine.
\<close>

section \<open>Setting up\<close>

text \<open>Two cores are kept free; the memory of the writer follows the size of the machine.\<close>

definition pool_threads :: "nat \<Rightarrow> nat" where
  "pool_threads cpu = max (max cpu 1 - 2) 1"

definition writer_heap_bytes :: "nat \<Rightarrow> nat" where
  "writer_heap_bytes total_mem = min (total_mem div 1024 div 64) 100 * 1000000"

record pipe_env =
  pe_scan :: scan_env
  pe_index :: index_env
  pe_heap_ok :: "nat \<Rightarrow> bool"
  pe_pool_ok :: "nat \<Rightarrow> bool"
  pe_add_ok :: "RustFile \<Rightarrow> bool"
  pe_commit_ok :: "RustFile \<Rightarrow> bool"
  pe_cpu :: nat
  pe_total_mem :: nat

section \<open>The walk\<close>

text \<open>The time of the last change, here from the file's own time stamp.\<close>

definition unix_ts :: "metadata \<Rightarrow> int" where
  "unix_ts md = (case md_modified md of None \<Rightarrow> 0 | Some t \<Rightarrow> if t < 0 then 0 else secs t)"

definition pipeline_visit :: "scan_env \<Rightarrow> js_string list \<Rightarrow> walk_item \<Rightarrow> RustFile option" where
  "pipeline_visit env patterns item =
     (case item of WalkError \<Rightarrow> None
      | WalkEntry e \<Rightarrow>
          if \<not> en_is_file e then None
          else case en_path e of None \<Rightarrow> None
          | Some path \<Rightarrow>
              if excluded patterns path then None
              else case en_metadata e of None \<Rightarrow> None
              | Some md \<Rightarrow>
                  if too_large (Some (500 * 1024 * 1024)) (md_len md) then None
                  else Some \<lparr>rf_path = path, rf_file_name = (case en_file_name e of None \<Rightarrow> [] | Some n \<Rightarrow> n),
                    rf_ext = lower_case env (case en_extension e of None \<Rightarrow> [] | Some x \<Rightarrow> x),
                    rf_size = md_len md, rf_modified_ts = unix_ts md\<rparr>)"

definition pipeline_items :: "scan_env \<Rightarrow> js_string list \<Rightarrow> walk_item list" where
  "pipeline_items env rs = concat (map (\<lambda>r. walk env r False) rs)"

text \<open>The document a worker makes: content is read without a check that the path is a file.\<close>

definition job_doc :: "backend \<Rightarrow> IndexOptions \<Rightarrow> RustFile \<Rightarrow> index_doc" where
  "job_doc st opts f =
     add_content
       (if ix_enable_content_parse opts \<and> is_text_like (rf_ext f)
        then Option.bind (bk_files st (rf_path f)) (\<lambda>bytes. from_utf8 (take 1000000 bytes)) else None)
       (plain_doc f)"

section \<open>The machine\<close>

datatype main_phase = Walking | AtMark | AtIndexDone | Returned

text \<open>A worker: in the queue, after the write, after the counter with its number, finished.\<close>

datatype job_phase = Queued | Written | Counted nat | Emitted nat

datatype pipe_event = PScan scan_event | PIndex index_event

record pipe =
  pp_items :: "walk_item list"
  pp_scanned :: nat
  pp_main :: main_phase
  pp_jobs :: "(RustFile \<times> job_phase) list"
  pp_counter :: nat
  pp_working :: "index_doc list"
  pp_docs :: "index_doc list"
  pp_completed :: bool
  pp_events :: "pipe_event list"

text \<open>Everything before the loop: the directory, the index, the pool, the writer, \<open>mark_started\<close>.\<close>

definition pipeline_start :: "pipe_env \<Rightarrow> js_string list \<Rightarrow> backend \<Rightarrow> rust_error + pipe" where
  "pipeline_start env rs st =
     (let ie = pe_index env; docs = (case bk_index st of None \<Rightarrow> [] | Some d \<Rightarrow> d) in
      if \<not> can_create_dir ie then Inl tantivy_error
      else if bk_index st = None \<and> \<not> can_create ie then Inl tantivy_error
      else if \<not> pe_pool_ok env (pool_threads (pe_cpu env)) then Inl tantivy_error
      else if \<not> can_write ie \<or> \<not> pe_heap_ok env (writer_heap_bytes (pe_total_mem env)) then Inl tantivy_error
      else Inr \<lparr>pp_items = pipeline_items (pe_scan env) rs, pp_scanned = 0, pp_main = Walking, pp_jobs = [],
        pp_counter = 0, pp_working = docs, pp_docs = docs, pp_completed = False, pp_events = []\<rparr>)"

definition visit_next :: "pipe_env \<Rightarrow> js_string list \<Rightarrow> pipe \<Rightarrow> pipe" where
  "visit_next env patterns s =
     (let s1 = s\<lparr>pp_items := tl (pp_items s)\<rparr> in
      case pipeline_visit (pe_scan env) patterns (hd (pp_items s)) of
        None \<Rightarrow> s1
      | Some f \<Rightarrow>
          let n = pp_scanned s + 1 in
          s1\<lparr>pp_scanned := n, pp_events := pp_events s @ [PScan (ScanProgress n (rf_path f) (rf_file_name f))],
             pp_jobs := pp_jobs s @ [(f, Queued)]\<rparr>)"

definition walk_ends :: "pipe \<Rightarrow> pipe" where
  "walk_ends s = s\<lparr>pp_main := AtMark, pp_events := pp_events s @ [PScan (ScanDone (pp_scanned s))]\<rparr>"

definition mark_done :: "pipe \<Rightarrow> pipe" where
  "mark_done s = s\<lparr>pp_main := AtIndexDone, pp_completed := True\<rparr>"

definition main_returns :: "pipe \<Rightarrow> pipe" where
  "main_returns s = s\<lparr>pp_main := Returned, pp_events := pp_events s @ [PIndex IndexDone]\<rparr>"

text \<open>\<open>delete_term\<close>, \<open>add_document\<close> and \<open>commit\<close> under the lock; failures are ignored.\<close>

definition job_writes :: "pipe_env \<Rightarrow> backend \<Rightarrow> IndexOptions \<Rightarrow> (RustFile \<times> job_phase) list \<Rightarrow> RustFile
    \<Rightarrow> (RustFile \<times> job_phase) list \<Rightarrow> pipe \<Rightarrow> pipe" where
  "job_writes env st opts xs f ys s =
     (let w1 = delete_term (pe_index env) (rf_path f) (pp_working s);
          w2 = (if pe_add_ok env f then w1 @ [job_doc st opts f] else w1)
      in s\<lparr>pp_jobs := xs @ (f, Written) # ys, pp_working := w2,
           pp_docs := (if pe_commit_ok env f then w2 else pp_docs s)\<rparr>)"

definition job_counts :: "(RustFile \<times> job_phase) list \<Rightarrow> RustFile \<Rightarrow> (RustFile \<times> job_phase) list
    \<Rightarrow> pipe \<Rightarrow> pipe" where
  "job_counts xs f ys s =
     (let cur = pp_counter s + 1 in s\<lparr>pp_counter := cur, pp_jobs := xs @ (f, Counted cur) # ys\<rparr>)"

definition job_emits :: "nat \<Rightarrow> (RustFile \<times> job_phase) list \<Rightarrow> RustFile \<Rightarrow> (RustFile \<times> job_phase) list
    \<Rightarrow> pipe \<Rightarrow> pipe" where
  "job_emits cur xs f ys s =
     s\<lparr>pp_jobs := xs @ (f, Emitted cur) # ys,
       pp_events := pp_events s @ [PIndex (IndexProgress cur None (rf_file_name f) (rf_path f) False)]\<rparr>"

inductive pipe_step :: "pipe_env \<Rightarrow> js_string list \<Rightarrow> backend \<Rightarrow> IndexOptions \<Rightarrow> pipe \<Rightarrow> pipe \<Rightarrow> bool"
  for env patterns st opts where
  visits: "pp_main s = Walking \<Longrightarrow> pp_items s \<noteq> [] \<Longrightarrow> pipe_step env patterns st opts s (visit_next env patterns s)"
| ends: "pp_main s = Walking \<Longrightarrow> pp_items s = [] \<Longrightarrow> pipe_step env patterns st opts s (walk_ends s)"
| marks: "pp_main s = AtMark \<Longrightarrow> pipe_step env patterns st opts s (mark_done s)"
| returns: "pp_main s = AtIndexDone \<Longrightarrow> pipe_step env patterns st opts s (main_returns s)"
| writes: "pp_jobs s = xs @ (f, Queued) # ys
     \<Longrightarrow> pipe_step env patterns st opts s (job_writes env st opts xs f ys s)"
| counts: "pp_jobs s = xs @ (f, Written) # ys \<Longrightarrow> pipe_step env patterns st opts s (job_counts xs f ys s)"
| emits: "pp_jobs s = xs @ (f, Counted cur) # ys \<Longrightarrow> pipe_step env patterns st opts s (job_emits cur xs f ys s)"

inductive_cases pipe_stepE: "pipe_step env patterns st opts s t"

definition pipe_begin :: "pipe_env \<Rightarrow> js_string list \<Rightarrow> backend \<Rightarrow> pipe \<Rightarrow> bool" where
  "pipe_begin env rs st s \<longleftrightarrow> pipeline_start env rs st = Inr s"

lemmas pipe_defs = visit_next_def walk_ends_def mark_done_def main_returns_def job_writes_def job_counts_def
  job_emits_def Let_def

section \<open>Termination\<close>

fun job_weight :: "job_phase \<Rightarrow> nat" where
  "job_weight Queued = 3" | "job_weight Written = 2" | "job_weight (Counted _) = 1" | "job_weight (Emitted _) = 0"

fun main_weight :: "main_phase \<Rightarrow> nat" where
  "main_weight Walking = 3" | "main_weight AtMark = 2" | "main_weight AtIndexDone = 1" | "main_weight Returned = 0"

definition pipe_weight :: "pipe \<Rightarrow> nat" where
  "pipe_weight s = 4 * length (pp_items s) + main_weight (pp_main s) + sum_list (map (job_weight \<circ> snd) (pp_jobs s))"

lemma pipe_step_lowers: "pipe_step env patterns st opts s t \<Longrightarrow> pipe_weight t < pipe_weight s"
  by (induction rule: pipe_step.induct)
    (auto simp: pipe_weight_def pipe_defs neq_Nil_conv split: option.split)

interpretation pl: terminating_system "pipe_begin env rs st" "pipe_step env patterns st opts" pipe_weight
  for env rs st patterns opts
  by unfold_locales (rule pipe_step_lowers)

text \<open>No step is possible exactly when the main task has returned and all workers are finished.\<close>

definition pipe_finished :: "pipe \<Rightarrow> bool" where
  "pipe_finished s \<longleftrightarrow> pp_main s = Returned \<and> (\<forall>(f, ph)\<in>set (pp_jobs s). \<exists>k. ph = Emitted k)"

lemma stuck_finished: "(\<forall>t. \<not> pipe_step env patterns st opts s t) \<Longrightarrow> pipe_finished s"
proof -
  assume stuck: "\<forall>t. \<not> pipe_step env patterns st opts s t"
  have main: "pp_main s = Returned"
    using stuck by (cases "pp_main s"; cases "pp_items s") (fastforce intro: pipe_step.intros)+
  have "\<exists>k. ph = Emitted k" if job: "(f, ph) \<in> set (pp_jobs s)" for f ph
  proof -
    obtain xs ys where "pp_jobs s = xs @ (f, ph) # ys" using split_list [OF job] by blast
    with stuck show ?thesis by (cases ph) (auto intro: pipe_step.intros)
  qed
  with main show ?thesis by (auto simp: pipe_finished_def)
qed

section \<open>Invariants\<close>

definition scan_events :: "pipe \<Rightarrow> scan_event list" where
  "scan_events s = List.map_filter (\<lambda>e. case e of PScan x \<Rightarrow> Some x | PIndex _ \<Rightarrow> None) (pp_events s)"

definition index_events :: "pipe \<Rightarrow> index_event list" where
  "index_events s = List.map_filter (\<lambda>e. case e of PScan _ \<Rightarrow> None | PIndex x \<Rightarrow> Some x) (pp_events s)"

definition pipe_files :: "pipe_env \<Rightarrow> js_string list \<Rightarrow> js_string list \<Rightarrow> RustFile list" where
  "pipe_files env patterns rs =
     List.map_filter (pipeline_visit (pe_scan env) patterns) (pipeline_items (pe_scan env) rs)"

text \<open>The number a worker has drawn, the event it has sent, the document it has written.\<close>

fun job_number :: "RustFile \<times> job_phase \<Rightarrow> nat option" where
  "job_number (f, Counted k) = Some k"
| "job_number (f, Emitted k) = Some k"
| "job_number (f, _) = None"

definition progress_event :: "nat \<Rightarrow> RustFile \<Rightarrow> index_event" where
  "progress_event k f = IndexProgress k None (rf_file_name f) (rf_path f) False"

fun job_event :: "RustFile \<times> job_phase \<Rightarrow> index_event option" where
  "job_event (f, Emitted k) = Some (progress_event k f)"
| "job_event (f, _) = None"

fun job_written :: "RustFile \<times> job_phase \<Rightarrow> RustFile option" where
  "job_written (f, Queued) = None"
| "job_written (f, _) = Some f"

definition walk_ok :: "pipe_env \<Rightarrow> js_string list \<Rightarrow> js_string list \<Rightarrow> pipe \<Rightarrow> bool" where
  "walk_ok env patterns rs s \<longleftrightarrow>
     map fst (pp_jobs s) @ List.map_filter (pipeline_visit (pe_scan env) patterns) (pp_items s) = pipe_files env patterns rs
     \<and> pp_scanned s = length (pp_jobs s) \<and> (pp_main s \<noteq> Walking \<longrightarrow> pp_items s = [])
     \<and> scan_events s = numbered_progress (map fst (pp_jobs s))
          @ (if pp_main s = Walking then [] else [ScanDone (length (pp_jobs s))])"

definition count_ok :: "pipe \<Rightarrow> bool" where
  "count_ok s \<longleftrightarrow> mset (List.map_filter job_number (pp_jobs s)) = mset [1..<Suc (pp_counter s)]
     \<and> mset (index_events s) = mset (List.map_filter job_event (pp_jobs s))
          + (if pp_main s = Returned then {#IndexDone#} else {#})
     \<and> pp_completed s = (pp_main s = AtIndexDone \<or> pp_main s = Returned)"

lemmas event_list_simps = scan_events_def index_events_def map_filter_append map_filter_simps

lemma walk_ok_step: "pipe_step env patterns st opts s t \<Longrightarrow> walk_ok env patterns rs s \<Longrightarrow> walk_ok env patterns rs t"
proof (induction rule: pipe_step.induct)
  case (visits s)
  then show ?case
    by (cases "pp_items s") (auto simp: walk_ok_def pipe_defs event_list_simps numbered_snoc split: option.splits)
qed (auto simp: walk_ok_def pipe_defs event_list_simps)

lemma count_ok_step: "pipe_step env patterns st opts s t \<Longrightarrow> count_ok s \<Longrightarrow> count_ok t"
  by (induction rule: pipe_step.induct)
    (auto simp: count_ok_def pipe_defs event_list_simps progress_event_def split: option.splits)

lemma start_fields:
  assumes "pipeline_start env rs st = Inr s"
  shows "s = \<lparr>pp_items = pipeline_items (pe_scan env) rs, pp_scanned = 0, pp_main = Walking, pp_jobs = [],
    pp_counter = 0, pp_working = index_docs st, pp_docs = index_docs st, pp_completed = False, pp_events = []\<rparr>"
  using assms by (auto simp: pipeline_start_def index_docs_def Let_def split: if_splits)

lemma reach_ok:
  assumes "pl.reach env rs st patterns opts s"
  shows "walk_ok env patterns rs s \<and> count_ok s"
proof (rule pl.reach_invariant [OF _ _ assms, of "\<lambda>s. walk_ok env patterns rs s \<and> count_ok s"])
  fix s
  assume "pipe_begin env rs st s"
  then show "walk_ok env patterns rs s \<and> count_ok s"
    using start_fields [of env rs st s]
    by (simp add: pipe_begin_def walk_ok_def count_ok_def event_list_simps pipe_files_def numbered_progress_def)
qed (blast intro: walk_ok_step count_ok_step)

text \<open>When nothing fails, every document written is in the index and the old ones stay.\<close>

definition writes_succeed :: "pipe_env \<Rightarrow> bool" where
  "writes_succeed env \<longleftrightarrow> (\<forall>f. pe_add_ok env f \<and> pe_commit_ok env f)"

definition docs_ok :: "backend \<Rightarrow> IndexOptions \<Rightarrow> pipe \<Rightarrow> bool" where
  "docs_ok st opts s \<longleftrightarrow> pp_working s = pp_docs s
     \<and> mset (pp_docs s) = mset (index_docs st) + mset (map (job_doc st opts) (List.map_filter job_written (pp_jobs s)))"

lemma jobs_files: "walk_ok env patterns rs s \<Longrightarrow> set (map fst (pp_jobs s)) \<subseteq> set (pipe_files env patterns rs)"
  unfolding walk_ok_def by (metis set_append Un_upper1)

lemma docs_ok_step:
  assumes "splits_paths (pe_index env)" "writes_succeed env"
    and "\<forall>f\<in>set (pipe_files env patterns rs). has_separator (rf_path f)"
    and "pipe_step env patterns st opts s t" "docs_ok st opts s" "walk_ok env patterns rs s"
  shows "docs_ok st opts t"
  using assms(4-6)
proof (induction rule: pipe_step.induct)
  case (writes s xs f ys)
  then have "f \<in> set (pipe_files env patterns rs)" using jobs_files [of env patterns rs s] by force
  then have "delete_term (pe_index env) (rf_path f) d = d" for d
    using path_no_token(2) [OF assms(1)] assms(3) by blast
  with writes assms(2) show ?case
    by (simp add: docs_ok_def pipe_defs map_filter_append map_filter_simps writes_succeed_def)
qed (auto simp: docs_ok_def pipe_defs map_filter_append map_filter_simps split: option.splits)

lemma reach_docs_ok:
  assumes "splits_paths (pe_index env)" "writes_succeed env"
    and "\<forall>f\<in>set (pipe_files env patterns rs). has_separator (rf_path f)"
    and "pl.reach env rs st patterns opts s"
  shows "docs_ok st opts s"
proof (rule pl.reach_invariant [OF _ _ assms(4), of "docs_ok st opts"])
  fix s
  assume "pipe_begin env rs st s"
  then show "docs_ok st opts s"
    using start_fields [of env rs st s] by (simp add: pipe_begin_def docs_ok_def map_filter_simps)
next
  fix s t
  assume s: "pl.reach env rs st patterns opts s" "docs_ok st opts s" "pipe_step env patterns st opts s t"
  show "docs_ok st opts t"
    using docs_ok_step [OF assms(1-3) s(3,2)] reach_ok [OF s(1)] by blast
qed

text \<open>The finished workers in the order of their numbers.\<close>

lemma numbers_enumerate:
  assumes "mset (map fst ps) = mset [1..<Suc n]"
  shows "\<exists>fs. mset fs = mset (map snd ps) \<and> mset ps = mset (enumerate 1 fs)"
proof -
  let ?qs = "sort_key fst ps"
  have m: "mset ?qs = mset ps" by simp
  then have "mset (map fst ?qs) = mset [1..<Suc n]" unfolding assms [symmetric] by (simp only: mset_map)
  then have k: "map fst ?qs = [1..<Suc n]"
    using properties_for_sort [of "map fst ?qs" "[1..<Suc n]"] properties_for_sort [of "[1..<Suc n]" "[1..<Suc n]"]
    by (metis sorted_sort_key sorted_upt)
  have "length (map fst ?qs) = n" unfolding k by simp
  then have "1 + length (map snd ?qs) = Suc n" by simp
  then have "?qs = enumerate 1 (map snd ?qs)"
    unfolding enumerate_eq_zip using k zip_map_fst_snd [of ?qs] by metis
  moreover have "mset (map snd ?qs) = mset (map snd ps)" by (simp only: mset_map m)
  ultimately show ?thesis using m by metis
qed

lemma finished_jobs:
  assumes "\<forall>(f, ph)\<in>set jobs. \<exists>k. ph = Emitted k"
  shows "\<exists>ps. map snd ps = map fst jobs \<and> List.map_filter job_number jobs = map fst ps
     \<and> List.map_filter job_event jobs = map (\<lambda>(k, f). progress_event k f) ps
     \<and> List.map_filter job_written jobs = map fst jobs"
  using assms
proof (induction jobs)
  case (Cons j jobs)
  obtain f k where j: "j = (f, Emitted k)" using Cons.prems by (cases j) auto
  from Cons obtain ps where "map snd ps = map fst jobs" "List.map_filter job_number jobs = map fst ps"
     "List.map_filter job_event jobs = map (\<lambda>(k, f). progress_event k f) ps"
     "List.map_filter job_written jobs = map fst jobs" by auto
  then show ?case by (intro exI [of _ "(k, f) # ps"]) (simp add: j map_filter_simps)
qed (simp add: map_filter_simps)

text \<open>What a run has done when no step is left.\<close>

lemma finished_run:
  assumes "pl.reach env rs st patterns opts s" "pipe_finished s"
  shows "map fst (pp_jobs s) = pipe_files env patterns rs"
    and "scan_events s = numbered_progress (pipe_files env patterns rs) @ [ScanDone (length (pipe_files env patterns rs))]"
    and "\<exists>fs. mset fs = mset (pipe_files env patterns rs) \<and> mset (index_events s) =
       add_mset IndexDone (mset (map (\<lambda>(k, f). progress_event k f) (enumerate 1 fs)))"
    and "pp_completed s" "List.map_filter job_written (pp_jobs s) = pipe_files env patterns rs"
proof -
  note ok = reach_ok [OF assms(1)]
  obtain ps where ps: "map snd ps = map fst (pp_jobs s)" "List.map_filter job_number (pp_jobs s) = map fst ps"
    "List.map_filter job_event (pp_jobs s) = map (\<lambda>(k, f). progress_event k f) ps"
    "List.map_filter job_written (pp_jobs s) = map fst (pp_jobs s)"
    using finished_jobs assms(2) unfolding pipe_finished_def by blast
  have main: "pp_main s = Returned" using assms(2) by (simp add: pipe_finished_def)
  show jobs: "map fst (pp_jobs s) = pipe_files env patterns rs"
    using ok main by (auto simp: walk_ok_def map_filter_simps)
  have len: "length (pp_jobs s) = length (pipe_files env patterns rs)"
    unfolding jobs [symmetric] by simp
  show "scan_events s = numbered_progress (pipe_files env patterns rs) @ [ScanDone (length (pipe_files env patterns rs))]"
    using ok main len by (simp add: walk_ok_def jobs)
  show "pp_completed s" using ok main by (simp add: count_ok_def)
  show "List.map_filter job_written (pp_jobs s) = pipe_files env patterns rs" by (simp only: ps(4) jobs)
  have "mset (map fst ps) = mset [1..<Suc (pp_counter s)]" using ok unfolding count_ok_def ps(2) by blast
  from numbers_enumerate [OF this] obtain fs where fs: "mset fs = mset (map snd ps)" "mset ps = mset (enumerate 1 fs)"
    by blast
  have "mset (index_events s) = add_mset IndexDone (mset (map (\<lambda>(k, f). progress_event k f) ps))"
    using ok main unfolding count_ok_def ps(3) by simp
  then show "\<exists>fs. mset fs = mset (pipe_files env patterns rs) \<and> mset (index_events s) =
       add_mset IndexDone (mset (map (\<lambda>(k, f). progress_event k f) (enumerate 1 fs)))"
    using fs unfolding mset_map ps(1) jobs by metis
qed

text \<open>A machine on which everything works, with the one file of the sample.\<close>

definition sample_pipe :: pipe_env where
  "sample_pipe = \<lparr>pe_scan = sample_env, pe_index = working_env, pe_heap_ok = (\<lambda>n. 15000000 \<le> n), pe_pool_ok = (\<lambda>_. True),
     pe_add_ok = (\<lambda>_. True), pe_commit_ok = (\<lambda>_. True), pe_cpu = 4, pe_total_mem = 8000000000\<rparr>"

lemma sample_start: "\<exists>s0. pipeline_start sample_pipe [js ''/d''] one_disk = Inr s0"
proof -
  have "pool_threads 4 = 2" "writer_heap_bytes 8000000000 = 100000000"
    by (simp_all add: pool_threads_def writer_heap_bytes_def)
  then show ?thesis by (simp add: pipeline_start_def sample_pipe_def working_env_def one_disk_def)
qed

lemma sample_items: "length (pipeline_items (pe_scan sample_pipe) [js ''/d'']) = 2"
  by (simp add: pipeline_items_def sample_pipe_def sample_env_def)

lemma sample_files: "map rf_path (pipe_files sample_pipe [] [js ''/d'']) = [js ''/d/a.TXT'']"
  by (simp add: pipe_files_def pipeline_items_def sample_pipe_def sample_env_def sample_entry_def map_filter_simps
      pipeline_visit_def excluded_def too_large_def)

section \<open>Properties\<close>

text \<open>
  C19. An indexing run ends, whatever the order in which the main task and the workers take
  their steps: it has at most four steps per entry and three more, and it cannot stop before
  everything is done. At the end the scan events name the accepted files 1, 2, 3, ... and their
  number, the completion is recorded, and the index events are one \<open>index_done\<close> and for each
  file one \<open>index_progress\<close>, with each of the numbers 1 to \<open>n\<close> used once.
\<close>

theorem pipeline_completes:
  assumes "pipeline_start env rs st = Inr s0"
  shows "(\<forall>n s. (pipe_step env patterns st opts ^^ n) s0 s \<longrightarrow> n \<le> 4 * length (pipeline_items (pe_scan env) rs) + 3)
    \<and> (\<exists>n s. (pipe_step env patterns st opts ^^ n) s0 s \<and> (\<forall>t. \<not> pipe_step env patterns st opts s t))
    \<and> (\<forall>n s. (pipe_step env patterns st opts ^^ n) s0 s \<and> (\<forall>t. \<not> pipe_step env patterns st opts s t) \<longrightarrow>
         pp_main s = Returned \<and> pp_completed s
         \<and> scan_events s = numbered_progress (pipe_files env patterns rs) @ [ScanDone (length (pipe_files env patterns rs))]
         \<and> (\<exists>fs. mset fs = mset (pipe_files env patterns rs) \<and> mset (index_events s) =
              add_mset IndexDone (mset (map (\<lambda>(k, f). progress_event k f) (enumerate 1 fs)))))"
proof -
  have s0: "pl.reach env rs st patterns opts s0"
    using assms by (intro pl.reach_start) (simp add: pipe_begin_def)
  have "pipe_weight s0 = 4 * length (pipeline_items (pe_scan env) rs) + 3"
    using start_fields [OF assms] by (simp add: pipe_weight_def)
  then have "n \<le> 4 * length (pipeline_items (pe_scan env) rs) + 3" if "(pipe_step env patterns st opts ^^ n) s0 s" for n s
    using pl.run_bounded [OF that] by simp
  moreover have "pp_main s = Returned \<and> pp_completed s
         \<and> scan_events s = numbered_progress (pipe_files env patterns rs) @ [ScanDone (length (pipe_files env patterns rs))]
         \<and> (\<exists>fs. mset fs = mset (pipe_files env patterns rs) \<and> mset (index_events s) =
              add_mset IndexDone (mset (map (\<lambda>(k, f). progress_event k f) (enumerate 1 fs))))"
    if "(pipe_step env patterns st opts ^^ n) s0 s" "\<forall>t. \<not> pipe_step env patterns st opts s t" for n s
    using finished_run [OF pl.reach_run [OF that(1) s0]] stuck_finished [OF that(2)]
    by (simp add: pipe_finished_def)
  ultimately show ?thesis using pl.run_ends [of env patterns st opts s0] by blast
qed

theorem pipeline_completes_witness:
  "\<exists>s0 n s. pipeline_start sample_pipe [js ''/d''] one_disk = Inr s0
     \<and> (pipe_step sample_pipe [] one_disk parse_opts ^^ n) s0 s \<and> n \<le> 11 \<and> pp_completed s"
proof -
  obtain s0 where s0: "pipeline_start sample_pipe [js ''/d''] one_disk = Inr s0" using sample_start by blast
  from pipeline_completes [OF s0, of "[]" parse_opts] obtain n s where
    "(pipe_step sample_pipe [] one_disk parse_opts ^^ n) s0 s" "n \<le> 11" "pp_completed s"
    unfolding sample_items by auto
  with s0 show ?thesis by blast
qed

text \<open>
  C20. The pipeline refines one insertion per accepted file: for every interleaving of the
  workers, when a run of a working machine has ended, the index holds the documents it had
  before and, in some order, exactly one new document for every accepted file. In particular
  the deletion before each insertion removes nothing, so that every run adds all files again.
\<close>

theorem pipeline_index_exact:
  assumes "pipeline_start env rs st = Inr s0" "(pipe_step env patterns st opts ^^ n) s0 s"
    and "\<forall>t. \<not> pipe_step env patterns st opts s t"
    and "splits_paths (pe_index env)" "writes_succeed env"
    and "\<forall>f\<in>set (pipe_files env patterns rs). has_separator (rf_path f)"
  shows "mset (pp_docs s) = mset (index_docs st) + mset (map (job_doc st opts) (pipe_files env patterns rs))"
proof -
  have "pl.reach env rs st patterns opts s0"
    using assms(1) by (intro pl.reach_start) (simp add: pipe_begin_def)
  then have r: "pl.reach env rs st patterns opts s" by (rule pl.reach_run [OF assms(2)])
  from reach_docs_ok [OF assms(4-6) r] finished_run(5) [OF r stuck_finished [OF assms(3)]]
  show ?thesis by (simp add: docs_ok_def)
qed

theorem pipeline_index_exact_witness:
  "\<exists>s0 n s. pipeline_start sample_pipe [js ''/d''] one_disk = Inr s0
     \<and> (pipe_step sample_pipe [] one_disk parse_opts ^^ n) s0 s \<and> map id_path (pp_docs s) = [js ''/d/a.TXT'']"
proof -
  obtain s0 where s0: "pipeline_start sample_pipe [js ''/d''] one_disk = Inr s0" using sample_start by blast
  obtain n s where s: "(pipe_step sample_pipe [] one_disk parse_opts ^^ n) s0 s"
    "\<forall>t. \<not> pipe_step sample_pipe [] one_disk parse_opts s t"
    using pl.run_ends by blast
  obtain f where f: "pipe_files sample_pipe [] [js ''/d''] = [f]" "rf_path f = js ''/d/a.TXT''"
    using sample_files by auto
  have "splits_paths (pe_index sample_pipe)" "writes_succeed sample_pipe" "has_separator (rf_path f)"
    using working_env_ok(1) by (simp_all add: sample_pipe_def writes_succeed_def f(2) has_separator_def)
  with pipeline_index_exact [OF s0 s] f(1) have "mset (pp_docs s) = {#job_doc one_disk parse_opts f#}"
    by (simp add: index_docs_def one_disk_def)
  then have "map id_path (pp_docs s) = [js ''/d/a.TXT'']"
    using f(2) by (simp add: job_doc_def add_content_def plain_doc_def Let_def split: option.splits)
  with s0 s(1) show ?thesis by metis
qed

end
