(* ===== verification/PipelineFlow.thy ===== *)
theory PipelineFlow
  imports AppModel Pipeline Utf16
begin

text \<open>
  The events of the indexing pipeline at the App component: what the frontend shows while
  the workers of the backend run and after they have finished.
\<close>

section \<open>Events on their way to the frontend\<close>

definition js_nat :: "nat \<Rightarrow> js_number" where
  "js_nat n = Fin (of_nat n)"

text \<open>The payloads as the \<open>json!\<close> literals of the backend build them, with texts in code units.\<close>

fun wire_event :: "pipe_event \<Rightarrow> backend_event" where
  "wire_event (PScan (ScanProgress n path name)) = EScanProgress (Some (js_nat n)) (Some (utf16 path))"
| "wire_event (PScan (ScanDone n)) = EScanDone (Some (js_nat n))"
| "wire_event (PIndex (IndexProgress k tot name path skip)) =
     EIndexProgress \<lparr>ip_current = Some (js_nat k), ip_total = map_option js_nat tot, ip_name = Some (utf16 name),
       ip_path = Some (utf16 path), ip_skipped = (if skip then Some True else None)\<rparr>"
| "wire_event (PIndex IndexDone) = EIndexDone"

definition deliver_all :: "pipe_event list \<Rightarrow> world \<Rightarrow> world" where
  "deliver_all evs w = fold (\<lambda>ev. deliver (wire_event ev)) evs w"

lemma deliver_all_append: "deliver_all (xs @ ys) w = deliver_all ys (deliver_all xs w)"
  by (simp add: deliver_all_def)

definition is_progress :: "pipe_event \<Rightarrow> bool" where
  "is_progress ev \<longleftrightarrow> (\<exists>k f. ev = PIndex (progress_event k f))"

lemma deliver_progress:
  "is_progress ev \<Longrightarrow> idxRunning (app (deliver (wire_event ev) w)) \<and> idxTotal (app (deliver (wire_event ev) w)) = Fin 0"
  by (auto simp: is_progress_def progress_event_def app_simps or_zero_def)

lemma deliver_all_progress:
  assumes "list_all is_progress evs" "evs \<noteq> []"
  shows "idxRunning (app (deliver_all evs w)) \<and> idxTotal (app (deliver_all evs w)) = Fin 0"
  using assms deliver_progress [of "last evs"]
  by (cases evs rule: rev_cases) (auto simp: deliver_all_def)

section \<open>A main task that is faster than its workers\<close>

text \<open>The main task takes all its steps while every worker is still in the queue.\<close>

definition all_queued :: "pipe \<Rightarrow> bool" where
  "all_queued s \<longleftrightarrow> list_all (\<lambda>(f, ph). ph = Queued) (pp_jobs s)"

lemma main_walks:
  assumes "pp_main s = Walking" "all_queued s"
  shows "\<exists>n t. (pipe_step env patterns st opts ^^ n) s t \<and> pp_main t = Walking \<and> pp_items t = [] \<and> all_queued t"
  using assms
proof (induction "length (pp_items s)" arbitrary: s)
  case 0
  then have "(pipe_step env patterns st opts ^^ 0) s s" "pp_items s = []" by simp_all
  with 0 show ?case by blast
next
  case (Suc m)
  let ?t = "visit_next env patterns s"
  have "pp_items s \<noteq> []" using Suc.hyps(2) by auto
  then have step: "pipe_step env patterns st opts s ?t" using Suc.prems(1) by (rule visits [rotated])
  have "m = length (pp_items ?t)" "pp_main ?t = Walking" "all_queued ?t"
    using Suc.hyps(2) Suc.prems by (auto simp: pipe_defs all_queued_def split: option.split)
  from Suc.hyps(1) [OF this] obtain n t where t: "(pipe_step env patterns st opts ^^ n) ?t t"
    "pp_main t = Walking" "pp_items t = []" "all_queued t" by blast
  from relpowp_Suc_I2 [OF step t(1)] t(2-4) show ?case by blast
qed

lemma main_first:
  assumes "pp_main s = Walking" "all_queued s"
  shows "\<exists>n t pre. (pipe_step env patterns st opts ^^ n) s t \<and> pp_main t = Returned \<and> all_queued t
     \<and> pp_events t = pre @ [PIndex IndexDone]"
proof -
  obtain n t where t: "(pipe_step env patterns st opts ^^ n) s t" "pp_main t = Walking" "pp_items t = []" "all_queued t"
    using main_walks [OF assms] by blast
  let ?a = "walk_ends t" and ?b = "mark_done (walk_ends t)" and ?c = "main_returns (mark_done (walk_ends t))"
  have "pipe_step env patterns st opts t ?a" using t by (intro ends) auto
  moreover have "pipe_step env patterns st opts ?a ?b" by (intro marks) (simp add: pipe_defs)
  moreover have "pipe_step env patterns st opts ?b ?c" by (intro returns) (simp add: pipe_defs)
  ultimately have "(pipe_step env patterns st opts ^^ Suc (Suc (Suc n))) s ?c" using t(1) by (meson relpowp_Suc_I)
  moreover have "pp_main ?c = Returned" "all_queued ?c" "pp_events ?c = pp_events ?b @ [PIndex IndexDone]"
    using t(4) by (simp_all add: pipe_defs all_queued_def)
  ultimately show ?thesis by blast
qed

text \<open>After the return the workers append one progress event each.\<close>

definition only_progress_after :: "pipe_event list \<Rightarrow> pipe \<Rightarrow> bool" where
  "only_progress_after pre s \<longleftrightarrow> pp_main s = Returned \<and>
     (\<exists>evs. pp_events s = pre @ evs \<and> list_all is_progress evs
        \<and> length evs = length (List.map_filter job_event (pp_jobs s)))"

lemma after_step:
  "pipe_step env patterns st opts s t \<Longrightarrow> only_progress_after pre s \<Longrightarrow> only_progress_after pre t"
proof (induction rule: pipe_step.induct)
  case (emits s xs f cur ys)
  then show ?case
    by (fastforce simp: only_progress_after_def pipe_defs map_filter_append map_filter_simps is_progress_def progress_event_def)
qed (auto simp: only_progress_after_def pipe_defs map_filter_append map_filter_simps)

lemma after_run:
  "(pipe_step env patterns st opts ^^ n) s t \<Longrightarrow> only_progress_after pre s \<Longrightarrow> only_progress_after pre t"
  by (induction n arbitrary: t) (auto intro: after_step)

lemma queued_no_events: "all_queued s \<Longrightarrow> List.map_filter job_event (pp_jobs s) = []"
proof -
  have "list_all (\<lambda>(f, ph). ph = Queued) js \<Longrightarrow> List.map_filter job_event js = []" for js
    by (induction js) (auto simp: map_filter_simps)
  then show "all_queued s \<Longrightarrow> List.map_filter job_event (pp_jobs s) = []" by (simp add: all_queued_def)
qed

section \<open>Properties\<close>

text \<open>
  C33. The frontend can be left in the indexing state for good. The backend sends
  \<open>index_done\<close> without waiting for its workers: for every run that accepts a file there is an
  order of steps in which all its events have been sent, the run has ended, and yet the
  frontend, whatever its state was, shows indexing as running with a total of 0.
\<close>

theorem pipeline_late_progress:
  assumes "pipeline_start env rs st = Inr s0" "pipe_files env patterns rs \<noteq> []"
  shows "\<exists>n s. (pipe_step env patterns st opts ^^ n) s0 s \<and> (\<forall>t. \<not> pipe_step env patterns st opts s t)
     \<and> IndexDone \<in> set (index_events s)
     \<and> (\<forall>w. idxRunning (app (deliver_all (pp_events s) w)) \<and> idxTotal (app (deliver_all (pp_events s) w)) = Fin 0)"
proof -
  have "pp_main s0 = Walking" "all_queued s0" using start_fields [OF assms(1)] by (simp_all add: all_queued_def)
  from main_first [OF this] obtain n t pre where t: "(pipe_step env patterns st opts ^^ n) s0 t" "pp_main t = Returned"
    "all_queued t" "pp_events t = pre @ [PIndex IndexDone]" by blast
  obtain m s where s: "(pipe_step env patterns st opts ^^ m) t s" "\<forall>u. \<not> pipe_step env patterns st opts s u"
    using pl.run_ends by blast
  have run: "(pipe_step env patterns st opts ^^ (n + m)) s0 s"
    using t(1) s(1) by (auto simp: relpowp_add)
  have "only_progress_after (pre @ [PIndex IndexDone]) t"
    using t queued_no_events [OF t(3)] by (simp add: only_progress_after_def)
  from after_run [OF s(1) this] obtain evs where evs: "pp_events s = (pre @ [PIndex IndexDone]) @ evs"
    "list_all is_progress evs" "length evs = length (List.map_filter job_event (pp_jobs s))"
    by (auto simp: only_progress_after_def)
  have "pl.reach env rs st patterns opts s"
    using assms(1) by (intro pl.reach_run [OF run] pl.reach_start) (simp add: pipe_begin_def)
  note fin = finished_run(1) [OF this stuck_finished [OF s(2)]]
  obtain ps where "map snd ps = map fst (pp_jobs s)"
    "List.map_filter job_event (pp_jobs s) = map (\<lambda>(k, f). progress_event k f) ps"
    using finished_jobs [of "pp_jobs s"] stuck_finished [OF s(2)] unfolding pipe_finished_def by blast
  then have "length evs = length (pipe_files env patterns rs)"
    unfolding evs(3) fin [symmetric] by (metis length_map)
  then have "evs \<noteq> []" using assms(2) by auto
  from deliver_all_progress [OF evs(2) this] have "idxRunning (app (deliver_all (pp_events s) w))
      \<and> idxTotal (app (deliver_all (pp_events s) w)) = Fin 0" for w
    unfolding evs(1) deliver_all_append by blast
  moreover have "IndexDone \<in> set (index_events s)"
    unfolding index_events_def evs(1) by (simp add: map_filter_append map_filter_simps)
  ultimately show ?thesis using run s(2) by blast
qed

theorem pipeline_late_progress_witness:
  "\<exists>s0 n s. pipeline_start sample_pipe [js ''/d''] one_disk = Inr s0
     \<and> (pipe_step sample_pipe [] one_disk parse_opts ^^ n) s0 s \<and> IndexDone \<in> set (index_events s)
     \<and> idxRunning (app (deliver_all (pp_events s) (initial_world True \<lparr>meta_env = (\<lambda>_. None), global_env = (\<lambda>_. None)\<rparr>)))"
proof -
  obtain s0 where s0: "pipeline_start sample_pipe [js ''/d''] one_disk = Inr s0" using sample_start by blast
  have "pipe_files sample_pipe [] [js ''/d''] \<noteq> []" using sample_files by auto
  from pipeline_late_progress [OF s0 this, of parse_opts] s0 show ?thesis by metis
qed

text \<open>
  During a pipeline run the progress bar is of no use: an \<open>index_progress\<close> event of the
  pipeline has no total, so that the first of them fills the bar to 100 percent with nothing
  left to do, although other files are still being indexed.
\<close>

theorem pipeline_progress_bar:
  assumes "pl.reach env rs st patterns opts s" "IndexProgress k tot name path skip \<in> set (index_events s)"
    and "k \<le> 2 ^ 46"
  shows "(let a = app (deliver (wire_event (PIndex (IndexProgress k tot name path skip))) w)
     in progress_percent (idxCurrent a) (idxTotal a) = Fin 100 \<and> progress_pending (idxCurrent a) (idxTotal a) = Fin 0)"
proof -
  have ok: "count_ok s" using reach_ok [OF assms(1)] by blast
  have "IndexProgress k tot name path skip \<in># mset (List.map_filter job_event (pp_jobs s))"
    using ok assms(2) by (auto simp: count_ok_def split: if_splits simp flip: set_mset_mset)
  then obtain j where j: "j \<in> set (pp_jobs s)" "job_event j = Some (IndexProgress k tot name path skip)"
    by (auto simp: List.map_filter_def)
  then obtain f where f: "j = (f, Emitted k)" "tot = None"
    by (cases j rule: job_event.cases) (auto simp: progress_event_def)
  then have "k \<in> set (List.map_filter job_number (pp_jobs s))" using j(1) by (force simp: List.map_filter_def)
  moreover have "set (List.map_filter job_number (pp_jobs s)) = set [1..<Suc (pp_counter s)]"
    using ok mset_eq_setD unfolding count_ok_def by blast
  ultimately have k: "1 \<le> k" by auto
  then have "(1::rat) \<le> of_nat k" by simp
  moreover have "\<lfloor>1 / 2 :: rat\<rfloor> = 0" by (simp add: floor_eq_iff)
  moreover have "to_double (of_nat k) = Fin (of_nat k)" "to_double (of_nat k * 100) = Fin (of_nat k * 100)"
    "js_sub (Fin 0) (Fin (of_nat k)) = Fin (- of_nat k)"
    using to_double_int [of "int k"] to_double_int [of "int k * 100"] js_sub_int [of 0 "int k"] assms(3) by simp_all
  ultimately show ?thesis
    using k by (simp add: f(2) app_simps or_zero_def js_nat_def progress_percent_def progress_pending_def math_max_def
        math_min_def)
qed

theorem pipeline_progress_bar_witness:
  "\<exists>s k name path. IndexProgress k None name path False \<in> set (index_events s)
     \<and> (let a = app (deliver (wire_event (PIndex (IndexProgress k None name path False)))
            (initial_world True \<lparr>meta_env = (\<lambda>_. None), global_env = (\<lambda>_. None)\<rparr>))
        in progress_percent (idxCurrent a) (idxTotal a) = Fin 100)"
proof -
  obtain s0 where s0: "pipeline_start sample_pipe [js ''/d''] one_disk = Inr s0" using sample_start by blast
  obtain n s where s: "(pipe_step sample_pipe [] one_disk parse_opts ^^ n) s0 s"
    "\<forall>t. \<not> pipe_step sample_pipe [] one_disk parse_opts s t"
    using pl.run_ends by blast
  have r: "pl.reach sample_pipe [js ''/d''] one_disk [] parse_opts s"
    using s0 by (intro pl.reach_run [OF s(1)] pl.reach_start) (simp add: pipe_begin_def)
  obtain f where "pipe_files sample_pipe [] [js ''/d''] = [f]" using sample_files by auto
  with finished_run(3) [OF r stuck_finished [OF s(2)]] have "progress_event 1 f \<in># mset (index_events s)" by auto
  then have e: "IndexProgress 1 None (rf_file_name f) (rf_path f) False \<in> set (index_events s)"
    by (simp add: progress_event_def)
  from pipeline_progress_bar [OF r e, of "initial_world True \<lparr>meta_env = (\<lambda>_. None), global_env = (\<lambda>_. None)\<rparr>"] e
  show ?thesis unfolding Let_def by (intro exI conjI) auto
qed

end
