(* ===== verification/EventFlow.thy ===== *)
theory EventFlow
  imports PipelineFlow
begin

text \<open>
  The way of an event from an \<open>emit\<close> of the backend to the state of the App component: the
  JSON payload, the subscription wrappers of \<open>src/services/events.ts\<close> and the four
  subscriptions of \<open>src/App.tsx\<close>. The function \<open>listen\<close> of the Tauri library is a parameter
  of the wrappers.
\<close>

record raw_event =
  ev_name :: string
  ev_payload :: json

section \<open>The wrappers\<close>

definition onIndexProgress :: "(string \<Rightarrow> (raw_event \<Rightarrow> 'a) \<Rightarrow> 'u) \<Rightarrow> (json \<Rightarrow> 'a) \<Rightarrow> 'u" where
  "onIndexProgress listen handler = listen ''index_progress'' (\<lambda>event. handler (ev_payload event))"

definition onIndexDone :: "(string \<Rightarrow> (raw_event \<Rightarrow> 'a) \<Rightarrow> 'u) \<Rightarrow> 'a \<Rightarrow> 'u" where
  "onIndexDone listen handler = listen ''index_done'' (\<lambda>event. handler)"

definition onEvent :: "(string \<Rightarrow> (raw_event \<Rightarrow> 'a) \<Rightarrow> 'u) \<Rightarrow> string \<Rightarrow> (json \<Rightarrow> 'a) \<Rightarrow> 'u" where
  "onEvent listen name handler = listen name (\<lambda>event. handler (ev_payload event))"

section \<open>The subscriptions of the App component\<close>

text \<open>\<open>payload?.k\<close> of the declared type, \<open>None\<close> for null and undefined.\<close>

fun member :: "string \<Rightarrow> json \<Rightarrow> json option" where
  "member k (JObj fs) = map_of fs k"
| "member k _ = None"

definition num_member :: "string \<Rightarrow> json \<Rightarrow> js_number option" where
  "num_member k j = (case member k j of Some (JNum n) \<Rightarrow> Some n | _ \<Rightarrow> None)"

definition str_member :: "string \<Rightarrow> json \<Rightarrow> js_string option" where
  "str_member k j = (case member k j of Some (JStr s) \<Rightarrow> Some s | _ \<Rightarrow> None)"

definition bool_member :: "string \<Rightarrow> json \<Rightarrow> bool option" where
  "bool_member k j = (case member k j of Some (JBool b) \<Rightarrow> Some b | _ \<Rightarrow> None)"

definition progress_payload :: "json \<Rightarrow> IndexProgressPayload" where
  "progress_payload j = \<lparr>ip_current = num_member ''current'' j, ip_total = num_member ''total'' j,
     ip_name = str_member ''name'' j, ip_path = str_member ''path'' j, ip_skipped = bool_member ''skipped'' j\<rparr>"

definition app_subscriptions :: "(string \<Rightarrow> (raw_event \<Rightarrow> AppState \<Rightarrow> AppState) \<Rightarrow> 'u) \<Rightarrow> 'u list" where
  "app_subscriptions listen =
     [onIndexProgress listen (\<lambda>p. on_index_progress (progress_payload p)),
      onIndexDone listen on_index_done,
      onEvent listen ''scan_done'' (\<lambda>p. on_scan_done (num_member ''total'' p)),
      onEvent listen ''auto_scan_start'' (\<lambda>p. on_auto_scan_start (str_member ''reason'' p))]"

text \<open>The listener that \<open>doScan\<close> and \<open>runDetect\<close> register for the time of a scan.\<close>

definition scan_subscription :: "(string \<Rightarrow> (raw_event \<Rightarrow> AppState \<Rightarrow> AppState) \<Rightarrow> 'u) \<Rightarrow> 'u" where
  "scan_subscription listen =
     onEvent listen ''scan_progress'' (\<lambda>p. on_scan_progress (num_member ''current'' p) (str_member ''path'' p))"

section \<open>What the backend emits\<close>

fun json_event :: "pipe_event \<Rightarrow> raw_event" where
  "json_event (PScan (ScanProgress n path name)) = \<lparr>ev_name = ''scan_progress'',
     ev_payload = JObj [(''current'', JNum (js_nat n)), (''path'', JStr (utf16 path)), (''name'', JStr (utf16 name))]\<rparr>"
| "json_event (PScan (ScanDone n)) = \<lparr>ev_name = ''scan_done'', ev_payload = JObj [(''total'', JNum (js_nat n))]\<rparr>"
| "json_event (PIndex (IndexProgress k tot name path skip)) = \<lparr>ev_name = ''index_progress'',
     ev_payload = JObj ([(''current'', JNum (js_nat k))] @ opt_field ''total'' (\<lambda>n. JNum (js_nat n)) tot
       @ [(''name'', JStr (utf16 name)), (''path'', JStr (utf16 path))] @ (if skip then [(''skipped'', JBool True)] else []))\<rparr>"
| "json_event (PIndex IndexDone) = \<lparr>ev_name = ''index_done'', ev_payload = JObj [(''ok'', JBool True)]\<rparr>"

definition auto_scan_event :: "js_string \<Rightarrow> raw_event" where
  "auto_scan_event reason = \<lparr>ev_name = ''auto_scan_start'', ev_payload = JObj [(''reason'', JStr (utf16 reason))]\<rparr>"

text \<open>Every callback that is registered for the name of the event runs, in order.\<close>

definition dispatch :: "(string \<times> (raw_event \<Rightarrow> 's \<Rightarrow> 's)) list \<Rightarrow> raw_event \<Rightarrow> 's \<Rightarrow> 's" where
  "dispatch subs ev s = fold (\<lambda>(n, cb) s. if n = ev_name ev then cb ev s else s) subs s"

lemma progress_payload_json:
  "progress_payload (ev_payload (json_event (PIndex (IndexProgress k tot name path skip)))) =
     \<lparr>ip_current = Some (js_nat k), ip_total = map_option js_nat tot, ip_name = Some (utf16 name), ip_path = Some (utf16 path),
      ip_skipped = (if skip then Some True else None)\<rparr>"
  by (simp add: progress_payload_def num_member_def str_member_def bool_member_def opt_field_def split: option.split)

section \<open>Properties\<close>

text \<open>
  C24. The subscriptions deliver what the backend emits: with the four subscriptions of the
  component and one scan listener registered, each event of a scan, of the indexing and of the
  automatic scan, encoded as JSON by the backend and read field by field by the callbacks, has
  exactly the effect on the state that the model of the component gives to it; and an event
  with any other name has none.
\<close>

theorem events_reach_state:
  "dispatch (app_subscriptions Pair) (json_event (PIndex ie)) (app w) = app (deliver (wire_event (PIndex ie)) w)
   \<and> dispatch (app_subscriptions Pair @ [scan_subscription Pair]) (json_event (PScan se)) (app w)
       = app (deliver (wire_event (PScan se)) (w\<lparr>scanListeners := 1\<rparr>))
   \<and> dispatch (app_subscriptions Pair) (auto_scan_event reason) (app w) = app (deliver (EAutoScanStart (Some (utf16 reason))) w)
   \<and> (ev_name ev \<in> {''index_progress'', ''index_done'', ''scan_done'', ''auto_scan_start'', ''scan_progress''}
      \<or> dispatch (app_subscriptions Pair @ [scan_subscription Pair]) ev s = s)"
proof (intro conjI)
  note subs = app_subscriptions_def scan_subscription_def onIndexProgress_def onIndexDone_def onEvent_def dispatch_def
    deliver_def put_def
  show "dispatch (app_subscriptions Pair) (json_event (PIndex ie)) (app w) = app (deliver (wire_event (PIndex ie)) w)"
  proof (cases ie)
    case (IndexProgress k tot name path skip)
    have n: "ev_name (json_event (PIndex ie)) = ''index_progress''" by (simp add: IndexProgress)
    show ?thesis
      using progress_payload_json [of k tot name path skip]
      by (simp add: subs IndexProgress del: json_event.simps add: n [unfolded IndexProgress])
  qed (simp add: subs)
  show "dispatch (app_subscriptions Pair @ [scan_subscription Pair]) (json_event (PScan se)) (app w)
      = app (deliver (wire_event (PScan se)) (w\<lparr>scanListeners := 1\<rparr>))"
    by (cases se) (simp_all add: subs num_member_def str_member_def)
  show "dispatch (app_subscriptions Pair) (auto_scan_event reason) (app w) = app (deliver (EAutoScanStart (Some (utf16 reason))) w)"
    by (simp add: subs auto_scan_event_def str_member_def)
  show "ev_name ev \<in> {''index_progress'', ''index_done'', ''scan_done'', ''auto_scan_start'', ''scan_progress''}
      \<or> dispatch (app_subscriptions Pair @ [scan_subscription Pair]) ev s = s"
    by (auto simp: subs)
qed

end
