(* ===== verification/ConfigFlow.thy ===== *)
theory ConfigFlow
  imports AppModel Config
begin

text \<open>
  The configuration on its way through the program: from the form of the App component over
  the payload of \<open>writeConfig\<close>, the decoder, the file and the repair of the backend, back to
  the form.
\<close>

text \<open>The answer of the backend as the frontend sees it.\<close>

definition ts_config :: "RustConfig \<Rightarrow> AppConfig" where
  "ts_config c = \<lparr>search_mode = utf16 (rc_search_mode c), scan_roots = map utf16 (rc_scan_roots c),
     exclude_patterns = map utf16 (rc_exclude_patterns c), index_dir = utf16 (rc_index_dir c),
     path_max_len = Some (word_number (rc_path_max_len c)), auto_scan_enabled = Some (rc_auto_scan_enabled c)\<rparr>"

text \<open>The configuration the backend decodes from the form, if it can.\<close>

definition rust_config :: "AppConfig \<Rightarrow> int \<Rightarrow> RustConfig" where
  "rust_config c n = \<lparr>rc_search_mode = text_of (search_mode c), rc_scan_roots = map text_of (scan_roots c),
     rc_exclude_patterns = map text_of (exclude_patterns c), rc_index_dir = text_of (index_dir c),
     rc_path_max_len = word_of_int n, rc_auto_scan_enabled = (auto_scan_enabled c \<noteq> Some False)\<rparr>"

text \<open>The texts of a configuration and of a form without lone surrogates.\<close>

definition config_well_formed :: "AppConfig \<Rightarrow> bool" where
  "config_well_formed c \<longleftrightarrow> well_formed (search_mode c) \<and> list_all well_formed (scan_roots c)
     \<and> list_all well_formed (exclude_patterns c) \<and> well_formed (index_dir c)"

definition form_well_formed :: "AppState \<Rightarrow> bool" where
  "form_well_formed s \<longleftrightarrow> well_formed (roots s) \<and> well_formed (exclude s) \<and> well_formed (indexDir s)"

lemma form_config_well_formed: "form_well_formed s \<Longrightarrow> config_well_formed (form_config s)"
  by (simp add: form_well_formed_def config_well_formed_def form_config_def well_formed_parseCSV del: js_Cons)

lemma map_utf16_text: "list_all well_formed xs \<Longrightarrow> map utf16 (map text_of xs) = xs"
  by (induction xs) (simp_all add: well_formed_text)

lemma map_text_scalar: "list_all well_formed xs \<Longrightarrow> list_all (list_all scalar) (map text_of xs)"
  by (induction xs) (simp_all add: well_formed_text)

lemma rust_config_texts: "config_well_formed c \<Longrightarrow> config_texts (rust_config c n)"
  by (simp add: config_well_formed_def config_texts_def rust_config_def well_formed_text map_text_scalar del: list.pred_map)

lemma uint_word_of_int_32: "0 \<le> n \<Longrightarrow> n < 2 ^ 32 \<Longrightarrow> uint (word_of_int n :: 32 word) = n"
  by (simp add: uint_word_of_int)

text \<open>Decoding what the frontend sends: each text has to be well formed.\<close>

lemma decode_json_config:
  assumes "path_max_len c = Some p" "auto_scan_enabled c = Some b"
  shows "decode_config env (json_AppConfig c) =
    (if config_well_formed c then map_option (\<lambda>w. (rust_config c 0)\<lparr>rc_path_max_len := w\<rparr>) (decode_u32 (JNum p)) else None)"
  using assms by (auto simp: json_AppConfig_def field_or_def opt_field_def rust_config_def config_well_formed_def
      decode_str_JStr decode_vec_jstrs simp del: decode_u32.simps decode_str.simps split: bind_splits option.splits)

lemma decode_form_config:
  assumes "pathMaxLen s = Fin (of_int n)" "0 \<le> n" "n < 2 ^ 32" "form_well_formed s"
  shows "decode_config env (json_AppConfig (form_config s)) = Some (rust_config (form_config s) n)"
proof -
  have "(of_int n :: rat) < of_int (2 ^ 32)" using assms(3) by (simp only: of_int_less_iff)
  then have "decode_u32 (JNum (Fin (of_int n))) = Some (word_of_int n)" using assms(2) by simp
  then show ?thesis
    using assms(1) form_config_well_formed [OF assms(4)]
      decode_json_config [of "form_config s" "pathMaxLen s" "autoScanEnabled s" env]
    by (simp add: form_config_def rust_config_def del: decode_u32.simps)
qed

lemma ts_rust_config:
  assumes "pathMaxLen s = Fin (of_int n)" "0 \<le> n" "n < 2 ^ 32" "form_well_formed s"
  shows "ts_config (rust_config (form_config s) n) = form_config s"
proof -
  have "config_well_formed (form_config s)" using assms(4) by (rule form_config_well_formed)
  then show ?thesis
    using assms uint_word_of_int_32 [OF assms(2,3)] map_utf16_text
    by (simp add: ts_config_def rust_config_def config_well_formed_def word_number_def well_formed_text
        del: of_int_uint map_map) (simp add: form_config_def)
qed

lemma form_apply:
  assumes "search_mode c = js ''inverted''" "list_all csv_item (scan_roots c)"
    "list_all csv_item (exclude_patterns c)" "index_dir c \<noteq> []" "path_max_len c = Some p" "is_finite p"
    "auto_scan_enabled c = Some b"
  shows "form_config (apply_config c t) = c"
  using assms by (cases c) (simp add: form_config_def apply_config_def Let_def csv.decode_encode)

lemma default_patterns_items: "list_all csv_item default_exclude_patterns"
  "map utf16 default_exclude_patterns = default_exclude_patterns" "list_all (list_all scalar) default_exclude_patterns"
  by code_simp+

text \<open>What is read back: the configuration itself, with default patterns for an empty list.\<close>

lemma write_read_patterns:
  assumes "usable env (c\<lparr>rc_exclude_patterns := xs\<rparr>)" "xs \<noteq> []" "config_texts c"
    and "xs = rc_exclude_patterns c \<or> rc_exclude_patterns c = [] \<and> xs = default_exclude_patterns"
    and "cs_dir_ok st" "cs_can_write st" "cs_can_read st"
  shows "\<exists>st'. write_config env c st = (Inr (), st')
     \<and> fst (read_config env st') = Inr (c\<lparr>rc_exclude_patterns := xs\<rparr>)"
proof -
  have "repair env c = c\<lparr>rc_exclude_patterns := xs\<rparr>"
    using assms(1,2,4) by (cases c) (auto simp: usable_def repair_def Let_def)
  then show ?thesis
    using assms by (simp add: write_config_def read_config_def Let_def usable_def decode_encode)
qed

lemma ts_config_exclude:
  "ts_config (c\<lparr>rc_exclude_patterns := xs\<rparr>) = (ts_config c)\<lparr>exclude_patterns := map utf16 xs\<rparr>"
  by (simp add: ts_config_def)

section \<open>Properties\<close>

text \<open>
  A saved configuration survives the whole way: the form is encoded by the frontend,
  decoded, written, read and repaired by the backend, and loaded again into a form that saves
  the same configuration. This needs texts without lone surrogates, at least one root and one
  exclude pattern, a search mode and an index directory that the backend accepts, a path length
  that is an integer between 1 and \<open>2 ^ 32 - 1\<close>, and a file system that works. Without any
  exclude pattern the form comes back with the default patterns: an empty list cannot be saved.
\<close>

theorem config_survives_backend:
  assumes "parseCSV (roots s) \<noteq> []" "indexDir s \<noteq> []" "\<not> blank (text_of (indexDir s))"
    and "\<not> in_src_tauri env (text_of (indexDir s))" "form_well_formed s"
    and "pathMaxLen s = Fin (of_int n)" "1 \<le> n" "n < 2 ^ 32"
    and "cs_dir_ok st" "cs_can_write st" "cs_can_read st"
  shows "\<exists>c st' c'. decode_config env (json_AppConfig (form_config s)) = Some c
     \<and> write_config env c st = (Inr (), st') \<and> fst (read_config env st') = Inr c'
     \<and> form_config (apply_config (ts_config c') t) =
         (if parseCSV (exclude s) \<noteq> [] then form_config s
          else (form_config s)\<lparr>exclude_patterns := default_exclude_patterns\<rparr>)"
proof -
  let ?c = "rust_config (form_config s) n"
  let ?xs = "if parseCSV (exclude s) \<noteq> [] then map text_of (parseCSV (exclude s)) else default_exclude_patterns"
  let ?ys = "if parseCSV (exclude s) \<noteq> [] then parseCSV (exclude s) else default_exclude_patterns"
  have n: "0 \<le> n" using assms(7) by simp
  have wf: "config_well_formed (form_config s)" using assms(5) by (rule form_config_well_formed)
  have mode: "text_of (js ''inverted'') = default_search_mode" by code_simp
  have fields: "rc_exclude_patterns ?c = map text_of (parseCSV (exclude s))" "rc_search_mode ?c = default_search_mode"
    "rc_scan_roots ?c = map text_of (parseCSV (roots s))" "rc_index_dir ?c = text_of (indexDir s)"
    "rc_path_max_len ?c = word_of_int n"
    by (simp_all add: rust_config_def form_config_def mode del: js_Cons)
  have "(word_of_int n :: 32 word) \<noteq> 0" using assms(7) uint_word_of_int_32 [OF n assms(8)] by auto
  then have u: "usable env (?c\<lparr>rc_exclude_patterns := ?xs\<rparr>)"
    using assms(1,3,4) default_mode_not_blank default_patterns_nonempty
    by (simp add: usable_def fields del: of_int_eq_0_iff)
  have xs: "?xs \<noteq> []" "?xs = rc_exclude_patterns ?c \<or> rc_exclude_patterns ?c = [] \<and> ?xs = default_exclude_patterns"
    using default_patterns_nonempty by (auto simp: fields)
  from write_read_patterns [OF u xs(1) rust_config_texts [OF wf] xs(2) assms(9-11)] obtain st' where
    st': "write_config env ?c st = (Inr (), st')" "fst (read_config env st') = Inr (?c\<lparr>rc_exclude_patterns := ?xs\<rparr>)"
    by blast
  have "list_all well_formed (parseCSV (exclude s))" using wf by (simp add: config_well_formed_def form_config_def)
  then have "map utf16 ?xs = ?ys" using default_patterns_items(2) map_utf16_text by (simp del: map_map)
  then have ts: "ts_config (?c\<lparr>rc_exclude_patterns := ?xs\<rparr>) = (form_config s)\<lparr>exclude_patterns := ?ys\<rparr>"
    by (simp only: ts_config_exclude ts_rust_config [OF assms(6) n assms(8,5)])
  have "form_config (apply_config ((form_config s)\<lparr>exclude_patterns := ?ys\<rparr>) t)
      = (form_config s)\<lparr>exclude_patterns := ?ys\<rparr>"
    using assms(2,6) default_patterns_items(1)
    by (intro form_apply [where p = "pathMaxLen s" and b = "autoScanEnabled s"])
      (auto simp: form_config_def csv.decode_items)
  then have "form_config (apply_config (ts_config (?c\<lparr>rc_exclude_patterns := ?xs\<rparr>)) t)
      = (if parseCSV (exclude s) \<noteq> [] then form_config s
          else (form_config s)\<lparr>exclude_patterns := default_exclude_patterns\<rparr>)"
    unfolding ts by (simp add: form_config_def)
  with decode_form_config [OF assms(6) n assms(8,5)] st' show ?thesis by blast
qed

theorem config_survives_backend_witness:
  "\<exists>s t c'. parseCSV (exclude s) = [] \<and>
     form_config (apply_config (ts_config c') t) = (form_config s)\<lparr>exclude_patterns := default_exclude_patterns\<rparr>"
proof -
  define s where "s = (initial_state \<lparr>meta_env = (\<lambda>_. None), global_env = (\<lambda>_. None)\<rparr>)
    \<lparr>exclude := js '' , '', pathMaxLen := Fin (of_int 80)\<rparr>"
  have "parseCSV (js ''D:/'') = [js ''D:/'']" "parseCSV (js '' , '') = []" "text_of (js ''indexes/main'') = js ''indexes/main''"
    "js ''indexes/main'' \<noteq> []"
    by code_simp+
  then have s: "parseCSV (roots s) \<noteq> []" "parseCSV (exclude s) = []" "indexDir s \<noteq> []"
    "pathMaxLen s = Fin (of_int 80)" "text_of (indexDir s) = js ''indexes/main''" "form_well_formed s"
    by (simp_all add: s_def initial_state_def default_index_dir_def form_well_formed_def del: js_Cons)
  have "\<not> blank (text_of (indexDir s))" "\<not> in_src_tauri one_drive (text_of (indexDir s))"
    by (auto simp: s(5) one_drive_def in_src_tauri_def blank_def rust_ws_def is_ws_def sublist_code)
  from config_survives_backend [OF s(1,3) this s(6,4), of empty_store s] s(2) show ?thesis
    by (auto simp: empty_store_def)
qed

end
