(* ===== verification/Wire.thy ===== *)
theory Wire
  imports AppTheorems ConfigFlow IndexStore
begin

text \<open>
  The border between the two languages: what the generated glue of the backend commands makes
  of a payload that the frontend sends. Tauri looks an argument up under the camel case form
  of its name and decodes it with the derived decoder of its type; if that fails, the command
  is not run and the promise is rejected. A text with a lone surrogate does not decode.
\<close>

section \<open>Decoding arguments\<close>

fun decode_u64 :: "json \<Rightarrow> 64 word option" where
  "decode_u64 (JNum (Fin x)) =
     (if x = of_int \<lfloor>x\<rfloor> \<and> 0 \<le> x \<and> x < 2 ^ 64 then Some (word_of_int \<lfloor>x\<rfloor>) else None)"
| "decode_u64 _ = None"

fun decode_i64 :: "json \<Rightarrow> int option" where
  "decode_i64 (JNum (Fin x)) =
     (if x = of_int \<lfloor>x\<rfloor> \<and> - (2 ^ 63) \<le> x \<and> x < 2 ^ 63 then Some \<lfloor>x\<rfloor> else None)"
| "decode_i64 _ = None"

text \<open>A required field, and a field of an \<open>Option\<close> type, which may be missing or null.\<close>

fun field :: "(json \<Rightarrow> 'a option) \<Rightarrow> string \<Rightarrow> json \<Rightarrow> 'a option" where
  "field dec k (JObj fs) = Option.bind (map_of fs k) dec"
| "field dec k _ = None"

fun opt_of :: "(json \<Rightarrow> 'a option) \<Rightarrow> string \<Rightarrow> json \<Rightarrow> 'a option option" where
  "opt_of dec k (JObj fs) =
     (case map_of fs k of None \<Rightarrow> Some None | Some JNull \<Rightarrow> Some None | Some j \<Rightarrow> map_option Some (dec j))"
| "opt_of dec k _ = None"

definition decode_ScanOptions :: "json \<Rightarrow> ScanOptions option" where
  "decode_ScanOptions j =
     Option.bind (field decode_vec ''roots'' j) (\<lambda>r.
     Option.bind (field decode_vec ''exclude_patterns'' j) (\<lambda>x.
     Option.bind (opt_of decode_u64 ''max_file_size_mb'' j) (\<lambda>m.
     Option.bind (field decode_bool ''follow_symlinks'' j) (\<lambda>b.
       Some \<lparr>sc_roots = r, sc_exclude_patterns = x, sc_max_file_size_mb = m, sc_follow_symlinks = b\<rparr>))))"

definition decode_IndexOptions :: "json \<Rightarrow> IndexOptions option" where
  "decode_IndexOptions j =
     Option.bind (field decode_str ''index_dir'' j) (\<lambda>d.
     Option.bind (field decode_bool ''enable_content_parse'' j) (\<lambda>b.
       Some \<lparr>ix_index_dir = d, ix_enable_content_parse = b\<rparr>))"

definition decode_FileMeta :: "json \<Rightarrow> RustFile option" where
  "decode_FileMeta j =
     Option.bind (field decode_str ''path'' j) (\<lambda>p.
     Option.bind (field decode_str ''file_name'' j) (\<lambda>n.
     Option.bind (field decode_str ''ext'' j) (\<lambda>x.
     Option.bind (field decode_u64 ''size'' j) (\<lambda>s.
     Option.bind (field decode_i64 ''modified_ts'' j) (\<lambda>t.
       Some \<lparr>rf_path = p, rf_file_name = n, rf_ext = x, rf_size = s, rf_modified_ts = t\<rparr>)))))"

fun decode_files :: "json \<Rightarrow> RustFile list option" where
  "decode_files (JArr items) = those (map decode_FileMeta items)"
| "decode_files _ = None"

definition decode_filters :: "json \<Rightarrow> RustFilters option" where
  "decode_filters j =
     Option.bind (opt_of decode_vec ''ext'' j) (\<lambda>x.
     Option.bind (opt_of decode_u64 ''min_size'' j) (\<lambda>lo.
     Option.bind (opt_of decode_u64 ''max_size'' j) (\<lambda>hi.
       Some \<lparr>rfl_ext = x, rfl_min_size = lo, rfl_max_size = hi\<rparr>)))"

definition decode_QueryRequest :: "json \<Rightarrow> QueryRequest option" where
  "decode_QueryRequest j =
     Option.bind (field decode_str ''query'' j) (\<lambda>q.
     Option.bind (opt_of decode_filters ''filters'' j) (\<lambda>f.
     Option.bind (field decode_str ''index_dir'' j) (\<lambda>d.
       Some \<lparr>qr_query = q, qr_filters = f, qr_index_dir = d\<rparr>)))"

section \<open>The commands with their arguments\<close>

datatype command =
    CScanPaths ScanOptions | CScanPathsProgress ScanOptions
  | CBuild "RustFile list" IndexOptions | CBuildProgress "RustFile list" IndexOptions
  | CPipeline ScanOptions IndexOptions | CStartAutoScan | CDiagnostics | CSearch QueryRequest
  | CDetect "js_string list" | CReadConfig | CWriteConfig RustConfig | CResetConfig
  | COpenLocation js_string | CDelete js_string js_string

definition decode_command :: "config_env \<Rightarrow> string \<Rightarrow> json option \<Rightarrow> command option" where
  "decode_command env cmd payload =
     (let args = (case payload of None \<Rightarrow> JObj [] | Some j \<Rightarrow> j) in
      if cmd = ''scan_paths'' then map_option CScanPaths (field decode_ScanOptions ''opts'' args)
      else if cmd = ''scan_paths_progress'' then map_option CScanPathsProgress (field decode_ScanOptions ''opts'' args)
      else if cmd = ''build_inverted_index''
        then Option.bind (field decode_files ''files'' args) (\<lambda>fs. map_option (CBuild fs) (field decode_IndexOptions ''opts'' args))
      else if cmd = ''build_inverted_index_progress''
        then Option.bind (field decode_files ''files'' args) (\<lambda>fs. map_option (CBuildProgress fs) (field decode_IndexOptions ''opts'' args))
      else if cmd = ''scan_and_index_pipeline''
        then Option.bind (field decode_ScanOptions ''opts'' args) (\<lambda>o1. map_option (CPipeline o1) (field decode_IndexOptions ''indexOpts'' args))
      else if cmd = ''start_auto_scan_now'' then Some CStartAutoScan
      else if cmd = ''diagnostics_report'' then Some CDiagnostics
      else if cmd = ''search_query'' then map_option CSearch (field decode_QueryRequest ''req'' args)
      else if cmd = ''detect_duplicates'' then map_option CDetect (field decode_vec ''paths'' args)
      else if cmd = ''read_config'' then Some CReadConfig
      else if cmd = ''write_config'' then map_option CWriteConfig (field (decode_config env) ''cfg'' args)
      else if cmd = ''reset_config'' then Some CResetConfig
      else if cmd = ''open_location'' then map_option COpenLocation (field decode_str ''path'' args)
      else if cmd = ''delete_file_and_index''
        then Option.bind (field decode_str ''path'' args) (\<lambda>p. map_option (CDelete p) (field decode_str ''indexDir'' args))
      else None)"

section \<open>What the handlers mean to send\<close>

definition rust_scan :: "js_string list \<Rightarrow> js_string list \<Rightarrow> ScanOptions" where
  "rust_scan rs es = \<lparr>sc_roots = map text_of rs, sc_exclude_patterns = map text_of es,
     sc_max_file_size_mb = Some 500, sc_follow_symlinks = False\<rparr>"

definition rust_index :: "index_opts \<Rightarrow> IndexOptions" where
  "rust_index io = \<lparr>ix_index_dir = text_of (io_indexDir io), ix_enable_content_parse = io_enable_content_parse io\<rparr>"

definition rust_query :: "SearchRequest \<Rightarrow> QueryRequest" where
  "rust_query req = \<lparr>qr_query = text_of (rq_query req),
     qr_filters = map_option (\<lambda>f. \<lparr>rfl_ext = map_option (map text_of) (sf_ext f), rfl_min_size = None,
       rfl_max_size = None\<rparr>) (rq_filters req),
     qr_index_dir = text_of (rq_indexDir req)\<rparr>"

fun whole_len :: "AppConfig \<Rightarrow> int option" where
  "whole_len c =
     (case path_max_len c of Some (Fin x) \<Rightarrow> if x = of_int \<lfloor>x\<rfloor> \<and> 0 \<le> x \<and> x < 2 ^ 32 then Some \<lfloor>x\<rfloor> else None | _ \<Rightarrow> None)"

fun task_command :: "task \<Rightarrow> command option" where
  "task_command TLoadConfig = Some CReadConfig"
| "task_command TResetConfig = Some CResetConfig"
| "task_command (TSaveConfig c) = map_option (\<lambda>n. CWriteConfig (rust_config c n)) (whole_len c)"
| "task_command (TDetectScan o1) = Some (CScanPathsProgress (rust_scan (so_roots o1) (so_exclude_patterns o1)))"
| "task_command (TPipeline rs es io) = Some (CPipeline (rust_scan rs es) (rust_index io))"
| "task_command (TSearch req) = Some (CSearch (rust_query req))"
| "task_command TDiagnostics = Some CDiagnostics"
| "task_command (TDetect ps) = Some (CDetect (map text_of ps))"
| "task_command (TDelete p d) = Some (CDelete (text_of p) (text_of d))"
| "task_command TAutoScan = Some CStartAutoScan"
| "task_command (TOpenLocation p) = Some (COpenLocation (text_of p))"
| "task_command _ = None"

text \<open>The texts that the command of a task carries.\<close>

fun task_texts :: "task \<Rightarrow> js_string list" where
  "task_texts (TSaveConfig c) = search_mode c # index_dir c # scan_roots c @ exclude_patterns c"
| "task_texts (TDetectScan o1) = so_roots o1 @ so_exclude_patterns o1"
| "task_texts (TPipeline rs es io) = io_indexDir io # rs @ es"
| "task_texts (TSearch req) = rq_query req # rq_indexDir req #
     (case rq_filters req of None \<Rightarrow> [] | Some f \<Rightarrow> (case sf_ext f of None \<Rightarrow> [] | Some xs \<Rightarrow> xs))"
| "task_texts (TDetect ps) = ps"
| "task_texts (TDelete p d) = [p, d]"
| "task_texts (TOpenLocation p) = [p]"
| "task_texts _ = []"

section \<open>Which tasks occur\<close>

text \<open>
  No control sets the size filters and none calls \<open>doScan\<close> or \<open>doIndex\<close>, so that searches
  carry no sizes and the commands of these two handlers are never sent.
\<close>

fun wire_task :: "task \<Rightarrow> bool" where
  "wire_task (TSearch req) \<longleftrightarrow> (\<forall>f. rq_filters req = Some f \<longrightarrow> sf_min_size f = None \<and> sf_max_size f = None)"
| "wire_task (TScanListen _) \<longleftrightarrow> False"
| "wire_task (TScanRun _) \<longleftrightarrow> False"
| "wire_task (TIndex _ _) \<longleftrightarrow> False"
| "wire_task (TDetectListen o1) \<longleftrightarrow> so_max_file_size_mb o1 = Fin 500 \<and> \<not> so_follow_symlinks o1"
| "wire_task (TDetectScan o1) \<longleftrightarrow> so_max_file_size_mb o1 = Fin 500 \<and> \<not> so_follow_symlinks o1"
| "wire_task (TSaveConfig c) \<longleftrightarrow> path_max_len c \<noteq> None \<and> auto_scan_enabled c \<noteq> None"
| "wire_task _ \<longleftrightarrow> True"

definition no_sizes :: "AppState \<Rightarrow> bool" where
  "no_sizes s \<longleftrightarrow> minSize s = [] \<and> maxSize s = []"

definition wire_ok :: "world \<Rightarrow> bool" where
  "wire_ok w \<longleftrightarrow> no_sizes (app w) \<and> (\<forall>c. timer w = Some c \<longrightarrow> no_sizes c) \<and> list_all wire_task (tasks w)"

lemma wire_search: "no_sizes s \<Longrightarrow> wire_task (TSearch (search_request s))"
  by (auto simp: no_sizes_def search_request_def search_filters_def size_bound_def js_trim_def Let_def split: if_splits)

lemma no_sizes_config [simp]: "no_sizes (apply_config c s) = no_sizes s"
  by (simp add: no_sizes_def apply_config_def Let_def split: option.split)

lemma wire_ok_user: "user_action inTauri act w = Some w' \<Longrightarrow> wire_ok w \<Longrightarrow> wire_ok w'"
  using wire_search [of "app w"]
  by (cases act) (auto simp: wire_ok_def no_sizes_def app_simps form_defs
      simp del: wire_task.simps(1) split: PageKey.splits if_splits option.splits)

lemma wire_ok_resume:
  "resume t v (w\<lparr>tasks := xs @ ys\<rparr>) = Some w' \<Longrightarrow> tasks w = xs @ t # ys \<Longrightarrow> wire_ok w \<Longrightarrow> wire_ok w'"
  using no_sizes_config [of _ "app w"]
  by (cases t; cases v) (auto simp: wire_ok_def no_sizes_def app_simps split: sum.splits selection.splits)

lemma wire_ok_rest:
  "wire_ok (initial_world inTauri e)" "wire_ok w \<Longrightarrow> wire_ok (load_config w)" "wire_ok w \<Longrightarrow> wire_ok (deliver ev w)"
  "wire_ok w \<Longrightarrow> timer w = Some c \<Longrightarrow> wire_ok (search_timer_fires c w)" "wire_ok w \<Longrightarrow> wire_ok (debounce inTauri old w)"
  using wire_search [of c]
  by (auto simp: wire_ok_def no_sizes_def initial_world_def initial_state_def load_config_def debounce_def arm_timer_def app_simps
      simp del: wire_task.simps(1) split: backend_event.splits option.splits)

interpretation wir: world_invariant inTauri wire_ok for inTauri
  by unfold_locales (blast intro: wire_ok_rest wire_ok_user wire_ok_resume)+

section \<open>Properties\<close>

lemma decode_size_500: "decode_u64 (JNum (Fin 500)) = Some 500"
  by simp

lemmas decode_texts = decode_str_JStr decode_vec_jstrs

lemma decode_rust_scan:
  "decode_ScanOptions (json_scan_opts \<lparr>so_roots = rs, so_exclude_patterns = es, so_max_file_size_mb = Fin 500,
     so_follow_symlinks = False\<rparr>) = (if list_all well_formed (rs @ es) then Some (rust_scan rs es) else None)"
  by (simp add: decode_ScanOptions_def json_scan_opts_def rust_scan_def decode_size_500 decode_texts
      del: decode_u64.simps decode_str.simps decode_vec.simps)

lemma decode_index_opts:
  "decode_IndexOptions (json_index_opts io) = (if well_formed (io_indexDir io) then Some (rust_index io) else None)"
  by (simp add: decode_IndexOptions_def json_index_opts_def rust_index_def decode_texts del: decode_str.simps)

lemma opt_of_vec: "opt_of decode_vec k (JObj ((k, jstrs xs) # fs)) =
    (if list_all well_formed xs then Some (Some (map text_of xs)) else None)"
  using decode_vec_jstrs [of xs] by (simp add: jstrs_def)

lemma decode_sizeless_filters:
  assumes "sf_min_size f = None" "sf_max_size f = None"
  shows "decode_filters (json_filters f) =
    (if list_all well_formed (case sf_ext f of None \<Rightarrow> [] | Some xs \<Rightarrow> xs)
     then Some \<lparr>rfl_ext = map_option (map text_of) (sf_ext f), rfl_min_size = None, rfl_max_size = None\<rparr> else None)"
proof (cases "sf_ext f")
  case (Some xs)
  have "opt_of decode_u64 k (JObj [(''ext'', jstrs xs)]) = Some None" if "k \<noteq> ''ext''" for k
    using that by simp
  with Some show ?thesis
    by (simp add: assms decode_filters_def json_filters_def opt_field_def opt_of_vec del: opt_of.simps)
qed (simp add: assms decode_filters_def json_filters_def opt_field_def)

lemma decode_saved:
  assumes "path_max_len c = Some p" "auto_scan_enabled c = Some b"
  shows "decode_config env (json_AppConfig c) =
    (if list_all well_formed (task_texts (TSaveConfig c)) then map_option (rust_config c) (whole_len c) else None)"
proof -
  have "decode_u32 (JNum p) = map_option word_of_int (whole_len c)"
    using assms(1) by (cases p) simp_all
  then show ?thesis
    using decode_json_config [OF assms, of env]
    by (cases "whole_len c") (auto simp: config_well_formed_def rust_config_def simp del: whole_len.simps)
qed

lemma decode_query:
  assumes "wire_task (TSearch req)"
  shows "decode_QueryRequest (JObj [(''query'', JStr (rq_query req)),
     (''filters'', case rq_filters req of None \<Rightarrow> JNull | Some f \<Rightarrow> json_filters f),
     (''index_dir'', JStr (rq_indexDir req))]) =
    (if list_all well_formed (task_texts (TSearch req)) then Some (rust_query req) else None)"
proof (cases "rq_filters req")
  case (Some f)
  have "json_filters f = JObj fs \<Longrightarrow> opt_of decode_filters ''filters'' (JObj [(''query'', q), (''filters'', JObj fs), d])
      = map_option Some (decode_filters (JObj fs))" for fs q d by simp
  then show ?thesis
    using Some assms decode_sizeless_filters [of f]
    by (simp add: decode_QueryRequest_def rust_query_def json_filters_def decode_texts del: decode_str.simps)
qed (simp add: decode_QueryRequest_def rust_query_def decode_texts del: decode_str.simps)

lemmas call_defs = readConfig_def writeConfig_def resetConfig_def scanPathsProgress_def scanAndIndexPipeline_def
  startAutoScanNow_def searchQuery_def openLocation_def detectDuplicates_def deleteFileAndIndex_def
  diagnosticsReport_def mk_invocation_def

lemma wire_decodes:
  assumes "wire_task t" "task_call e t = Some call"
  shows "decode_command cenv (inv_cmd call) (inv_payload call) =
      (if list_all well_formed (task_texts t) then task_command t else None)
    \<and> (task_command t = None \<longrightarrow> (\<exists>c. t = TSaveConfig c \<and> whole_len c = None))"
proof (cases t)
  case (TSaveConfig c)
  then obtain p b where "path_max_len c = Some p" "auto_scan_enabled c = Some b" using assms(1) by auto
  from decode_saved [OF this, of cenv] TSaveConfig assms(2) show ?thesis
    by (auto simp: call_defs decode_command_def Let_def option.map_comp o_def simp del: whole_len.simps task_texts.simps)
next
  case (TDetectScan o1)
  then have "o1 = \<lparr>so_roots = so_roots o1, so_exclude_patterns = so_exclude_patterns o1, so_max_file_size_mb = Fin 500,
    so_follow_symlinks = False\<rparr>" using assms(1) by (cases o1) simp
  with decode_rust_scan [of "so_roots o1" "so_exclude_patterns o1"] TDetectScan assms(2) show ?thesis
    by (auto simp: call_defs decode_command_def Let_def)
next
  case (TSearch req)
  with decode_query [of req] assms show ?thesis
    by (auto simp: call_defs decode_command_def Let_def)
qed (use assms in \<open>auto simp: call_defs decode_command_def Let_def decode_rust_scan decode_index_opts decode_texts
    simp del: decode_str.simps decode_vec.simps\<close>)

text \<open>
  C15. Both sides of the border agree on the types. In every reachable state each command that
  a suspended handler has sent is one the backend knows, and its arguments decode to the values
  the handler means: roots, patterns and the limit of 500 MB of a scan, the query with its
  extensions and without size limits, the paths of a detection or a deletion. There are two
  exceptions, in which the command does not decode and the promise is rejected: a text with a
  lone surrogate, and a configuration whose path length is not a whole number between 0 and
  \<open>2 ^ 32 - 1\<close>, which can be typed on the settings page.
\<close>

theorem commands_decode:
  assumes "ui.reach inTauri w" "t \<in> set (tasks w)" "task_call e t = Some call"
  shows "decode_command cenv (inv_cmd call) (inv_payload call) =
      (if list_all well_formed (task_texts t) then task_command t else None)
    \<and> (task_command t = None \<longrightarrow> (\<exists>c. t = TSaveConfig c \<and> whole_len c = None))"
  using wir.holds [OF assms(1)] assms(2) by (intro wire_decodes [OF _ assms(3)]) (auto simp: wire_ok_def list_all_iff)

theorem commands_decode_witness:
  "\<exists>call. task_call bare_env TLoadConfig = Some call
     \<and> decode_command one_drive (inv_cmd call) (inv_payload call) = Some CReadConfig"
proof -
  have "TLoadConfig \<in> set (tasks (initial_world True bare_env))"
    by (simp add: initial_world_def load_config_def await_on_def Let_def)
  from commands_decode [OF initial_reach this, of bare_env] show ?thesis by auto
qed

end
