(* ===== verification/Commands.thy ===== *)
theory Commands
  imports Wire EventFlow Dedup Diagnostics
begin

text \<open>
  \<open>src-tauri/src/main.rs\<close>: the backend as one machine. Its state is what the commands share:
  the files of the disk, the index of each index directory, the configuration file, the state
  file, and the indexing runs that go on after their command has returned. \<open>exec_command\<close> is
  the dispatch of \<open>generate_handler!\<close>: it runs one decoded command and gives the answer, if there
  is one, the new state and the events that were sent. A command that panics never answers.
  While a run holds the writer of an index, every other writer of that directory fails.
\<close>

section \<open>open_location\<close>

datatype target_os = TargetWindows | TargetMac | TargetOther

text \<open>
  \<open>Path::parent\<close> of a Unix path, on the reversed path: separators and \<open>/.\<close> at the end do not
  count, the root and the empty path have no parent.
\<close>

fun trim_rev :: "int list \<Rightarrow> int list" where
  "trim_rev (c # d # s) =
     (if c = 47 then trim_rev (d # s) else if c = 46 \<and> d = 47 then trim_rev (d # s) else c # d # s)"
| "trim_rev s = s"

definition parent :: "int list \<Rightarrow> int list option" where
  "parent p =
     (let q = trim_rev (rev p)
      in if q = [] \<or> q = [47] then None else Some (rev (trim_rev (dropWhile (\<lambda>c. c \<noteq> 47) q))))"

text \<open>The process that is started: its program and its arguments.\<close>

definition location_process :: "target_os \<Rightarrow> (int list \<Rightarrow> bool) \<Rightarrow> int list \<Rightarrow> string \<times> int list list" where
  "location_process os is_file path =
     (case os of
        TargetWindows \<Rightarrow> (''explorer'', [js ''/select,'', path])
      | TargetMac \<Rightarrow> (''open'', [js ''-R'', path])
      | TargetOther \<Rightarrow>
          (let dir = (if is_file path then (case parent path of None \<Rightarrow> path | Some d \<Rightarrow> d) else path)
           in (''xdg-open'', [dir])))"

definition open_location :: "target_os \<Rightarrow> (int list \<Rightarrow> bool) \<Rightarrow> (string \<times> int list list \<Rightarrow> unit result)
    \<Rightarrow> int list \<Rightarrow> unit result" where
  "open_location os is_file spawn path = spawn (location_process os is_file path)"

section \<open>The machine\<close>

type_synonym disk = "int list \<Rightarrow> byte list option"

text \<open>What the operating system and the libraries do, as functions of the parts they look at.\<close>

record machine_env =
  me_runtime :: runtime_env
  me_scan :: "disk \<Rightarrow> scan_env"
  me_dedup :: "disk \<Rightarrow> dedup_env"
  me_index :: index_env
  me_library :: "index_doc list \<Rightarrow> opened_index"
  me_config :: config_env
  me_diag :: "(int list \<Rightarrow> index_doc list option) \<Rightarrow> diag_env"
  me_heap_ok :: "nat \<Rightarrow> bool"
  me_pool_ok :: "nat \<Rightarrow> bool"
  me_add_ok :: "RustFile \<Rightarrow> bool"
  me_commit_ok :: "RustFile \<Rightarrow> bool"
  me_cpu :: nat
  me_total_mem :: nat
  me_state_ok :: bool
  me_os :: target_os
  me_spawn :: "string \<times> int list list \<Rightarrow> unit result"

text \<open>An indexing run with the handler that waits for it, if there is one.\<close>

record run =
  rn_opts :: IndexOptions
  rn_patterns :: "int list list"
  rn_task :: "task option"
  rn_pipe :: pipe

text \<open>A run that \<open>spawn\<close> has accepted and that has not begun.\<close>

record spawned =
  sp_roots :: "int list list"
  sp_patterns :: "int list list"
  sp_opts :: IndexOptions

record machine =
  mc_files :: disk
  mc_indexes :: "int list \<Rightarrow> index_doc list option"
  mc_config :: config_store
  mc_state :: state_file
  mc_day :: js_string
  mc_runs :: "run list"
  mc_spawned :: "spawned list"

definition rn_dir :: "run \<Rightarrow> int list" where
  "rn_dir r = ix_index_dir (rn_opts r)"

fun is_emitted :: "RustFile \<times> job_phase \<Rightarrow> bool" where
  "is_emitted (f, Emitted k) = True"
| "is_emitted _ = False"

text \<open>The writer is dropped when the main task has returned and the last worker is finished.\<close>

definition holds_writer :: "run \<Rightarrow> bool" where
  "holds_writer r \<longleftrightarrow> \<not> (pp_main (rn_pipe r) = Returned \<and> list_all is_emitted (pp_jobs (rn_pipe r)))"

definition locked :: "machine \<Rightarrow> int list \<Rightarrow> bool" where
  "locked m dir \<longleftrightarrow> list_ex (\<lambda>r. rn_dir r = dir \<and> holds_writer r) (mc_runs m)"

text \<open>The part of the machine that the commands on one index directory see, and its update.\<close>

definition at_dir :: "int list \<Rightarrow> machine \<Rightarrow> backend" where
  "at_dir dir m = \<lparr>bk_files = mc_files m, bk_index = mc_indexes m dir\<rparr>"

definition put_dir :: "int list \<Rightarrow> backend \<Rightarrow> machine \<Rightarrow> machine" where
  "put_dir dir st m = m\<lparr>mc_files := bk_files st, mc_indexes := (mc_indexes m)(dir := bk_index st)\<rparr>"

definition index_env_at :: "machine_env \<Rightarrow> machine \<Rightarrow> int list \<Rightarrow> index_env" where
  "index_env_at env m dir = (me_index env)\<lparr>can_write := can_write (me_index env) \<and> \<not> locked m dir\<rparr>"

definition pipe_env_at :: "machine_env \<Rightarrow> machine \<Rightarrow> int list \<Rightarrow> pipe_env" where
  "pipe_env_at env m dir = \<lparr>pe_scan = me_scan env (mc_files m), pe_index = index_env_at env m dir,
     pe_heap_ok = me_heap_ok env, pe_pool_ok = me_pool_ok env, pe_add_ok = me_add_ok env,
     pe_commit_ok = me_commit_ok env, pe_cpu = me_cpu env, pe_total_mem = me_total_mem env\<rparr>"

section \<open>Answers\<close>

text \<open>Numbers and texts as the frontend reads them: a 64 bit integer is rounded to a double.\<close>

definition ts_int :: "int \<Rightarrow> js_number" where
  "ts_int n = to_double (of_int n)"

definition ts_file :: "RustFile \<Rightarrow> FileMeta" where
  "ts_file f = \<lparr>fm_path = utf16 (rf_path f), fm_file_name = utf16 (rf_file_name f), fm_ext = utf16 (rf_ext f),
     fm_size = ts_int (uint (rf_size f)), fm_modified_ts = ts_int (rf_modified_ts f)\<rparr>"

definition ts_result :: "RustResult \<Rightarrow> SearchResult" where
  "ts_result r = \<lparr>sr_path = utf16 (SearchBackend.rr_path r), sr_name = utf16 (SearchBackend.rr_name r),
     sr_ext = utf16 (SearchBackend.rr_ext r), sr_score = SearchBackend.rr_score r,
     sr_size = map_option (\<lambda>n. ts_int (uint n)) (SearchBackend.rr_size r),
     sr_modified_ts = map_option ts_int (rr_modified_ts r), sr_summary = map_option utf16 (SearchBackend.rr_summary r)\<rparr>"

definition ts_group :: "DupGroup \<Rightarrow> DupGroup" where
  "ts_group g = g\<lparr>dg_key := utf16 (dg_key g), dg_files := map utf16 (dg_files g)\<rparr>"

definition ts_report :: "RustReport \<Rightarrow> DiagnosticsReport" where
  "ts_report r = \<lparr>dr_index_dir = utf16 (rp_index_dir r), dr_index_open_ok = rp_index_open_ok r,
     dr_index_doc_count = map_option (\<lambda>n. ts_int (int n)) (rp_index_doc_count r),
     dr_schema_fields = map_option (map utf16) (rp_schema_fields r),
     dr_config_scan_roots_count = ts_int (int (rp_config_scan_roots_count r)),
     dr_config_auto_scan_enabled = rp_config_auto_scan_enabled r, dr_pipeline_started = rp_pipeline_started r,
     dr_pipeline_completed = rp_pipeline_completed r, dr_pipeline_last_day = map_option utf16 (rp_pipeline_last_day r),
     dr_sys_cpu_avg = map_option to_double (rp_sys_cpu_avg r),
     dr_sys_total_mem_kib = map_option (\<lambda>n. ts_int (uint n)) (rp_sys_total_mem_kib r),
     dr_sys_free_mem_kib = map_option (\<lambda>n. ts_int (uint n)) (rp_sys_free_mem_kib r),
     dr_warnings = map utf16 (rp_warnings r)\<rparr>"

definition reply :: "('a result \<Rightarrow> response) \<Rightarrow> rust_error + 'a \<Rightarrow> response option" where
  "reply wrap r =
     (case r of Inl (Failed e) \<Rightarrow> Some (wrap (Inl e)) | Inl Panicked \<Rightarrow> None | Inr v \<Rightarrow> Some (wrap (Inr v)))"

section \<open>Runs\<close>

text \<open>The directory and the index exist before the pool and the writer can fail.\<close>

definition prepared_index :: "index_env \<Rightarrow> index_doc list option \<Rightarrow> index_doc list option" where
  "prepared_index ie idx = (if can_create_dir ie \<and> idx = None \<and> can_create ie then Some [] else idx)"

definition launch_run :: "machine_env \<Rightarrow> task option \<Rightarrow> int list list \<Rightarrow> int list list \<Rightarrow> IndexOptions \<Rightarrow> machine
    \<Rightarrow> (rust_error + unit) \<times> machine" where
  "launch_run env caller rs patterns opts m =
     (let dir = ix_index_dir opts;
          m1 = m\<lparr>mc_indexes := (mc_indexes m)(dir := prepared_index (me_index env) (mc_indexes m dir))\<rparr>
      in case pipeline_start (pipe_env_at env m dir) rs (at_dir dir m) of
           Inl e \<Rightarrow> (Inl e, m1)
         | Inr p \<Rightarrow> (Inr (), m1\<lparr>mc_runs := mc_runs m @ [\<lparr>rn_opts = opts, rn_patterns = patterns, rn_task = caller, rn_pipe = p\<rparr>],
             mc_state := mark_started (me_state_ok env) (mc_day m) (mc_state m)\<rparr>))"

definition auto_run :: "RustConfig \<Rightarrow> spawned" where
  "auto_run c = \<lparr>sp_roots = rc_scan_roots c, sp_patterns = rc_exclude_patterns c,
     sp_opts = \<lparr>ix_index_dir = rc_index_dir c, ix_enable_content_parse = False\<rparr>\<rparr>"

text \<open>What a step of a run does to the machine: its commits are the index of its directory.\<close>

definition run_moved :: "machine_env \<Rightarrow> run list \<Rightarrow> run \<Rightarrow> run list \<Rightarrow> pipe \<Rightarrow> machine \<Rightarrow> machine" where
  "run_moved env xs r ys p m =
     m\<lparr>mc_runs := xs @ r\<lparr>rn_pipe := p\<rparr> # ys, mc_indexes := (mc_indexes m)(rn_dir r := Some (pp_docs p)),
       mc_state := (if pp_completed p \<and> \<not> pp_completed (rn_pipe r)
                    then mark_completed (me_state_ok env) (mc_day m) (mc_state m) else mc_state m)\<rparr>"

section \<open>The commands\<close>

definition open_index :: "machine_env \<Rightarrow> machine \<Rightarrow> int list \<Rightarrow> opened_index result" where
  "open_index env m dir =
     (case mc_indexes m dir of None \<Rightarrow> Inl (Rejected (js ''tantivy'')) | Some docs \<Rightarrow> Inr (me_library env docs))"

fun exec_command :: "machine_env \<Rightarrow> task option \<Rightarrow> command \<Rightarrow> machine
    \<Rightarrow> response option \<times> machine \<times> backend_event list" where
  "exec_command env caller (CScanPaths opts) m =
     (map_option (\<lambda>fs. RFiles (Inr (map ts_file fs))) (scan (me_scan env (mc_files m)) opts), m, [])"
| "exec_command env caller (CScanPathsProgress opts) m =
     (case scan_paths_progress (me_scan env (mc_files m)) opts of (r, evs) \<Rightarrow>
        (map_option (\<lambda>fs. RFiles (Inr (map ts_file fs))) r, m, map (wire_event \<circ> PScan) evs))"
| "exec_command env caller (CBuild files opts) m =
     (case build (index_env_at env m (ix_index_dir opts)) files opts (at_dir (ix_index_dir opts) m) of
        (r, st) \<Rightarrow> (reply RUnit r, put_dir (ix_index_dir opts) st m, []))"
| "exec_command env caller (CBuildProgress files opts) m =
     (case build_inverted_index_progress (index_env_at env m (ix_index_dir opts)) files opts (at_dir (ix_index_dir opts) m) of
        (r, st, evs) \<Rightarrow> (reply RUnit r, put_dir (ix_index_dir opts) st m, map (wire_event \<circ> PIndex) evs))"
| "exec_command env caller (CPipeline sopts opts) m =
     (case launch_run env caller (sc_roots sopts) (sc_exclude_patterns sopts) opts m of
        (Inl e, m1) \<Rightarrow> (reply RUnit (Inl e), m1, []) | (Inr _, m1) \<Rightarrow> (None, m1, []))"
| "exec_command env caller CStartAutoScan m =
     (case read_config (me_config env) (mc_config m) of
        (Inl e, cs) \<Rightarrow> (Some (RUnit (Inl e)), m\<lparr>mc_config := cs\<rparr>, [])
      | (Inr c, cs) \<Rightarrow> (Some (RUnit (Inr ())), m\<lparr>mc_config := cs, mc_spawned := mc_spawned m @ [auto_run c]\<rparr>,
          [EAutoScanStart (Some (utf16 (js ''manual'')))]))"
| "exec_command env caller CDiagnostics m =
     (Some (RDiag (map_sum id ts_report
        (diagnostics_report (me_diag env (mc_indexes m)) (me_config env) (mc_config m) (mc_state m)))),
      m\<lparr>mc_config := snd (read_config (me_config env) (mc_config m))\<rparr>, [])"
| "exec_command env caller (CSearch req) m =
     (reply RResults (map_sum id (map ts_result) (search_query (open_index env m) req)), m, [])"
| "exec_command env caller (CDetect paths) m =
     (Some (RGroups (map_sum id (map ts_group) (detect (me_dedup env (mc_files m)) paths))), m, [])"
| "exec_command env caller CReadConfig m =
     (case read_config (me_config env) (mc_config m) of (r, cs) \<Rightarrow>
        (Some (RConfig (map_sum id ts_config r)), m\<lparr>mc_config := cs\<rparr>, []))"
| "exec_command env caller (CWriteConfig c) m =
     (case write_config (me_config env) c (mc_config m) of (r, cs) \<Rightarrow> (Some (RUnit r), m\<lparr>mc_config := cs\<rparr>, []))"
| "exec_command env caller CResetConfig m =
     (case reset_config (me_config env) (mc_config m) of (r, cs) \<Rightarrow>
        (Some (RConfig (map_sum id ts_config r)), m\<lparr>mc_config := cs\<rparr>, []))"
| "exec_command env caller (COpenLocation path) m =
     (Some (RUnit (open_location (me_os env) (\<lambda>p. mc_files m p \<noteq> None) (me_spawn env) path)), m, [])"
| "exec_command env caller (CDelete path dir) m =
     (case delete_file_and_index (index_env_at env m dir) path (at_dir dir m) of
        (r, st) \<Rightarrow> (reply RUnit r, put_dir dir st m, []))"

section \<open>Lemmas\<close>

lemma at_dir_simps [simp]: "bk_files (at_dir d m) = mc_files m" "bk_index (at_dir d m) = mc_indexes m d"
  by (simp_all add: at_dir_def)

lemma put_dir_simps [simp]:
  "mc_files (put_dir d st m) = bk_files st" "mc_indexes (put_dir d st m) = (mc_indexes m)(d := bk_index st)"
  "mc_runs (put_dir d st m) = mc_runs m" "mc_spawned (put_dir d st m) = mc_spawned m"
  "mc_config (put_dir d st m) = mc_config m" "mc_state (put_dir d st m) = mc_state m"
  by (simp_all add: put_dir_def)

lemma holds_writer_finished: "holds_writer r \<longleftrightarrow> \<not> pipe_finished (rn_pipe r)"
proof -
  have "is_emitted (f, ph) \<longleftrightarrow> (\<exists>k. ph = Emitted k)" for f ph by (cases ph) auto
  then have "is_emitted = (\<lambda>(f, ph). \<exists>k. ph = Emitted k)" by auto
  then show ?thesis by (simp only: holds_writer_def pipe_finished_def list_all_iff)
qed

text \<open>The parent of a file is the directory it is in, so that \<open>open_location\<close> opens that directory.\<close>

lemma trim_rev_name:
  assumes "n \<noteq> []" "47 \<notin> set n" "n \<noteq> [46]"
  shows "trim_rev (n @ 47 # r) = n @ 47 # r"
proof -
  obtain c n' where n: "n = c # n'" using assms(1) by (cases n) auto
  then show ?thesis using assms by (cases n') auto
qed

lemma parent_of_file:
  assumes "d \<noteq> []" "trim_rev (rev d) = rev d" "f \<noteq> []" "47 \<notin> set f" "f \<noteq> [46]"
  shows "parent (d @ 47 # f) = Some d"
proof -
  have t: "trim_rev (rev f @ 47 # rev d) = rev f @ 47 # rev d"
    using assms(3-5) by (intro trim_rev_name) (auto simp: rev_singleton_conv)
  have "dropWhile (\<lambda>c. c \<noteq> 47) (rev f @ 47 # rev d) = 47 # rev d" using assms(4) by (auto simp: dropWhile_append)
  moreover have "trim_rev (47 # rev d) = rev d" using assms(1,2) by (cases "rev d") auto
  moreover have "rev f @ 47 # rev d \<noteq> [] \<and> rev f @ 47 # rev d \<noteq> [47]" using assms(3) by (cases "rev f") auto
  ultimately show ?thesis by (simp add: parent_def t)
qed

lemma open_location_shows_directory:
  assumes "d \<noteq> []" "trim_rev (rev d) = rev d" "f \<noteq> []" "47 \<notin> set f" "f \<noteq> [46]" "is_file (d @ 47 # f)"
  shows "open_location TargetOther is_file spawn (d @ 47 # f) = spawn (''xdg-open'', [d])"
  using parent_of_file [OF assms(1-5)] assms(6) by (simp add: open_location_def location_process_def)

end
