(* ===== verification/System.thy ===== *)
theory System
  imports Commands
begin

text \<open>
  The whole program: the App component, the backend and what is under way between them. A
  command that a handler has sent is executed at some later moment, its answer arrives later
  still, in any order; the timer of \<open>safeInvoke\<close> may give up on it first, and then the command
  is still executed, with nobody waiting; a command that allows retries is sent again after a
  timeout or an error, as often as it likes. Dialogs, subscriptions and the clipboard answer as
  they like, with a value of their type. Indexing runs take their steps between everything else,
  events arrive in the order in which they were sent, and the daily loop may start a run at any
  time. Other programs do not touch the disk.
\<close>

section \<open>State and steps\<close>

record system =
  sy_world :: world
  sy_machine :: machine
  sy_served :: "(task \<times> response) list"
  sy_silent :: "task list"
  sy_orphans :: "task list"
  sy_events :: "backend_event list"

text \<open>A rejected promise of the type a handler awaits.\<close>

fun rejection :: "task \<Rightarrow> js_error \<Rightarrow> response" where
  "rejection TLoadConfig e = RConfig (Inl e)"
| "rejection (TScanRun _) e = RFiles (Inl e)"
| "rejection TResetConfig e = RConfig (Inl e)"
| "rejection (TSearch _) e = RResults (Inl e)"
| "rejection TDiagnostics e = RDiag (Inl e)"
| "rejection TPickRoots e = RSelection (Inl e)"
| "rejection TPickIndexDir e = RSelection (Inl e)"
| "rejection (TDetectScan _) e = RFiles (Inl e)"
| "rejection (TDetect _) e = RGroups (Inl e)"
| "rejection _ e = RUnit (Inl e)"

text \<open>A handler whose command has not been executed yet.\<close>

definition waiting :: "task \<Rightarrow> system \<Rightarrow> bool" where
  "waiting t S \<longleftrightarrow> count (mset (map fst (sy_served S)) + mset (sy_silent S)) t < count (mset (tasks (sy_world S))) t"

text \<open>The command arrives: its arguments are decoded and it is run, or it is rejected.\<close>

definition arrives :: "machine_env \<Rightarrow> task option \<Rightarrow> task \<Rightarrow> invocation \<Rightarrow> machine
    \<Rightarrow> response option \<times> machine \<times> backend_event list" where
  "arrives env caller t call m =
     (case decode_command (me_config env) (inv_cmd call) (inv_payload call) of
        None \<Rightarrow> (Some (rejection t (Rejected (js ''invalid args''))), m, [])
      | Some c \<Rightarrow> exec_command env caller c m)"

definition executed :: "machine_env \<Rightarrow> task \<Rightarrow> invocation \<Rightarrow> system \<Rightarrow> system" where
  "executed env t call S =
     (case arrives env (Some t) t call (sy_machine S) of (r, m, evs) \<Rightarrow>
        let S1 = S\<lparr>sy_machine := m, sy_events := sy_events S @ evs\<rparr> in
        case r of None \<Rightarrow> S1\<lparr>sy_silent := sy_silent S @ [t]\<rparr> | Some v \<Rightarrow> S1\<lparr>sy_served := sy_served S @ [(t, v)]\<rparr>)"

definition orphan_executed :: "machine_env \<Rightarrow> task \<Rightarrow> invocation \<Rightarrow> task list \<Rightarrow> task list \<Rightarrow> system \<Rightarrow> system" where
  "orphan_executed env t call xs ys S =
     (case arrives env None t call (sy_machine S) of (r, m, evs) \<Rightarrow>
        S\<lparr>sy_machine := m, sy_events := sy_events S @ evs, sy_orphans := xs @ ys\<rparr>)"

text \<open>The answer of a pipeline command: its main task has returned and its handler still waits.\<close>

definition run_answers :: "run \<Rightarrow> pipe \<Rightarrow> system \<Rightarrow> task option" where
  "run_answers r p S =
     (case rn_task r of None \<Rightarrow> None
      | Some t \<Rightarrow> if pp_main p = Returned \<and> pp_main (rn_pipe r) \<noteq> Returned \<and> t \<in> set (sy_silent S) then Some t else None)"

definition run_advances :: "machine_env \<Rightarrow> run list \<Rightarrow> run \<Rightarrow> run list \<Rightarrow> pipe \<Rightarrow> system \<Rightarrow> system" where
  "run_advances env xs r ys p S =
     (let S1 = S\<lparr>sy_machine := run_moved env xs r ys p (sy_machine S),
                 sy_events := sy_events S @ map wire_event (drop (length (pp_events (rn_pipe r))) (pp_events p))\<rparr>
      in case run_answers r p S of None \<Rightarrow> S1
         | Some t \<Rightarrow> S1\<lparr>sy_silent := remove1 t (sy_silent S), sy_served := sy_served S @ [(t, RUnit (Inr ()))]\<rparr>)"

text \<open>A run that was spawned begins; an error of its start is dropped.\<close>

definition spawned_begins :: "machine_env \<Rightarrow> spawned list \<Rightarrow> spawned \<Rightarrow> spawned list \<Rightarrow> system \<Rightarrow> system" where
  "spawned_begins env xs sp ys S =
     S\<lparr>sy_machine := snd (launch_run env None (sp_roots sp) (sp_patterns sp) (sp_opts sp)
         ((sy_machine S)\<lparr>mc_spawned := xs @ ys\<rparr>))\<rparr>"

text \<open>One turn of the daily loop.\<close>

definition daily_turn :: "machine_env \<Rightarrow> rat list \<Rightarrow> system \<Rightarrow> system" where
  "daily_turn env cpus S =
     (let m = sy_machine S; (cfg, cs) = read_config (me_config env) (mc_config m); m1 = m\<lparr>mc_config := cs\<rparr>
      in case auto_decision cfg (mc_state m) (mc_day m) cpus of
           None \<Rightarrow> S\<lparr>sy_machine := m1\<rparr>
         | Some c \<Rightarrow> S\<lparr>sy_machine := m1\<lparr>mc_spawned := mc_spawned m @ [auto_run c]\<rparr>,
             sy_events := sy_events S @ [EAutoScanStart (Some (utf16 (js ''idle_daily'')))]\<rparr>)"

definition with_world :: "world \<Rightarrow> system \<Rightarrow> system" where
  "with_world w1 S = S\<lparr>sy_world := debounce True (app (sy_world S)) w1\<rparr>"

datatype sys_label = SUser action | STimer | SExec task | SOther task response | SAnswer task | STimeout task
  | SResend task | SOrphan task | SRun | SEvent | SBegins | SDaily | SMidnight

inductive sys_step :: "machine_env \<Rightarrow> system \<Rightarrow> sys_label \<Rightarrow> system \<Rightarrow> bool" for env where
  user: "user_action True act (sy_world S) = Some w1 \<Longrightarrow> sys_step env S (SUser act) (with_world w1 S)"
| fires: "timer (sy_world S) = Some c
     \<Longrightarrow> sys_step env S STimer (with_world (search_timer_fires c (sy_world S)) S)"
| executes: "waiting t S \<Longrightarrow> task_call (me_runtime env) t = Some call
     \<Longrightarrow> sys_step env S (SExec t) (executed env t call S)"
| other: "waiting t S \<Longrightarrow> task_call (me_runtime env) t = None \<Longrightarrow> resume t r (sy_world S) = Some w
     \<Longrightarrow> sys_step env S (SOther t r) (S\<lparr>sy_served := sy_served S @ [(t, r)]\<rparr>)"
| answers: "sy_served S = xs @ (t, r) # ys \<Longrightarrow> tasks (sy_world S) = us @ t # vs
     \<Longrightarrow> resume t r ((sy_world S)\<lparr>tasks := us @ vs\<rparr>) = Some w1
     \<Longrightarrow> sys_step env S (SAnswer t) (with_world w1 (S\<lparr>sy_served := xs @ ys\<rparr>))"
| gives_up: "waiting t S \<Longrightarrow> task_call (me_runtime env) t = Some call \<Longrightarrow> tasks (sy_world S) = us @ t # vs
     \<Longrightarrow> resume t (rejection t (InvokeTimeout (js (inv_cmd call)) (inv_timeoutMs call)))
           ((sy_world S)\<lparr>tasks := us @ vs\<rparr>) = Some w1
     \<Longrightarrow> sys_step env S (STimeout t) (with_world w1 (S\<lparr>sy_orphans := sy_orphans S @ [t]\<rparr>))"
| gives_up_silent: "sy_silent S = xs @ t # ys \<Longrightarrow> task_call (me_runtime env) t = Some call
     \<Longrightarrow> tasks (sy_world S) = us @ t # vs
     \<Longrightarrow> resume t (rejection t (InvokeTimeout (js (inv_cmd call)) (inv_timeoutMs call)))
           ((sy_world S)\<lparr>tasks := us @ vs\<rparr>) = Some w1
     \<Longrightarrow> sys_step env S (STimeout t) (with_world w1 (S\<lparr>sy_silent := xs @ ys\<rparr>))"
| resends: "t \<in> set (tasks (sy_world S)) \<Longrightarrow> task_call (me_runtime env) t = Some call
     \<Longrightarrow> js_lt (Fin 0) (inv_retries call)
     \<Longrightarrow> sys_step env S (SResend t) (S\<lparr>sy_orphans := sy_orphans S @ [t]\<rparr>)"
| resends_silent: "sy_silent S = xs @ t # ys \<Longrightarrow> task_call (me_runtime env) t = Some call
     \<Longrightarrow> js_lt (Fin 0) (inv_retries call) \<Longrightarrow> sys_step env S (SResend t) (S\<lparr>sy_silent := xs @ ys\<rparr>)"
| resends_rejected: "sy_served S = xs @ (t, rejection t e) # ys \<Longrightarrow> task_call (me_runtime env) t = Some call
     \<Longrightarrow> js_lt (Fin 0) (inv_retries call) \<Longrightarrow> sys_step env S (SResend t) (S\<lparr>sy_served := xs @ ys\<rparr>)"
| orphan: "sy_orphans S = xs @ t # ys \<Longrightarrow> task_call (me_runtime env) t = Some call
     \<Longrightarrow> sys_step env S (SOrphan t) (orphan_executed env t call xs ys S)"
| runs: "mc_runs (sy_machine S) = xs @ r # ys
     \<Longrightarrow> pipe_step (pipe_env_at env (sy_machine S) (rn_dir r)) (rn_patterns r) (at_dir (rn_dir r) (sy_machine S))
           (rn_opts r) (rn_pipe r) p
     \<Longrightarrow> sys_step env S SRun (run_advances env xs r ys p S)"
| delivers: "sy_events S = ev # evs
     \<Longrightarrow> sys_step env S SEvent (with_world (deliver ev (sy_world S)) (S\<lparr>sy_events := evs\<rparr>))"
| begins: "mc_spawned (sy_machine S) = xs @ sp # ys
     \<Longrightarrow> sys_step env S SBegins (spawned_begins env xs sp ys S)"
| turns: "sys_step env S SDaily (daily_turn env cpus S)"
| midnight: "sys_step env S SMidnight (S\<lparr>sy_machine := (sy_machine S)\<lparr>mc_day := d\<rparr>\<rparr>)"

inductive_cases sys_stepE: "sys_step env S l S'"

text \<open>The program starts with the disk and the indexes that earlier sessions left.\<close>

definition sys_begin :: "machine_env \<Rightarrow> machine \<Rightarrow> system \<Rightarrow> bool" where
  "sys_begin env m0 S \<longleftrightarrow> (\<exists>has_root development. render_root has_root development True (me_runtime env) = Inr (sy_world S))
     \<and> sy_machine S = m0 \<and> sy_served S = [] \<and> sy_silent S = [] \<and> sy_orphans S = [] \<and> sy_events S = []
     \<and> mc_runs m0 = [] \<and> mc_spawned m0 = []"

lemma sys_begin_world:
  assumes "sys_begin env m0 S"
  shows "set (tasks (sy_world S)) \<subseteq> {TLoadConfig}" "results (app (sy_world S)) = []"
proof -
  have "app_begin True (sy_world S)" using assms by (auto simp: sys_begin_def app_begin_def)
  from app_begin_cases [OF this] obtain e where
    "sy_world S = initial_world True e \<or> sy_world S = load_config (initial_world True e)" by blast
  then show "set (tasks (sy_world S)) \<subseteq> {TLoadConfig}" "results (app (sy_world S)) = []"
    by (auto simp: initial_world_def initial_state_def load_config_def await_on_def Let_def)
qed

text \<open>States with the labels of the steps that led to them.\<close>

definition hist_begin :: "machine_env \<Rightarrow> machine \<Rightarrow> sys_label list \<times> system \<Rightarrow> bool" where
  "hist_begin env m0 h \<longleftrightarrow> fst h = [] \<and> sys_begin env m0 (snd h)"

definition hist_step :: "machine_env \<Rightarrow> sys_label list \<times> system \<Rightarrow> sys_label list \<times> system \<Rightarrow> bool" where
  "hist_step env h h' \<longleftrightarrow> (\<exists>l. fst h' = fst h @ [l] \<and> sys_step env (snd h) l (snd h'))"

interpretation sys: transition_system "hist_begin env m0" "hist_step env" for env m0 .

section \<open>The App component inside the program\<close>

text \<open>Every step of the program is a step of the App component or leaves it alone.\<close>

lemma sys_step_app:
  assumes "sys_step env S l S'"
  shows "sy_world S' = sy_world S \<or> app_step True (sy_world S) (sy_world S')"
  using assms
proof cases
  case (executes t call)
  then show ?thesis by (simp add: executed_def Let_def split: prod.split option.split)
next
  case (runs xs r ys p)
  then show ?thesis by (simp add: run_advances_def Let_def split: option.split)
next
  case (turns cpus)
  then show ?thesis by (simp add: daily_turn_def Let_def split: prod.split option.split)
qed (auto simp: with_world_def orphan_executed_def spawned_begins_def intro: app_step.intros split: prod.split)

text \<open>Invariants of the program, with the labels of the run so far.\<close>

lemma sys_invariant:
  assumes "\<And>S. sys_begin env m0 S \<Longrightarrow> I [] S"
    and "\<And>ls S l S'. sys.reach env m0 (ls, S) \<Longrightarrow> I ls S \<Longrightarrow> sys_step env S l S' \<Longrightarrow> I (ls @ [l]) S'"
    and "sys.reach env m0 (ls, S)"
  shows "I ls S"
proof -
  have "I (fst h) (snd h)" if "sys.reach env m0 h" for h
    using that
  proof (rule sys.reach_invariant [rotated 2])
    fix h assume "hist_begin env m0 h"
    then show "I (fst h) (snd h)" using assms(1) by (simp add: hist_begin_def)
  next
    fix h h' assume h: "sys.reach env m0 h" "I (fst h) (snd h)" "hist_step env h h'"
    then obtain l where "fst h' = fst h @ [l]" "sys_step env (snd h) l (snd h')" by (auto simp: hist_step_def)
    with assms(2) [of "fst h" "snd h"] h show "I (fst h') (snd h')" by simp
  qed
  from this [OF assms(3)] show ?thesis by simp
qed

lemma sys_reach_app: "sys.reach env m0 (ls, S) \<Longrightarrow> ui.reach True (sy_world S)"
proof (rule sys_invariant [of env m0 "\<lambda>ls S. ui.reach True (sy_world S)"])
  fix S assume "sys_begin env m0 S"
  then show "ui.reach True (sy_world S)" by (intro ui.reach_start) (auto simp: sys_begin_def app_begin_def)
next
  fix ls :: "sys_label list" and S l S' assume "ui.reach True (sy_world S)" "sys_step env S l S'"
  then show "ui.reach True (sy_world S')" using sys_step_app [of env S l S'] ui.reach_step [of True] by fastforce
qed

section \<open>What is sent\<close>

text \<open>Only tasks that controls can start are sent, also when nobody waits for them any more.\<close>

lemma task_wire: "sys.reach env m0 (ls, S) \<Longrightarrow> t \<in> set (tasks (sy_world S)) \<Longrightarrow> wire_task t"
  using wir.holds [OF sys_reach_app [of env m0 ls S]] by (auto simp: wire_ok_def list_all_iff)

lemma orphan_wire:
  assumes "sys.reach env m0 (ls, S)"
  shows "list_all wire_task (sy_orphans S)"
proof (rule sys_invariant [OF _ _ assms, of "\<lambda>ls S. list_all wire_task (sy_orphans S)"])
  fix S assume "sys_begin env m0 S"
  then show "list_all wire_task (sy_orphans S)" by (simp add: sys_begin_def)
next
  fix ls S l S' assume h: "sys.reach env m0 (ls, S)" "list_all wire_task (sy_orphans S)" "sys_step env S l S'"
  from h(3) show "list_all wire_task (sy_orphans S')"
  proof cases
    case (executes t call)
    then show ?thesis using h(2) by (simp add: executed_def Let_def split: prod.split option.split)
  next
    case (runs xs r ys p)
    then show ?thesis using h(2) by (simp add: run_advances_def Let_def split: option.split)
  next
    case (turns cpus)
    then show ?thesis using h(2) by (simp add: daily_turn_def Let_def split: prod.split option.split)
  qed (use h task_wire [OF h(1)] in
      \<open>auto simp: with_world_def orphan_executed_def spawned_begins_def list_all_iff split: prod.split\<close>)
qed

lemma arrives_cases:
  assumes "wire_task t" "task_call (me_runtime env) t = Some call"
  shows "(\<exists>e. arrives env caller t call m = (Some (rejection t e), m, []))
    \<or> (\<exists>c. task_command t = Some c \<and> arrives env caller t call m = exec_command env caller c m)"
  using wire_decodes [OF assms, of "me_config env"]
  by (cases "list_all well_formed (task_texts t)"; cases "task_command t") (auto simp: arrives_def)

lemma arrives_wire:
  assumes "wire_task t" "list_all well_formed (task_texts t)" "task_command t = Some c"
    and "task_call (me_runtime env) t = Some call"
  shows "arrives env caller t call m = exec_command env caller c m"
  using wire_decodes [OF assms(1,4), of "me_config env"] assms(2,3) by (simp add: arrives_def)

section \<open>The backend inside the program\<close>

text \<open>The steps of the machine: a command of a task, a step or the beginning of a run, a turn of the loop.\<close>

inductive mach_step :: "machine_env \<Rightarrow> machine \<Rightarrow> task option \<Rightarrow> machine \<Rightarrow> bool" for env where
  command: "task_command t = Some c \<Longrightarrow> exec_command env caller c m = (r, m', evs) \<Longrightarrow> mach_step env m (Some t) m'"
| moves: "mc_runs m = xs @ r # ys
     \<Longrightarrow> pipe_step (pipe_env_at env m (rn_dir r)) (rn_patterns r) (at_dir (rn_dir r) m) (rn_opts r) (rn_pipe r) p
     \<Longrightarrow> mach_step env m None (run_moved env xs r ys p m)"
| started: "mach_step env m None (snd (launch_run env None rs ps opts (m\<lparr>mc_spawned := sps\<rparr>)))"
| outside: "mach_step env m None (m\<lparr>mc_config := cs, mc_spawned := sps, mc_day := d\<rparr>)"

lemma outside_config: "mach_step env m None (m\<lparr>mc_config := cs\<rparr>)"
  using outside [of env m, where cs = cs and sps = "mc_spawned m" and d = "mc_day m"] by simp

lemma outside_spawned: "mach_step env m None (m\<lparr>mc_config := cs, mc_spawned := sps\<rparr>)"
  using outside [of env m, where cs = cs and sps = sps and d = "mc_day m"] by simp

lemma outside_day: "mach_step env m None (m\<lparr>mc_day := d\<rparr>)"
  using outside [of env m, where cs = "mc_config m" and sps = "mc_spawned m" and d = d] by simp

lemma sys_step_machine:
  assumes "sys.reach env m0 (ls, S)" "sys_step env S l S'"
  shows "sy_machine S' = sy_machine S \<or> mach_step env (sy_machine S) None (sy_machine S')
    \<or> (\<exists>t. mach_step env (sy_machine S) (Some t) (sy_machine S') \<and> t \<in> set (tasks (sy_world S)) \<union> set (sy_orphans S))"
  using assms(2)
proof cases
  case (executes t call)
  have t: "t \<in> set (tasks (sy_world S))"
    using executes(3) by (auto simp: waiting_def count_greater_zero_iff intro: gr_implies_not0 dest: le_less_trans [rotated])
  obtain r m evs where a: "arrives env (Some t) t call (sy_machine S) = (r, m, evs)" by (metis prod_cases3)
  then have "sy_machine S' = m" using executes(2) by (simp add: executed_def Let_def split: option.split)
  then show ?thesis
    using arrives_cases [OF task_wire [OF assms(1) t] executes(4), of "Some t" "sy_machine S"] a t command
    by fastforce
next
  case (orphan xs t ys call)
  then have t: "t \<in> set (sy_orphans S)" by simp
  then have w: "wire_task t" using orphan_wire [OF assms(1)] by (auto simp: list_all_iff)
  obtain r m evs where a: "arrives env None t call (sy_machine S) = (r, m, evs)" by (metis prod_cases3)
  then have "sy_machine S' = m" using orphan(2) by (simp add: orphan_executed_def)
  then show ?thesis
    using arrives_cases [OF w orphan(4), of None "sy_machine S"] a t command by fastforce
next
  case (runs xs r ys p)
  then show ?thesis using moves [OF runs(3,4)] by (simp add: run_advances_def Let_def split: option.split)
next
  case (turns cpus)
  then show ?thesis
    by (auto simp: daily_turn_def Let_def intro: outside_config outside_spawned split: prod.split option.split)
qed (auto simp: with_world_def spawned_begins_def intro: started outside_day)

text \<open>A predicate on machines that every step of the machine keeps holds throughout the program.\<close>

locale machine_invariant =
  fixes env :: machine_env
    and K :: "machine \<Rightarrow> bool"
  assumes keeps: "mach_step env m t m' \<Longrightarrow> K m \<Longrightarrow> K m'"
begin

lemma always:
  assumes "sys.reach env m0 (ls, S)" "K m0"
  shows "K (sy_machine S)"
proof (rule sys_invariant [OF _ _ assms(1), of "\<lambda>ls S. K (sy_machine S)"])
  fix S assume "sys_begin env m0 S"
  then show "K (sy_machine S)" using assms(2) by (simp add: sys_begin_def)
next
  fix ls S l S' assume "sys.reach env m0 (ls, S)" "K (sy_machine S)" "sys_step env S l S'"
  then show "K (sy_machine S')" using sys_step_machine [of env m0 ls S l S'] keeps by metis
qed

end

end
