(* ===== verification/SystemProps.thy ===== *)
theory SystemProps
  imports System
begin

text \<open>
  Properties of the whole program: who may write an index, why a file can disappear from the
  disk, and where the results that are shown come from.
\<close>

section \<open>Effects of the machine's steps\<close>

lemma launch_run_fields:
  assumes "launch_run env caller rs ps opts m = (r, m')"
  shows "mc_files m' = mc_files m" "mc_config m' = mc_config m" "mc_spawned m' = mc_spawned m"
    and "mc_indexes m' = (mc_indexes m)(ix_index_dir opts :=
       prepared_index (me_index env) (mc_indexes m (ix_index_dir opts)))"
    and "mc_runs m' = mc_runs m \<or> (\<exists>p. pipeline_start (pipe_env_at env m (ix_index_dir opts)) rs (at_dir (ix_index_dir opts) m) = Inr p
      \<and> mc_runs m' = mc_runs m @ [\<lparr>rn_opts = opts, rn_patterns = ps, rn_task = caller, rn_pipe = p\<rparr>])"
  using assms by (auto simp: launch_run_def Let_def split: sum.splits)

text \<open>A command that controls can send and that changes files or indexes is a deletion or a pipeline.\<close>

lemma command_effect:
  assumes "task_command t = Some c" "exec_command env caller c m = (r, m', evs)"
  obtains (same) "mc_files m' = mc_files m" "mc_indexes m' = mc_indexes m" "mc_runs m' = mc_runs m"
  | (deleted) s d where "t = TDelete s d"
      "m' = put_dir (text_of d) (snd (delete_file_and_index (index_env_at env m (text_of d)) (text_of s) (at_dir (text_of d) m))) m"
  | (pipeline) rs ps opts where "m' = snd (launch_run env caller rs ps opts m)"
proof (cases t)
  case (TPipeline rs es io)
  with assms pipeline show ?thesis
    by (auto simp: rust_scan_def split: prod.splits sum.splits) (metis snd_conv)+
next
  case (TDelete s d)
  with assms deleted show ?thesis by (auto split: prod.splits)
qed (use assms same in \<open>auto split: prod.splits sum.splits\<close>)

lemma delete_effect:
  assumes "delete_file_and_index env path st = (r, st')"
  shows "bk_files st' = bk_files st \<or> bk_files st' = (bk_files st)(path := None)"
    and "bk_index st' = bk_index st \<or> can_write env \<and> (\<exists>docs. bk_index st = Some docs \<and> bk_index st' = Some (delete_term env path docs))"
  using assms by (auto simp: delete_file_and_index_def Let_def split: if_splits option.splits)

section \<open>One writer per index\<close>

lemma step_unfinished: "pipe_step env ps st opts s t \<Longrightarrow> \<not> pipe_finished s"
  by (induction rule: pipe_step.induct) (auto simp: pipe_finished_def)

definition one_writer_each :: "machine \<Rightarrow> bool" where
  "one_writer_each m \<longleftrightarrow> distinct (map rn_dir (filter holds_writer (mc_runs m)))
     \<and> (\<forall>r\<in>set (mc_runs m). holds_writer r \<longrightarrow> mc_indexes m (rn_dir r) = Some (pp_docs (rn_pipe r)))"

lemma started_writer:
  assumes "pipeline_start (pipe_env_at env m dir) rs (at_dir dir m) = Inr p"
  shows "\<not> locked m dir \<and> pp_docs p = (case prepared_index (me_index env) (mc_indexes m dir) of None \<Rightarrow> [] | Some d \<Rightarrow> d)
     \<and> prepared_index (me_index env) (mc_indexes m dir) \<noteq> None"
  using assms
  by (auto simp: pipeline_start_def Let_def pipe_env_at_def index_env_at_def prepared_index_def split: if_splits option.splits)

lemma one_writer_start:
  assumes "launch_run env caller rs ps opts m = (r, m')" "one_writer_each m"
  shows "one_writer_each m'"
proof -
  note f = launch_run_fields [OF assms(1)]
  have kept: "mc_indexes m' (rn_dir q) = Some (pp_docs (rn_pipe q))" if "q \<in> set (mc_runs m)" "holds_writer q" for q
    using that assms(2) by (auto simp: one_writer_each_def f(4) prepared_index_def)
  from f(5) show ?thesis
  proof (elim disjE exE conjE)
    assume "mc_runs m' = mc_runs m"
    with kept assms(2) show ?thesis by (simp add: one_writer_each_def)
  next
    fix p
    assume p: "pipeline_start (pipe_env_at env m (ix_index_dir opts)) rs (at_dir (ix_index_dir opts) m) = Inr p"
      "mc_runs m' = mc_runs m @ [\<lparr>rn_opts = opts, rn_patterns = ps, rn_task = caller, rn_pipe = p\<rparr>]"
    from started_writer [OF p(1)] have "\<forall>q\<in>set (mc_runs m). holds_writer q \<longrightarrow> rn_dir q \<noteq> ix_index_dir opts"
      "mc_indexes m' (ix_index_dir opts) = Some (pp_docs p)"
      by (auto simp: locked_def list_ex_iff f(4) split: option.splits)
    with kept assms(2) p(2) show ?thesis by (auto simp: one_writer_each_def rn_dir_def)
  qed
qed

lemma one_writer_moves:
  assumes "mc_runs m = xs @ r # ys" "one_writer_each m"
    and "pipe_step penv ps st opts (rn_pipe r) p"
  shows "one_writer_each (run_moved env xs r ys p m)"
proof -
  have "holds_writer r" using step_unfinished [OF assms(3)] by (simp add: holds_writer_finished)
  then have other: "rn_dir q \<noteq> rn_dir r" if "q \<in> set (xs @ ys)" "holds_writer q" for q
    using that assms(1,2) by (auto simp: one_writer_each_def image_iff)
  have dir: "rn_dir (r\<lparr>rn_pipe := p\<rparr>) = rn_dir r" by (simp add: rn_dir_def)
  from other \<open>holds_writer r\<close> assms(1,2) show ?thesis
    unfolding one_writer_each_def run_moved_def by (auto simp: dir)
qed

lemma one_writer_delete:
  assumes "delete_file_and_index (index_env_at env m dir) path (at_dir dir m) = (r, st)" "one_writer_each m"
  shows "one_writer_each (put_dir dir st m)"
proof (cases "locked m dir")
  case True
  then have "bk_index st = mc_indexes m dir" using delete_effect(2) [OF assms(1)] by (auto simp: index_env_at_def)
  then show ?thesis using assms(2) by (simp add: one_writer_each_def fun_upd_idem)
next
  case False
  then show ?thesis using assms(2) by (auto simp: one_writer_each_def locked_def list_ex_iff)
qed

lemma one_writer_keeps: "mach_step env m t m' \<Longrightarrow> one_writer_each m \<Longrightarrow> one_writer_each m'"
proof (induction rule: mach_step.induct)
  case (command t c caller m r m' evs)
  from command(1,2) show ?case
  proof (cases rule: command_effect)
    case same
    with command(3) show ?thesis by (simp add: one_writer_each_def)
  next
    case (deleted s d)
    with command(3) show ?thesis by (auto intro: one_writer_delete surjective_pairing)
  next
    case (pipeline rs ps opts)
    with command(3) show ?thesis by (auto intro: one_writer_start surjective_pairing)
  qed
next
  case (started m rs ps opts sps)
  then have "one_writer_each (m\<lparr>mc_spawned := sps\<rparr>)" by (simp add: one_writer_each_def)
  then show ?case by (rule one_writer_start [OF surjective_pairing])
next
  case (outside m cs sps d)
  then show ?case by (simp add: one_writer_each_def)
qed (blast intro: one_writer_moves)

interpretation wr: machine_invariant env one_writer_each for env
  by unfold_locales (rule one_writer_keeps)

section \<open>Files that disappear\<close>

lemma machine_files:
  assumes "mach_step env m t m'"
  shows "mc_files m' = mc_files m \<or> (\<exists>s d. t = Some (TDelete s d) \<and> mc_files m' = (mc_files m)(text_of s := None))"
  using assms
proof (induction rule: mach_step.induct)
  case (command t c caller m r m' evs)
  then show ?case
  proof (cases rule: command_effect)
    case (deleted s d)
    with delete_effect(1) [OF surjective_pairing, of "index_env_at env m (text_of d)" "text_of s" "at_dir (text_of d) m"]
    show ?thesis by auto
  next
    case (pipeline rs ps opts)
    with launch_run_fields(1) [OF surjective_pairing] show ?thesis by simp
  qed simp
next
  case (started m rs ps opts sps)
  then show ?case using launch_run_fields(1) [OF surjective_pairing, of env None rs ps opts "m\<lparr>mc_spawned := sps\<rparr>"] by simp
qed (simp_all add: run_moved_def)

text \<open>A deletion that is pending was confirmed by the user on a path that the page lists.\<close>

lemma user_new_delete:
  "user_action True act w = Some w' \<Longrightarrow> TDelete s d \<in> set (tasks w')
     \<Longrightarrow> TDelete s d \<in> set (tasks w) \<or> act = ClickDelete True s \<and> listed s (app w)"
  by (cases act) (auto simp: app_simps split: PageKey.splits if_splits option.splits)

lemma resume_no_delete:
  "resume t v (w\<lparr>tasks := xs\<rparr>) = Some w' \<Longrightarrow> TDelete s d \<in> set (tasks w') \<Longrightarrow> TDelete s d \<in> set xs"
  by (cases t; cases v) (auto simp: app_simps split: sum.splits selection.splits)

lemma quiet_no_delete:
  "TDelete s d \<in> set (tasks (deliver ev w)) \<Longrightarrow> TDelete s d \<in> set (tasks w)"
  "TDelete s d \<in> set (tasks (search_timer_fires c w)) \<Longrightarrow> TDelete s d \<in> set (tasks w)"
  by (auto simp: app_simps split: backend_event.splits if_splits option.splits)

text \<open>At some earlier moment the path was shown and the user confirmed its deletion.\<close>

definition asked :: "machine_env \<Rightarrow> machine \<Rightarrow> sys_label list \<Rightarrow> js_string \<Rightarrow> bool" where
  "asked env m0 ls s \<longleftrightarrow> (\<exists>before after S. ls = before @ SUser (ClickDelete True s) # after
     \<and> sys.reach env m0 (before, S) \<and> listed s (app (sy_world S)))"

lemma asked_mono: "asked env m0 ls s \<Longrightarrow> asked env m0 (ls @ ks) s"
  unfolding asked_def by (metis append.assoc append_Cons)

lemma sys_new_delete:
  assumes "sys_step env S l S'" "TDelete s d \<in> set (tasks (sy_world S')) \<union> set (sy_orphans S')"
  shows "TDelete s d \<in> set (tasks (sy_world S)) \<union> set (sy_orphans S) \<or> l = SUser (ClickDelete True s) \<and> listed s (app (sy_world S))"
  using assms(1)
proof cases
  case (user act w1)
  then show ?thesis using assms(2) user_new_delete [of act "sy_world S" w1 s d] by (auto simp: with_world_def)
next
  case (executes t call)
  then show ?thesis using assms(2) by (auto simp: executed_def Let_def split: prod.splits option.splits)
next
  case (answers xs t r ys us vs w1)
  then show ?thesis
    using assms(2) resume_no_delete [of t r, where w = "sy_world S" and xs = "us @ vs"] by (auto simp: with_world_def)
next
  case (gives_up t call us vs w1)
  then show ?thesis
    using assms(2) resume_no_delete [of t, where w = "sy_world S" and xs = "us @ vs"] by (auto simp: with_world_def)
next
  case (gives_up_silent xs t ys call us vs w1)
  then show ?thesis
    using assms(2) resume_no_delete [of t, where w = "sy_world S" and xs = "us @ vs"] by (auto simp: with_world_def)
next
  case (runs xs r ys p)
  then show ?thesis using assms(2) by (auto simp: run_advances_def Let_def split: option.splits)
next
  case (turns cpus)
  then show ?thesis using assms(2) by (auto simp: daily_turn_def Let_def split: prod.splits option.splits)
next
  case (fires c)
  then show ?thesis using assms(2) quiet_no_delete(2) [of s d c "sy_world S"] by (auto simp: with_world_def)
next
  case (delivers ev evs)
  then show ?thesis using assms(2) quiet_no_delete(1) [of s d ev "sy_world S"] by (auto simp: with_world_def)
next
  case (orphan xs t ys call)
  then show ?thesis using assms(2) by (auto simp: orphan_executed_def split: prod.splits)
qed (use assms(2) in \<open>auto simp: spawned_begins_def\<close>)

definition losses_asked :: "machine_env \<Rightarrow> machine \<Rightarrow> sys_label list \<Rightarrow> system \<Rightarrow> bool" where
  "losses_asked env m0 ls S \<longleftrightarrow>
     (\<forall>s d. TDelete s d \<in> set (tasks (sy_world S)) \<union> set (sy_orphans S) \<longrightarrow> asked env m0 ls s)
     \<and> (\<forall>p. mc_files (sy_machine S) p \<noteq> mc_files m0 p
          \<longrightarrow> mc_files (sy_machine S) p = None \<and> (\<exists>s. text_of s = p \<and> asked env m0 ls s))"

lemma losses_asked_step:
  assumes "sys.reach env m0 (ls, S)" "losses_asked env m0 ls S" "sys_step env S l S'"
  shows "losses_asked env m0 (ls @ [l]) S'"
  unfolding losses_asked_def
proof (intro conjI allI impI)
  fix s d assume "TDelete s d \<in> set (tasks (sy_world S')) \<union> set (sy_orphans S')"
  from sys_new_delete [OF assms(3) this] show "asked env m0 (ls @ [l]) s"
  proof (elim disjE conjE)
    assume "TDelete s d \<in> set (tasks (sy_world S)) \<union> set (sy_orphans S)"
    with assms(2) show ?thesis unfolding losses_asked_def by (blast intro: asked_mono)
  next
    assume "l = SUser (ClickDelete True s)" "listed s (app (sy_world S))"
    with assms(1) show ?thesis unfolding asked_def by blast
  qed
next
  fix p assume p: "mc_files (sy_machine S') p \<noteq> mc_files m0 p"
  have "mc_files (sy_machine S') = mc_files (sy_machine S) \<or>
      (\<exists>s. mc_files (sy_machine S') = (mc_files (sy_machine S))(text_of s := None) \<and> asked env m0 ls s)"
    using sys_step_machine [OF assms(1,3)]
  proof (elim disjE exE conjE)
    assume "mach_step env (sy_machine S) None (sy_machine S')"
    from machine_files [OF this] show ?thesis by simp
  next
    fix t assume t: "mach_step env (sy_machine S) (Some t) (sy_machine S')" "t \<in> set (tasks (sy_world S)) \<union> set (sy_orphans S)"
    from machine_files [OF t(1)] t(2) assms(2) show ?thesis unfolding losses_asked_def by (metis option.inject)
  qed simp
  with p assms(2) have "mc_files (sy_machine S') p = None \<and> (\<exists>s. text_of s = p \<and> asked env m0 ls s)"
    by (auto simp: losses_asked_def split: if_splits)
  then show "mc_files (sy_machine S') p = None" "\<exists>s. text_of s = p \<and> asked env m0 (ls @ [l]) s"
    using asked_mono by blast+
qed

lemma reach_losses_asked:
  assumes "sys.reach env m0 (ls, S)"
  shows "losses_asked env m0 ls S"
proof (rule sys_invariant [OF _ _ assms, of "losses_asked env m0"])
  fix S assume "sys_begin env m0 S"
  then show "losses_asked env m0 [] S"
    using sys_begin_world(1) [of env m0 S] by (auto simp: sys_begin_def losses_asked_def)
qed (rule losses_asked_step)

section \<open>Where results come from\<close>

text \<open>The fields the library stores of a document, and what the libraries promise.\<close>

definition stored :: "index_doc \<Rightarrow> stored_doc" where
  "stored d = \<lparr>sd_path = Some (id_path d), sd_name = Some (id_name d), sd_ext = Some (id_ext d), sd_size = Some (id_size d),
     sd_modified_ts = Some (id_modified_ts d), sd_summary = id_summary d\<rparr>"

definition library_sound :: "machine_env \<Rightarrow> bool" where
  "library_sound env \<longleftrightarrow> (\<forall>docs q ranked score d. oi_ranking (me_library env docs) q = Inr ranked \<and> (score, Inr d) \<in> set ranked
     \<longrightarrow> d \<in> stored ` set docs)"

definition walk_sound :: "machine_env \<Rightarrow> bool" where
  "walk_sound env \<longleftrightarrow> (\<forall>files r links e p. WalkEntry e \<in> set (walk (me_scan env files) r links) \<and> en_is_file e
     \<and> en_path e = Some p \<longrightarrow> files p \<noteq> None)"

text \<open>A document of a file that was on the disk and has at most 500 MB.\<close>

definition doc_ok :: "disk \<Rightarrow> index_doc \<Rightarrow> bool" where
  "doc_ok files0 d \<longleftrightarrow> files0 (id_path d) \<noteq> None \<and> uint (id_size d) \<le> 524288000"

definition file_ok :: "disk \<Rightarrow> RustFile \<Rightarrow> bool" where
  "file_ok files0 f \<longleftrightarrow> files0 (rf_path f) \<noteq> None \<and> uint (rf_size f) \<le> 524288000"

fun item_ok :: "disk \<Rightarrow> walk_item \<Rightarrow> bool" where
  "item_ok files0 WalkError \<longleftrightarrow> True"
| "item_ok files0 (WalkEntry e) \<longleftrightarrow> (\<forall>p. en_is_file e \<and> en_path e = Some p \<longrightarrow> files0 p \<noteq> None)"

definition pipe_ok :: "disk \<Rightarrow> pipe \<Rightarrow> bool" where
  "pipe_ok files0 s \<longleftrightarrow> list_all (item_ok files0) (pp_items s) \<and> list_all (file_ok files0) (map fst (pp_jobs s))
     \<and> list_all (doc_ok files0) (pp_working s) \<and> list_all (doc_ok files0) (pp_docs s)"

definition indexes_ok :: "disk \<Rightarrow> machine \<Rightarrow> bool" where
  "indexes_ok files0 m \<longleftrightarrow> (\<forall>dir docs. mc_indexes m dir = Some docs \<longrightarrow> list_all (doc_ok files0) docs)"

definition origin_ok :: "disk \<Rightarrow> machine \<Rightarrow> bool" where
  "origin_ok files0 m \<longleftrightarrow> (\<forall>p. mc_files m p \<noteq> None \<longrightarrow> files0 p \<noteq> None) \<and> indexes_ok files0 m
     \<and> list_all (\<lambda>r. pipe_ok files0 (rn_pipe r)) (mc_runs m)"

lemma visit_ok:
  assumes "item_ok files0 item" "pipeline_visit env ps item = Some f"
  shows "file_ok files0 f"
proof -
  obtain e where e: "item = WalkEntry e" using assms(2) by (cases item) (auto simp: pipeline_visit_def)
  with assms(2) have f: "en_is_file e" "en_path e = Some (rf_path f)" "\<not> too_large (Some (500 * 1024 * 1024)) (rf_size f)"
    by (auto simp: pipeline_visit_def split: if_splits option.splits)
  have "\<not> (524288000 :: 64 word) < rf_size f" using f(3) by (simp add: too_large_def)
  then have "uint (rf_size f) \<le> 524288000" by (simp add: word_less_def)
  with assms(1) f e show ?thesis by (simp add: file_ok_def)
qed

lemma job_doc_ok: "file_ok files0 f \<Longrightarrow> doc_ok files0 (job_doc st opts f)"
  by (simp add: job_doc_def add_content_def plain_doc_def file_ok_def doc_ok_def Let_def split: option.split)

lemma pipe_ok_step: "pipe_step env ps st opts s t \<Longrightarrow> pipe_ok files0 s \<Longrightarrow> pipe_ok files0 t"
proof (induction rule: pipe_step.induct)
  case (visits s)
  then obtain item items where "pp_items s = item # items" by (cases "pp_items s") auto
  with visits visit_ok [of files0 item "pe_scan env" ps] show ?case
    by (auto simp: pipe_ok_def pipe_defs split: option.split)
next
  case (writes s xs f ys)
  then have "doc_ok files0 (job_doc st opts f)" by (intro job_doc_ok) (simp add: pipe_ok_def)
  with writes show ?case by (auto simp: pipe_ok_def pipe_defs delete_term_def list_all_iff)
qed (auto simp: pipe_ok_def pipe_defs)

lemma origin_start:
  assumes "walk_sound env" "launch_run env caller rs ps opts m = (r, m')" "origin_ok files0 m"
  shows "origin_ok files0 m'"
proof -
  note f = launch_run_fields [OF assms(2)]
  have idx: "indexes_ok files0 m'"
    using assms(3) by (auto simp: origin_ok_def indexes_ok_def f(4) prepared_index_def split: if_splits)
  have "pipe_ok files0 p" if "pipeline_start (pipe_env_at env m (ix_index_dir opts)) rs (at_dir (ix_index_dir opts) m) = Inr p" for p
  proof -
    have "item_ok files0 item" if "item \<in> set (pipeline_items (me_scan env (mc_files m)) rs)" for item
    proof (cases item)
      case (WalkEntry e)
      with that obtain r where "WalkEntry e \<in> set (walk (me_scan env (mc_files m)) r False)" by (auto simp: pipeline_items_def)
      with assms(1,3) show ?thesis unfolding WalkEntry walk_sound_def origin_ok_def item_ok.simps by blast
    qed simp
    moreover have "list_all (doc_ok files0) (index_docs (at_dir (ix_index_dir opts) m))"
      using assms(3) by (auto simp: origin_ok_def indexes_ok_def index_docs_def split: option.split)
    ultimately show ?thesis
      using start_fields [OF that] by (simp add: pipe_ok_def pipe_env_at_def list_all_iff)
  qed
  with f(5) idx assms(3) show ?thesis by (auto simp: origin_ok_def f(1))
qed

lemma origin_delete:
  assumes "delete_file_and_index (index_env_at env m dir) path (at_dir dir m) = (r, st)" "origin_ok files0 m"
  shows "origin_ok files0 (put_dir dir st m)"
proof -
  have "indexes_ok files0 (put_dir dir st m)"
    using delete_effect(2) [OF assms(1)] assms(2)
    by (auto simp: origin_ok_def indexes_ok_def delete_term_def list_all_iff split: if_splits)
  moreover have "mc_files (put_dir dir st m) p \<noteq> None \<Longrightarrow> files0 p \<noteq> None" for p
    using delete_effect(1) [OF assms(1)] assms(2) by (auto simp: origin_ok_def split: if_splits)
  ultimately show ?thesis using assms(2) by (simp add: origin_ok_def)
qed

lemma origin_keeps: "mach_step env m t m' \<Longrightarrow> walk_sound env \<Longrightarrow> origin_ok files0 m \<Longrightarrow> origin_ok files0 m'"
proof (induction rule: mach_step.induct)
  case (command t c caller m r m' evs)
  from command(1,2) show ?case
  proof (cases rule: command_effect)
    case same
    with command(4) show ?thesis by (simp add: origin_ok_def indexes_ok_def)
  next
    case (deleted s d)
    with command(4) show ?thesis by (auto intro: origin_delete surjective_pairing)
  next
    case (pipeline rs ps opts)
    with command(3,4) show ?thesis by (auto intro: origin_start surjective_pairing)
  qed
next
  case (moves m xs r ys p)
  then have "pipe_ok files0 p" using pipe_ok_step [OF moves(2), of files0] by (simp add: origin_ok_def)
  with moves show ?case by (auto simp: origin_ok_def indexes_ok_def run_moved_def pipe_ok_def)
next
  case (started m rs ps opts sps)
  then have "origin_ok files0 (m\<lparr>mc_spawned := sps\<rparr>)" by (simp add: origin_ok_def indexes_ok_def)
  with started(1) show ?case by (rule origin_start [OF _ surjective_pairing])
next
  case (outside m cs sps d)
  then show ?case by (simp add: origin_ok_def indexes_ok_def)
qed

lemma origin_invariant: "walk_sound env \<Longrightarrow> machine_invariant env (origin_ok files0)"
  by unfold_locales (rule origin_keeps)

text \<open>A result that names such a file.\<close>

definition result_known :: "disk \<Rightarrow> SearchResult \<Rightarrow> bool" where
  "result_known files0 r \<longleftrightarrow> (\<exists>p. sr_path r = utf16 p \<and> files0 p \<noteq> None)
     \<and> (\<forall>n. sr_size r = Some n \<longrightarrow> (\<exists>k. n = ts_int k \<and> 0 \<le> k \<and> k \<le> 524288000))"

lemma query_loop_members:
  "query_loop ix fl docs acc = Inr rs \<Longrightarrow> r \<in> set rs
     \<Longrightarrow> r \<in> set acc \<or> (\<exists>score d. (score, Inr d) \<in> set docs \<and> r = result_of ix score d)"
proof (induction docs arbitrary: acc)
  case (Cons sd docs)
  obtain score d where sd: "sd = (score, Inr d)"
    using Cons.prems(1) by (cases sd) (auto split: sum.splits)
  from Cons.IH [of "if skipped fl (result_of ix score d) then acc else acc @ [result_of ix score d]"] Cons.prems
  show ?case by (auto simp: sd Let_def split: if_splits)
qed simp

lemma search_known:
  assumes "library_sound env" "indexes_ok files0 m" "search_query (open_index env m) req = Inr rs" "r \<in> set rs"
  shows "result_known files0 (ts_result r)"
proof -
  from assms(3) obtain docs ranked where d: "mc_indexes m (qr_index_dir req) = Some docs"
    "oi_ranking (me_library env docs) (qr_query req) = Inr ranked"
    "query_loop (me_library env docs) (qr_filters req) (take 50 ranked) [] = Inr rs"
    by (auto simp: search_query_def open_index_def split: option.splits sum.splits if_splits)
  from query_loop_members [OF d(3) assms(4)] obtain score sd where
    sd: "(score, Inr sd) \<in> set ranked" "r = result_of (me_library env docs) score sd" by (auto dest: in_set_takeD)
  with assms(1) d(2) obtain doc where "doc \<in> set docs" "sd = stored doc" unfolding library_sound_def by blast
  with assms(2) d(1) have doc: "doc_ok files0 doc" by (auto simp: indexes_ok_def list_all_iff)
  show ?thesis unfolding result_known_def
  proof (intro conjI allI impI)
    show "\<exists>p. sr_path (ts_result r) = utf16 p \<and> files0 p \<noteq> None"
      using doc \<open>sd = stored doc\<close> by (auto simp: sd(2) ts_result_def result_of_def stored_def or_empty_def doc_ok_def)
    fix n assume "sr_size (ts_result r) = Some n"
    with \<open>sd = stored doc\<close> have "n = ts_int (uint (id_size doc))"
      by (auto simp: sd(2) ts_result_def result_of_def stored_def split: if_splits)
    with doc show "\<exists>k. n = ts_int k \<and> 0 \<le> k \<and> k \<le> 524288000" unfolding doc_ok_def
      by (intro exI [of _ "uint (id_size doc)"]) (simp del: uint_ge_0)
  qed
qed

lemma user_results: "user_action True act w = Some w' \<Longrightarrow> results (app w') = results (app w)"
  by (cases act) (auto simp: app_simps split: PageKey.splits if_splits option.splits)

lemma resume_results:
  "resume t v w = Some w' \<Longrightarrow> results (app w') = results (app w)
     \<or> (\<exists>q rs. t = TSearch q \<and> v = RResults (Inr rs) \<and> results (app w') = rs)"
  by (cases t; cases v) (auto simp: app_simps split: sum.splits selection.splits)

lemma quiet_results:
  "results (app (deliver ev w)) = results (app w)" "results (app (search_timer_fires c w)) = results (app w)"
  by (auto simp: app_simps split: backend_event.splits option.splits)

lemma rejection_results: "rejection t e \<noteq> RResults (Inr rs)"
  by (cases t) auto

definition results_ok :: "disk \<Rightarrow> system \<Rightarrow> bool" where
  "results_ok files0 S \<longleftrightarrow> list_all (result_known files0) (results (app (sy_world S)))
     \<and> (\<forall>q rs. (TSearch q, RResults (Inr rs)) \<in> set (sy_served S) \<longrightarrow> list_all (result_known files0) rs)"

lemma served_known:
  assumes "library_sound env" "wire_task t" "task_call (me_runtime env) t = Some call" "indexes_ok files0 m"
    and "arrives env caller t call m = (Some (RResults (Inr rs)), m', evs)" "t = TSearch q"
  shows "list_all (result_known files0) rs"
proof -
  have "exec_command env caller (CSearch (rust_query q)) m = (Some (RResults (Inr rs)), m', evs)"
    using arrives_cases [OF assms(2,3), of caller m] assms(5,6) by auto
  then obtain rs' where "search_query (open_index env m) (rust_query q) = Inr rs'" "rs = map ts_result rs'"
    by (cases "search_query (open_index env m) (rust_query q)") (auto simp: reply_def split: rust_error.splits)
  with search_known [OF assms(1,4)] show ?thesis by (auto simp: list_all_iff)
qed

lemma results_ok_step:
  assumes "library_sound env" "sys.reach env m0 (ls, S)" "indexes_ok files0 (sy_machine S)" "results_ok files0 S"
    and "sys_step env S l S'"
  shows "results_ok files0 S'"
  using assms(5)
proof cases
  case (user act w1)
  with assms(4) user_results [of act "sy_world S" w1] show ?thesis by (simp add: results_ok_def with_world_def)
next
  case (executes t call)
  have t: "t \<in> set (tasks (sy_world S))"
    using executes(3) by (auto simp: waiting_def intro: gr_implies_not0 dest: le_less_trans [rotated])
  obtain r m evs where a: "arrives env (Some t) t call (sy_machine S) = (r, m, evs)" by (metis prod_cases3)
  have "list_all (result_known files0) rs" if "r = Some (RResults (Inr rs))" "t = TSearch q" for rs q
    using served_known [OF assms(1) task_wire [OF assms(2) t] executes(4) assms(3)] a that by blast
  with a assms(4) executes(2) show ?thesis
    by (auto simp: results_ok_def executed_def Let_def split: option.splits)
next
  case (other t r)
  with assms(4) show ?thesis by (auto simp: results_ok_def)
next
  case (answers xs t r ys us vs w1)
  with assms(4) resume_results [OF answers(5)] show ?thesis
    by (fastforce simp: results_ok_def with_world_def)
next
  case (gives_up t call us vs w1)
  with assms(4) resume_results [OF gives_up(6)] rejection_results [of t] show ?thesis
    by (auto simp: results_ok_def with_world_def)
next
  case (gives_up_silent xs t ys call us vs w1)
  with assms(4) resume_results [OF gives_up_silent(6)] rejection_results [of t] show ?thesis
    by (auto simp: results_ok_def with_world_def)
next
  case (orphan xs t ys call)
  with assms(4) show ?thesis by (auto simp: results_ok_def orphan_executed_def split: prod.splits)
next
  case (runs xs r ys p)
  with assms(4) show ?thesis by (auto simp: results_ok_def run_advances_def Let_def split: option.splits)
next
  case (turns cpus)
  with assms(4) show ?thesis by (auto simp: results_ok_def daily_turn_def Let_def split: prod.splits option.splits)
qed (use assms(4) quiet_results in \<open>simp_all add: results_ok_def with_world_def spawned_begins_def\<close>)

lemma reach_no_runs: "sys.reach env m0 h \<Longrightarrow> mc_runs m0 = []"
  by (induction rule: sys.reach.induct) (simp_all add: hist_begin_def sys_begin_def)

lemma reach_results_ok:
  assumes "library_sound env" "walk_sound env" "indexes_ok (mc_files m0) m0" "sys.reach env m0 (ls, S)"
  shows "results_ok (mc_files m0) S"
proof (rule sys_invariant [OF _ _ assms(4), of "\<lambda>ls S. results_ok (mc_files m0) S"])
  fix S assume "sys_begin env m0 S"
  then show "results_ok (mc_files m0) S"
    using sys_begin_world(2) [of env m0 S] by (simp add: sys_begin_def results_ok_def)
next
  fix ls S l S' assume h: "sys.reach env m0 (ls, S)" "results_ok (mc_files m0) S" "sys_step env S l S'"
  have "origin_ok (mc_files m0) m0" using assms(3) reach_no_runs [OF h(1)] by (simp add: origin_ok_def)
  from machine_invariant.always [OF origin_invariant [OF assms(2)] h(1) this]
  have "indexes_ok (mc_files m0) (sy_machine S)" by (simp add: origin_ok_def)
  from results_ok_step [OF assms(1) h(1) this h(2,3)] show "results_ok (mc_files m0) S'" .
qed

section \<open>Answers and the handlers that wait for them\<close>

text \<open>A step of the App component adds tasks and takes away at most the one that is resumed.\<close>

lemma user_tasks: "user_action True act w = Some w' \<Longrightarrow> mset (tasks w) \<subseteq># mset (tasks w')"
  by (cases act) (auto simp: app_simps split: PageKey.splits if_splits option.splits)

lemma resume_tasks: "resume t v w = Some w' \<Longrightarrow> mset (tasks w) \<subseteq># mset (tasks w')"
  by (cases t; cases v) (auto simp: app_simps split: sum.splits selection.splits)

lemma quiet_tasks:
  "mset (tasks w) \<subseteq># mset (tasks (deliver ev w))" "mset (tasks w) \<subseteq># mset (tasks (search_timer_fires c w))"
  by (auto simp: app_simps split: backend_event.splits if_splits option.splits)

definition answered :: "system \<Rightarrow> task multiset" where
  "answered S = mset (map fst (sy_served S)) + mset (sy_silent S)"

text \<open>Every answer, and every command that gives none, belongs to a handler of its own that is still suspended.\<close>

definition accounted :: "system \<Rightarrow> bool" where
  "accounted S \<longleftrightarrow> answered S \<subseteq># mset (tasks (sy_world S))"

lemma accounted_waiting: "accounted S \<Longrightarrow> waiting t S \<Longrightarrow> add_mset t (answered S) \<subseteq># mset (tasks (sy_world S))"
  by (auto simp: accounted_def waiting_def answered_def insert_subset_eq_iff subseteq_mset_def Suc_le_eq)

lemma resumed_accounted:
  assumes "accounted S" "add_mset t A \<subseteq># mset (tasks (sy_world S))" "tasks (sy_world S) = us @ t # vs"
    and "resume t v ((sy_world S)\<lparr>tasks := us @ vs\<rparr>) = Some w1"
  shows "A \<subseteq># mset (tasks w1)"
proof -
  have "A \<subseteq># mset (us @ vs)" using assms(2) unfolding assms(3) by simp
  also have "\<dots> \<subseteq># mset (tasks w1)" using resume_tasks [OF assms(4)] by simp
  finally show ?thesis .
qed

lemma accounted_step:
  assumes "sys_step env S l S'" "accounted S"
  shows "accounted S'"
  using assms(1)
proof cases
  case (user act w1)
  then show ?thesis using assms(2) user_tasks [of act "sy_world S" w1]
    by (auto simp: accounted_def answered_def with_world_def)
next
  case (executes t call)
  then show ?thesis using accounted_waiting [OF assms(2) executes(3)]
    by (auto simp: executed_def accounted_def answered_def Let_def split: prod.splits option.splits)
next
  case (other t r)
  then show ?thesis using accounted_waiting [OF assms(2) other(3)] by (simp add: accounted_def answered_def)
next
  case (answers xs t r ys us vs w1)
  have "add_mset t (mset (map fst (xs @ ys)) + mset (sy_silent S)) \<subseteq># mset (tasks (sy_world S))"
    using assms(2) answers(3) by (simp add: accounted_def answered_def)
  from resumed_accounted [OF assms(2) this answers(4,5)] show ?thesis
    using answers(2) by (simp add: accounted_def answered_def with_world_def)
next
  case (gives_up t call us vs w1)
  from resumed_accounted [OF assms(2) accounted_waiting [OF assms(2) gives_up(3)] gives_up(5,6)] show ?thesis
    using gives_up(2) by (simp add: accounted_def answered_def with_world_def)
next
  case (gives_up_silent xs t ys call us vs w1)
  have "add_mset t (mset (map fst (sy_served S)) + mset (xs @ ys)) \<subseteq># mset (tasks (sy_world S))"
    using assms(2) gives_up_silent(3) by (simp add: accounted_def answered_def)
  from resumed_accounted [OF assms(2) this gives_up_silent(5,6)] show ?thesis
    using gives_up_silent(2) by (simp add: accounted_def answered_def with_world_def)
next
  case (resends_silent xs t ys call)
  then show ?thesis using assms(2) by (auto simp: accounted_def answered_def dest: mset_subset_eq_insertD)
next
  case (resends_rejected xs t e ys call)
  then show ?thesis using assms(2) by (auto simp: accounted_def answered_def dest: mset_subset_eq_insertD)
next
  case (runs xs r ys p)
  then show ?thesis using assms(2)
    by (auto simp: accounted_def answered_def run_advances_def run_answers_def Let_def split: option.splits if_splits)
next
  case (turns cpus)
  then show ?thesis using assms(2) by (auto simp: accounted_def answered_def daily_turn_def Let_def split: prod.splits option.splits)
next
  case (orphan xs t ys call)
  then show ?thesis using assms(2) by (auto simp: accounted_def answered_def orphan_executed_def split: prod.splits)
qed (use assms(2) quiet_tasks in \<open>auto simp: accounted_def answered_def with_world_def spawned_begins_def
       intro: subset_mset.order_trans\<close>)

lemma reach_accounted:
  assumes "sys.reach env m0 (ls, S)"
  shows "accounted S"
proof (rule sys_invariant [OF _ _ assms, of "\<lambda>ls. accounted"])
  fix S assume "sys_begin env m0 S"
  then show "accounted S" by (simp add: sys_begin_def accounted_def answered_def)
qed (rule accounted_step)

lemma reach_waiting_task: "sys.reach env m0 (ls, S) \<Longrightarrow> waiting t S \<Longrightarrow> t \<in> set (tasks (sy_world S))"
  using accounted_waiting [OF reach_accounted [of env m0 ls S], of t] by (auto dest: mset_subset_eq_insertD)

text \<open>An answer of the type that a handler awaits.\<close>

definition fits :: "task \<Rightarrow> response \<Rightarrow> bool" where
  "fits t r \<longleftrightarrow> (\<forall>w. \<exists>w'. resume t r w = Some w')"

lemma rejection_fits: "fits t (rejection t e)"
  by (cases t) (simp_all add: fits_def)

lemma resume_fits: "resume t r w = Some w' \<Longrightarrow> fits t r"
  by (cases t) (auto simp: fits_def)

lemma command_fits: "task_command t = Some c \<Longrightarrow> exec_command env caller c m = (Some v, m', evs) \<Longrightarrow> fits t v"
  by (cases t) (auto simp: fits_def reply_def split: prod.splits sum.splits rust_error.splits)

lemma arrives_fits:
  assumes "wire_task t" "task_call (me_runtime env) t = Some call" "arrives env caller t call m = (Some v, m', evs)"
  shows "fits t v"
  using arrives_cases [OF assms(1,2), of caller m] assms(3) command_fits [of t _ env caller m] rejection_fits [of t]
  by fastforce

text \<open>Only a pipeline command has a handler that waits for a run.\<close>

definition runs_called :: "machine \<Rightarrow> bool" where
  "runs_called m \<longleftrightarrow> (\<forall>r\<in>set (mc_runs m). \<forall>t. rn_task r = Some t \<longrightarrow> fits t (RUnit (Inr ())))"

lemma command_called:
  assumes "task_command t = Some c" "exec_command env caller c m = (r, m', evs)" "\<forall>u. caller = Some u \<longrightarrow> u = t" "runs_called m"
  shows "runs_called m'"
proof (cases "mc_runs m' = mc_runs m")
  case True
  with assms(4) show ?thesis by (simp add: runs_called_def)
next
  case False
  from assms(1,2) False obtain rs ps opts where m': "m' = snd (launch_run env caller rs ps opts m)"
    by (cases rule: command_effect) auto
  from assms(1,2) False have "\<exists>rs es io. t = TPipeline rs es io"
    by (cases t) (auto split: prod.splits sum.splits)
  then have "fits t (RUnit (Inr ()))" by (auto simp: fits_def)
  with launch_run_fields(5) [OF surjective_pairing, of env caller rs ps opts m] False assms(3,4) m' show ?thesis
    by (auto simp: runs_called_def)
qed

definition typed :: "system \<Rightarrow> bool" where
  "typed S \<longleftrightarrow> runs_called (sy_machine S) \<and> (\<forall>(t, r)\<in>set (sy_served S). fits t r)"

lemma arrives_called:
  assumes "wire_task t" "task_call (me_runtime env) t = Some call" "arrives env caller t call m = (r, m', evs)"
    and "\<forall>u. caller = Some u \<longrightarrow> u = t" "runs_called m"
  shows "runs_called m'"
  using arrives_cases [OF assms(1,2), of caller m] assms(3-5) command_called [of t _ env caller m r m' evs] by fastforce

lemma typed_step:
  assumes "sys.reach env m0 (ls, S)" "sys_step env S l S'" "typed S"
  shows "typed S'"
  using assms(2)
proof cases
  case (executes t call)
  have w: "wire_task t" by (rule task_wire [OF assms(1) reach_waiting_task [OF assms(1) executes(3)]])
  obtain r m evs where a: "arrives env (Some t) t call (sy_machine S) = (r, m, evs)" by (metis prod_cases3)
  have "runs_called m" using arrives_called [OF w executes(4) a] assms(3) by (simp add: typed_def)
  with a assms(3) executes(2) arrives_fits [OF w executes(4)] show ?thesis
    by (auto simp: typed_def executed_def Let_def split: option.splits)
next
  case (orphan xs t ys call)
  then have w: "wire_task t" using orphan_wire [OF assms(1)] by (auto simp: list_all_iff)
  obtain r m evs where a: "arrives env None t call (sy_machine S) = (r, m, evs)" by (metis prod_cases3)
  have "runs_called m" using arrives_called [OF w orphan(4) a] assms(3) by (simp add: typed_def)
  with a assms(3) orphan(2) show ?thesis by (auto simp: typed_def orphan_executed_def)
next
  case (runs xs r ys p)
  with assms(3) show ?thesis
    by (auto simp: typed_def runs_called_def run_advances_def run_answers_def run_moved_def Let_def
        split: option.splits if_splits)
next
  case (begins xs sp ys)
  with assms(3) launch_run_fields(5) [OF surjective_pairing, of env None "sp_roots sp" "sp_patterns sp" "sp_opts sp"
      "(sy_machine S)\<lparr>mc_spawned := xs @ ys\<rparr>"]
  show ?thesis by (auto simp: typed_def runs_called_def spawned_begins_def)
next
  case (turns cpus)
  with assms(3) show ?thesis
    by (auto simp: typed_def runs_called_def daily_turn_def Let_def split: prod.splits option.splits)
qed (use assms(3) in \<open>auto simp: typed_def runs_called_def with_world_def intro: resume_fits\<close>)

lemma reach_typed:
  assumes "sys.reach env m0 (ls, S)"
  shows "typed S"
proof (rule sys_invariant [OF _ _ assms, of "\<lambda>ls. typed"])
  fix S assume "sys_begin env m0 S"
  then show "typed S" by (simp add: sys_begin_def typed_def runs_called_def)
qed (rule typed_step)

lemma served_continues:
  assumes "sys.reach env m0 (ls, S)" "(t, r) \<in> set (sy_served S)"
  shows "\<exists>S'. sys_step env S (SAnswer t) S' \<and> mset (sy_served S') = mset (sy_served S) - {#(t, r)#}"
proof -
  obtain xs ys where s: "sy_served S = xs @ (t, r) # ys" using split_list [OF assms(2)] by blast
  with reach_accounted [OF assms(1)] have "t \<in> set (tasks (sy_world S))"
    by (auto simp: accounted_def answered_def dest: mset_subset_eq_insertD)
  then obtain us vs where w: "tasks (sy_world S) = us @ t # vs" using split_list by metis
  have "fits t r" using reach_typed [OF assms(1)] assms(2) by (auto simp: typed_def)
  then obtain w1 where "resume t r ((sy_world S)\<lparr>tasks := us @ vs\<rparr>) = Some w1" unfolding fits_def by blast
  from answers [OF s w this] s show ?thesis by (intro exI conjI) (auto simp: with_world_def)
qed

lemma task_continues:
  assumes "sys.reach env m0 (ls, S)" "t \<in> set (tasks (sy_world S))" "task_call (me_runtime env) t \<noteq> None"
  shows "\<exists>S'. sys_step env S (SAnswer t) S' \<or> sys_step env S (STimeout t) S'"
proof -
  obtain call where c: "task_call (me_runtime env) t = Some call" using assms(3) by blast
  obtain us vs where w: "tasks (sy_world S) = us @ t # vs" using split_list [OF assms(2)] by blast
  obtain w1 where r: "resume t (rejection t (InvokeTimeout (js (inv_cmd call)) (inv_timeoutMs call)))
      ((sy_world S)\<lparr>tasks := us @ vs\<rparr>) = Some w1" using rejection_fits unfolding fits_def by blast
  consider "waiting t S" | "t \<in> set (sy_silent S)" | "t \<in> set (map fst (sy_served S))"
  proof (cases "waiting t S")
    case False
    then have "count (mset (tasks (sy_world S))) t \<le> count (answered S) t" by (simp add: waiting_def answered_def)
    moreover have "0 < count (mset (tasks (sy_world S))) t" using assms(2) by (simp only: count_greater_zero_iff set_mset_mset)
    ultimately have "t \<in># answered S" by (metis count_greater_zero_iff less_le_trans)
    then show ?thesis using that by (auto simp: answered_def)
  qed
  then show ?thesis
  proof cases
    case 1
    from gives_up [OF this c w r] show ?thesis by blast
  next
    case 2
    then obtain xs ys where "sy_silent S = xs @ t # ys" using split_list by metis
    from gives_up_silent [OF this c w r] show ?thesis by blast
  next
    case 3
    then obtain a where "(t, a) \<in> set (sy_served S)" by auto
    from served_continues [OF assms(1) this] show ?thesis by blast
  qed
qed

end
