(* ===== verification/Settling.thy ===== *)
theory Settling
  imports SystemProps
begin

text \<open>
  The program left to itself: the steps that need neither the user nor a new turn of the daily loop.
  Every such step lowers a lexicographic weight, and as long as something is under way one
  of them is possible, so that the program comes to rest in whatever order they are taken.
\<close>

locale settling_system =
  fixes good :: "'s \<Rightarrow> bool" and step :: "'s \<Rightarrow> 's \<Rightarrow> bool" and rest :: "'s \<Rightarrow> bool"
    and weights :: "('s \<Rightarrow> nat) list"
  assumes kept: "good s \<Longrightarrow> step s t \<Longrightarrow> good t"
    and lowers: "good s \<Longrightarrow> step s t \<Longrightarrow> (t, s) \<in> measures weights"
    and not_stuck: "good s \<Longrightarrow> \<not> rest s \<Longrightarrow> \<exists>t. step s t"
begin

lemma kept_run: "rtranclp step s t \<Longrightarrow> good s \<Longrightarrow> good t"
  by (induction rule: rtranclp_induct) (auto intro: kept)

lemma no_infinite_run:
  assumes "good (f 0)"
  shows "\<exists>i. \<not> step (f i) (f (Suc i))"
proof (rule ccontr)
  assume "\<nexists>i. \<not> step (f i) (f (Suc i))"
  then have run: "step (f i) (f (Suc i))" for i by blast
  have "good (f i)" for i
  proof (induction i)
    case (Suc i)
    then show ?case using run kept by blast
  qed (rule assms)
  then have "\<forall>i. (f (Suc i), f i) \<in> measures weights" using run lowers by blast
  then show False using wf_iff_no_infinite_down_chain [of "measures weights"] wf_measures by blast
qed

lemma ends_at_rest: "good s \<Longrightarrow> rtranclp step s t \<Longrightarrow> (\<And>u. \<not> step t u) \<Longrightarrow> rest t"
  using kept_run not_stuck by blast

lemma can_rest: "good s \<Longrightarrow> \<exists>t. rtranclp step s t \<and> rest t"
proof (induction s rule: wf_induct_rule [OF wf_measures [of weights]])
  case (1 s)
  show ?case
  proof (cases "rest s")
    case False
    then obtain u where "step s u" using not_stuck 1(2) by blast
    with 1 lowers kept have "\<exists>t. rtranclp step u t \<and> rest t" by blast
    with \<open>step s u\<close> show ?thesis by (meson converse_rtranclp_into_rtranclp)
  qed auto
qed

end

section \<open>Steps of their own accord\<close>

fun internal :: "sys_label \<Rightarrow> bool" where
  "internal (SUser _) = False"
| "internal (SResend _) = False"
| "internal SDaily = False"
| "internal SMidnight = False"
| "internal _ = True"

definition internal_step :: "machine_env \<Rightarrow> system \<Rightarrow> system \<Rightarrow> bool" where
  "internal_step env S S' \<longleftrightarrow> (\<exists>l. internal l \<and> sys_step env S l S')"

text \<open>Nothing is pending, in transit or running, and no timer is set.\<close>

definition at_rest :: "system \<Rightarrow> bool" where
  "at_rest S \<longleftrightarrow> tasks (sy_world S) = [] \<and> timer (sy_world S) = None \<and> sy_served S = [] \<and> sy_silent S = []
     \<and> sy_orphans S = [] \<and> sy_events S = [] \<and> mc_spawned (sy_machine S) = []
     \<and> (\<forall>r\<in>set (mc_runs (sy_machine S)). \<not> holds_writer r)"

section \<open>Weights\<close>

text \<open>How many answers a suspended handler still waits for.\<close>

fun stages :: "task \<Rightarrow> nat" where
  "stages (TScanListen _) = 2"
| "stages (TDetectListen _) = 3"
| "stages (TDetectScan _) = 2"
| "stages _ = 1"

definition pending_stages :: "world \<Rightarrow> nat" where
  "pending_stages w = sum_list (map stages (tasks w))"

lemma stages_pos: "0 < stages t"
  by (cases t) auto

lemma resume_stages:
  "resume t v w = Some w' \<Longrightarrow> pending_stages w' < pending_stages w + stages t"
  by (cases t; cases v)
    (auto simp: pending_stages_def app_simps split: sum.splits selection.splits)

definition page_weight :: "system \<Rightarrow> nat" where
  "page_weight S = (if page (app (sy_world S)) = PSearch then 0 else 1)"

definition task_weight :: "system \<Rightarrow> nat" where
  "task_weight S = pending_stages (sy_world S) + (if timer (sy_world S) = None then 0 else 2)"

definition command_weight :: "system \<Rightarrow> nat" where
  "command_weight S = length (tasks (sy_world S)) - (length (sy_served S) + length (sy_silent S)) + length (sy_orphans S)"

definition run_weight :: "run \<Rightarrow> nat" where
  "run_weight r = pipe_weight (rn_pipe r)"

definition sys_weights :: "(system \<Rightarrow> nat) list" where
  "sys_weights = [page_weight, task_weight, command_weight, \<lambda>S. length (mc_spawned (sy_machine S)),
     \<lambda>S. sum_list (map run_weight (mc_runs (sy_machine S))), \<lambda>S. length (sy_events S)]"

text \<open>An answer changes the page to the search page or not at all, and no other field that the timer depends on.\<close>

lemma deps_simps:
  "search_deps (s\<lparr>busy := b\<rparr>) = search_deps s" "search_deps (s\<lparr>msg := m\<rparr>) = search_deps s"
  "search_deps (s\<lparr>results := rs\<rparr>) = search_deps s" "search_deps (s\<lparr>selected := r\<rparr>) = search_deps s"
  "search_deps (s\<lparr>scanned := fs\<rparr>) = search_deps s" "search_deps (s\<lparr>scanCount := n\<rparr>) = search_deps s"
  "search_deps (s\<lparr>scanDir := t\<rparr>) = search_deps s" "search_deps (s\<lparr>lastScanTotal := n\<rparr>) = search_deps s"
  "search_deps (s\<lparr>idxRunning := b\<rparr>) = search_deps s" "search_deps (s\<lparr>idxCurrent := n\<rparr>) = search_deps s"
  "search_deps (s\<lparr>idxTotal := n\<rparr>) = search_deps s" "search_deps (s\<lparr>diag := d\<rparr>) = search_deps s"
  "search_deps (s\<lparr>dupGroups := gs\<rparr>) = search_deps s" "search_deps (s\<lparr>roots := t\<rparr>) = search_deps s"
  "search_deps (s\<lparr>indexDir := t\<rparr>) = search_deps s"
  "page s = p \<Longrightarrow> search_deps (s\<lparr>page := p\<rparr>) = search_deps s"
  by (simp_all add: search_deps_def)

lemma resume_deps:
  "resume t v w = Some w' \<Longrightarrow> timer w' = timer w \<and>
     (search_deps (app w') = search_deps (app w) \<or> page (app w) \<noteq> PSearch \<and> page (app w') = PSearch)"
  by (cases t; cases v) (auto simp: app_simps deps_simps split: sum.splits selection.splits)

lemma quiet_deps:
  "tasks (deliver ev w) = tasks w" "timer (deliver ev w) = timer w" "search_deps (app (deliver ev w)) = search_deps (app w)"
  "search_deps (app (search_timer_fires c w)) = search_deps (app w)" "timer (search_timer_fires c w) = None"
  "pending_stages (search_timer_fires c w) \<le> Suc (pending_stages w)"
  by (auto simp: app_simps deps_simps pending_stages_def split: backend_event.splits if_splits option.splits)

section \<open>Every step lowers the weights\<close>

lemma resumed_weights:
  assumes "tasks (sy_world S) = us @ t # vs" "resume t v ((sy_world S)\<lparr>tasks := us @ vs\<rparr>) = Some w1"
    and "sy_world S' = debounce True (app (sy_world S)) w1"
  shows "(S', S) \<in> measures sys_weights"
proof -
  from resume_stages [OF assms(2)] have st: "pending_stages w1 < pending_stages (sy_world S)"
    by (simp add: pending_stages_def assms(1))
  have d: "timer w1 = timer (sy_world S)"
    "search_deps (app w1) = search_deps (app (sy_world S)) \<or> page (app (sy_world S)) \<noteq> PSearch \<and> page (app w1) = PSearch"
    using resume_deps [OF assms(2)] by auto
  from d(2) show ?thesis
  proof
    assume same: "search_deps (app w1) = search_deps (app (sy_world S))"
    then have "sy_world S' = w1" "page (app w1) = page (app (sy_world S))"
      using assms(3) by (auto simp: debounce_def search_deps_def)
    with st d(1) show ?thesis by (simp add: sys_weights_def page_weight_def task_weight_def)
  next
    assume "page (app (sy_world S)) \<noteq> PSearch \<and> page (app w1) = PSearch"
    then show ?thesis using assms(3) by (simp add: sys_weights_def page_weight_def)
  qed
qed

lemma answered_size: "size (answered S) = length (sy_served S) + length (sy_silent S)"
  by (simp add: answered_def)

lemma waiting_room:
  assumes "accounted S" "waiting t S"
  shows "length (sy_served S) + length (sy_silent S) < length (tasks (sy_world S))"
  using size_mset_mono [OF accounted_waiting [OF assms]] by (simp add: answered_size)

lemma command_lowers:
  "sy_world S' = sy_world S \<Longrightarrow> command_weight S' < command_weight S \<Longrightarrow> (S', S) \<in> measures sys_weights"
  by (simp add: sys_weights_def page_weight_def task_weight_def)

lemma answered_lowers:
  assumes "accounted S" "waiting t S" "sy_world S' = sy_world S" "sy_orphans S' = sy_orphans S"
    and "size (answered S') = Suc (size (answered S))"
  shows "(S', S) \<in> measures sys_weights"
proof (rule command_lowers [OF assms(3)])
  have "length (sy_served S') + length (sy_silent S') = Suc (length (sy_served S) + length (sy_silent S))"
    using assms(5) by (simp add: answered_size)
  with waiting_room [OF assms(1,2)] show "command_weight S' < command_weight S"
    unfolding command_weight_def assms(3,4) by linarith
qed

lemma executed_weights:
  assumes "accounted S" "waiting t S"
  shows "(executed env t call S, S) \<in> measures sys_weights"
  using assms by (rule answered_lowers) (simp_all add: executed_def answered_def Let_def split: prod.split option.split)

lemma run_weights:
  assumes "mc_runs (sy_machine S) = xs @ r # ys" "pipe_step penv ps st opts (rn_pipe r) p"
  shows "(run_advances env xs r ys p S, S) \<in> measures sys_weights"
proof -
  let ?S = "run_advances env xs r ys p S"
  have "size (answered ?S) = size (answered S)"
  proof (cases "run_answers r p S")
    case (Some t)
    then have "t \<in># mset (sy_silent S)" by (auto simp: run_answers_def split: option.splits if_splits)
    then show ?thesis using Some by (simp add: run_advances_def answered_def Let_def size_Diff_singleton Suc_pred)
  qed (simp add: run_advances_def answered_def Let_def)
  then have "length (sy_served ?S) + length (sy_silent ?S) = length (sy_served S) + length (sy_silent S)"
    by (simp only: answered_size)
  moreover have "sy_world ?S = sy_world S" "sy_orphans ?S = sy_orphans S" "mc_spawned (sy_machine ?S) = mc_spawned (sy_machine S)"
    "mc_runs (sy_machine ?S) = xs @ r\<lparr>rn_pipe := p\<rparr> # ys"
    by (simp_all add: run_advances_def run_moved_def Let_def split: option.split)
  moreover have "run_weight (r\<lparr>rn_pipe := p\<rparr>) < run_weight r" using pipe_step_lowers [OF assms(2)] by (simp add: run_weight_def)
  ultimately show ?thesis using assms(1)
    by (simp add: sys_weights_def page_weight_def task_weight_def command_weight_def)
qed

lemma launch_keeps_spawned: "mc_spawned (snd (launch_run env c rs ps opts m)) = mc_spawned m"
  using launch_run_fields(3) [OF surjective_pairing] .

lemma internal_lowers:
  assumes "sys.reach env m0 (ls, S)" "internal_step env S S'"
  shows "(S', S) \<in> measures sys_weights"
proof -
  have acc: "accounted S" by (rule reach_accounted [OF assms(1)])
  obtain l where l: "internal l" "sys_step env S l S'" using assms(2) by (auto simp: internal_step_def)
  from l(2) show ?thesis
  proof cases
    case (fires c)
    have "search_deps (app (search_timer_fires c (sy_world S))) = search_deps (app (sy_world S))" by (rule quiet_deps)
    then have "sy_world S' = search_timer_fires c (sy_world S)" "page (app (sy_world S')) = page (app (sy_world S))"
      using fires(2) by (auto simp: with_world_def debounce_def search_deps_def)
    with fires quiet_deps(5,6) [of c "sy_world S"] show ?thesis
      by (simp add: sys_weights_def page_weight_def task_weight_def)
  next
    case (executes t call)
    then show ?thesis using executed_weights [OF acc] by simp
  next
    case (other t r w)
    then show ?thesis by (intro answered_lowers [OF acc other(3)]) (simp_all add: answered_def)
  next
    case (answers xs t r ys us vs w1)
    then show ?thesis by (intro resumed_weights [OF answers(4,5)]) (simp add: with_world_def)
  next
    case (gives_up t call us vs w1)
    then show ?thesis by (intro resumed_weights [OF gives_up(5,6)]) (simp add: with_world_def)
  next
    case (gives_up_silent xs t ys call us vs w1)
    then show ?thesis by (intro resumed_weights [OF gives_up_silent(5,6)]) (simp add: with_world_def)
  next
    case (orphan xs t ys call)
    then show ?thesis by (intro command_lowers) (simp_all add: orphan_executed_def command_weight_def split: prod.split)
  next
    case (runs xs r ys p)
    then show ?thesis using run_weights by simp
  next
    case (delivers ev evs)
    then have "sy_world S' = deliver ev (sy_world S)"
      by (simp add: with_world_def debounce_def quiet_deps(3))
    moreover have "page (app (deliver ev (sy_world S))) = page (app (sy_world S))"
      using quiet_deps(3) [of ev "sy_world S"] by (simp add: search_deps_def)
    ultimately show ?thesis using delivers quiet_deps(1,2) [of ev "sy_world S"]
      by (simp add: sys_weights_def page_weight_def task_weight_def command_weight_def pending_stages_def with_world_def)
  next
    case (begins xs sp ys)
    then show ?thesis
      by (simp add: spawned_begins_def launch_keeps_spawned sys_weights_def page_weight_def task_weight_def command_weight_def)
  qed (use l(1) in simp_all)
qed

section \<open>Something is always possible\<close>

text \<open>What was sent without an answer so far is a command.\<close>

definition called :: "machine_env \<Rightarrow> system \<Rightarrow> bool" where
  "called env S \<longleftrightarrow> (\<forall>t\<in>set (sy_silent S) \<union> set (sy_orphans S). task_call (me_runtime env) t \<noteq> None)"

lemma called_step:
  assumes "sys_step env S l S'" "called env S"
  shows "called env S'"
  using assms(1)
proof cases
  case (executes t call)
  then show ?thesis using assms(2) by (auto simp: called_def executed_def Let_def split: prod.splits option.splits)
next
  case (orphan xs t ys call)
  then show ?thesis using assms(2) by (auto simp: called_def orphan_executed_def split: prod.splits)
next
  case (runs xs r ys p)
  have "set (sy_silent S') \<subseteq> set (sy_silent S)" "sy_orphans S' = sy_orphans S"
    unfolding runs(2) by (simp_all add: run_advances_def Let_def set_remove1_subset split: option.split)
  then show ?thesis using assms(2) by (simp add: called_def ball_Un subset_iff)
next
  case (turns cpus)
  then show ?thesis using assms(2) by (auto simp: called_def daily_turn_def Let_def split: prod.splits option.splits)
qed (use assms(2) in \<open>auto simp: called_def with_world_def spawned_begins_def\<close>)

lemma reach_called:
  assumes "sys.reach env m0 (ls, S)"
  shows "called env S"
proof (rule sys_invariant [OF _ _ assms, of "\<lambda>ls. called env"])
  fix S assume "sys_begin env m0 S"
  then show "called env S" by (simp add: sys_begin_def called_def)
qed (rule called_step)

lemma pending_moves:
  assumes "sys.reach env m0 (ls, S)" "t \<in> set (tasks (sy_world S))"
  shows "\<exists>S'. internal_step env S S'"
proof (cases "task_call (me_runtime env) t")
  case None
  show ?thesis
  proof (cases "waiting t S")
    case True
    obtain w where "resume t (rejection t Undefined) (sy_world S) = Some w" using rejection_fits unfolding fits_def by blast
    from other [OF True None this] show ?thesis unfolding internal_step_def by (meson internal.simps)
  next
    case False
    then have "count (mset (tasks (sy_world S))) t \<le> count (answered S) t" by (simp add: waiting_def answered_def)
    moreover have "0 < count (mset (tasks (sy_world S))) t" using assms(2) by (simp only: count_greater_zero_iff set_mset_mset)
    ultimately have "t \<in># answered S" by (metis count_greater_zero_iff less_le_trans)
    moreover have "t \<notin> set (sy_silent S)" using reach_called [OF assms(1)] None unfolding called_def by blast
    ultimately obtain r where "(t, r) \<in> set (sy_served S)" by (auto simp: answered_def)
    from served_continues [OF assms(1) this] show ?thesis unfolding internal_step_def by (meson internal.simps)
  qed
next
  case (Some call)
  with task_continues [OF assms] show ?thesis unfolding internal_step_def by (metis internal.simps option.distinct(1))
qed

lemma unfinished_moves:
  assumes "r \<in> set (mc_runs (sy_machine S))" "holds_writer r"
  shows "\<exists>S'. internal_step env S S'"
proof -
  obtain xs ys where rs: "mc_runs (sy_machine S) = xs @ r # ys" using split_list [OF assms(1)] by blast
  have "\<not> pipe_finished (rn_pipe r)" using assms(2) by (simp add: holds_writer_finished)
  then obtain p where "pipe_step (pipe_env_at env (sy_machine S) (rn_dir r)) (rn_patterns r) (at_dir (rn_dir r) (sy_machine S))
      (rn_opts r) (rn_pipe r) p" using stuck_finished by blast
  from runs [OF rs this] show ?thesis unfolding internal_step_def by (meson internal.simps)
qed

lemma internal_not_stuck:
  assumes "sys.reach env m0 (ls, S)" "\<not> at_rest S"
  shows "\<exists>S'. internal_step env S S'"
proof (rule ccontr)
  assume no: "\<nexists>S'. internal_step env S S'"
  then have stuck: "\<not> sys_step env S l S'" if "internal l" for l S' using that by (auto simp: internal_step_def)
  have t: "tasks (sy_world S) = []" using pending_moves [OF assms(1)] no by (cases "tasks (sy_world S)") auto
  moreover have "sy_served S = []" "sy_silent S = []"
    using reach_accounted [OF assms(1)] t by (auto simp: accounted_def answered_def)
  moreover have "timer (sy_world S) = None" using stuck [of STimer] fires [of S _ env] by (cases "timer (sy_world S)") simp_all
  moreover have "sy_events S = []" using stuck [of SEvent] delivers [of S _ _ env] by (cases "sy_events S") simp_all
  moreover have "mc_spawned (sy_machine S) = []" using stuck [of SBegins] begins [of S "[]" _ _ env]
    by (cases "mc_spawned (sy_machine S)") simp_all
  moreover have "sy_orphans S = []"
  proof (cases "sy_orphans S")
    case (Cons t ts)
    then obtain call where "task_call (me_runtime env) t = Some call"
      using reach_called [OF assms(1)] by (auto simp: called_def)
    from orphan [of S "[]", OF _ this] Cons stuck [of "SOrphan t"] show ?thesis by simp
  qed
  moreover have "\<forall>r\<in>set (mc_runs (sy_machine S)). \<not> holds_writer r" using unfinished_moves no by blast
  ultimately show False using assms(2) by (simp add: at_rest_def)
qed

lemma internal_reach: "sys.reach env m0 (ls, S) \<Longrightarrow> internal_step env S S' \<Longrightarrow> \<exists>ls'. sys.reach env m0 (ls', S')"
  using sys.reach_step [of env m0 "(ls, S)"] by (fastforce simp: internal_step_def hist_step_def)

interpretation own: settling_system "\<lambda>S. \<exists>ls. sys.reach env m0 (ls, S)" "internal_step env" at_rest sys_weights for env m0
  by unfold_locales (blast intro: internal_reach internal_lowers internal_not_stuck)+

lemma rest_not_busy:
  assumes "sys.reach env m0 (ls, S)" "at_rest S"
  shows "\<not> busy (app (sy_world S))"
  using busy.holds [OF sys_reach_app [OF assms(1)]] assms(2) by (simp add: busy_ok_def at_rest_def)

lemma rest_not_locked: "at_rest S \<Longrightarrow> \<not> locked (sy_machine S) d"
  by (auto simp: at_rest_def locked_def list_ex_iff)

end
