(* ===== verification/SystemTheorems.thy ===== *)
theory SystemTheorems
  imports Settling
begin

text \<open>
  The theorems about the whole program, with runs of a small machine on which they say something.
\<close>

section \<open>Running the program\<close>

text \<open>The steps of a script: what the user does, which command is executed, which answer arrives.\<close>

fun sys_do :: "machine_env \<Rightarrow> sys_label \<Rightarrow> system \<Rightarrow> system option" where
  "sys_do env (SUser act) S = map_option (\<lambda>w. with_world w S) (user_action True act (sy_world S))"
| "sys_do env (SExec t) S = (if waiting t S then map_option (\<lambda>call. executed env t call S) (task_call (me_runtime env) t) else None)"
| "sys_do env (SOther t r) S = (if waiting t S \<and> task_call (me_runtime env) t = None \<and> resume t r (sy_world S) \<noteq> None
     then Some (S\<lparr>sy_served := sy_served S @ [(t, r)]\<rparr>) else None)"
| "sys_do env (SAnswer t) S =
     (case map_of (sy_served S) t of None \<Rightarrow> None
      | Some r \<Rightarrow> if t \<in> set (tasks (sy_world S))
          then map_option (\<lambda>w. with_world w (S\<lparr>sy_served := remove1 (t, r) (sy_served S)\<rparr>))
            (resume t r ((sy_world S)\<lparr>tasks := remove1 t (tasks (sy_world S))\<rparr>)) else None)"
| "sys_do env _ S = None"

fun sys_script :: "machine_env \<Rightarrow> sys_label list \<Rightarrow> system \<Rightarrow> system option" where
  "sys_script env [] S = Some S"
| "sys_script env (l # ls) S = Option.bind (sys_do env l S) (sys_script env ls)"

lemma sys_do_step: "sys_do env l S = Some S' \<Longrightarrow> sys_step env S l S'"
proof (cases l)
  case (SAnswer t)
  assume "sys_do env l S = Some S'"
  with SAnswer obtain r w where r: "(t, r) \<in> set (sy_served S)" "t \<in> set (tasks (sy_world S))"
    "resume t r ((sy_world S)\<lparr>tasks := remove1 t (tasks (sy_world S))\<rparr>) = Some w"
    "S' = with_world w (S\<lparr>sy_served := remove1 (t, r) (sy_served S)\<rparr>)"
    by (auto split: option.splits if_splits dest: map_of_SomeD)
  from split_list_first [OF r(1)] obtain xs ys where "sy_served S = xs @ (t, r) # ys" "(t, r) \<notin> set xs" by blast
  moreover from split_list_first [OF r(2)] obtain us vs where "tasks (sy_world S) = us @ t # vs" "t \<notin> set us" by blast
  ultimately show ?thesis
    using answers [of S xs t r ys us vs w env] r(3,4) unfolding SAnswer by (simp add: remove1_append)
qed (auto intro: sys_step.intros split: if_splits)

lemma sys_script_reach:
  "sys_script env ls S = Some S' \<Longrightarrow> sys.reach env m0 (ks, S) \<Longrightarrow> sys.reach env m0 (ks @ ls, S')"
proof (induction ls arbitrary: S ks)
  case (Cons l ls)
  then obtain S1 where S1: "sys_do env l S = Some S1" "sys_script env ls S1 = Some S'" by (auto split: bind_splits)
  have "sys.reach env m0 (ks @ [l], S1)"
    using sys.reach_step [OF Cons.prems(2), where t = "(ks @ [l], S1)"] sys_do_step [OF S1(1)] by (simp add: hist_step_def)
  from Cons.IH [OF S1(2) this] show ?case by simp
qed simp

text \<open>A command and its answer.\<close>

lemma script_command:
  assumes "waiting t S" "wire_task t" "list_all well_formed (task_texts t)" "task_command t = Some c"
    and "task_call (me_runtime env) t = Some call" "exec_command env (Some t) c (sy_machine S) = (Some v, m, evs)"
    and "sy_served S = []" "t \<in> set (tasks (sy_world S))"
    and "resume t v ((sy_world S)\<lparr>tasks := remove1 t (tasks (sy_world S))\<rparr>) = Some w"
  shows "sys_script env [SExec t, SAnswer t] S = Some (with_world w (S\<lparr>sy_machine := m, sy_events := sy_events S @ evs\<rparr>))"
  using assms arrives_wire [OF assms(2-5), of "Some t"] by (simp add: executed_def Let_def with_world_def)

lemma sys_script_append: "sys_script env (xs @ ys) S = Option.bind (sys_script env xs S) (sys_script env ys)"
  by (induction xs arbitrary: S) (simp_all split: bind_split)

section \<open>A small machine\<close>

text \<open>A disk with two equal files, a walk that finds the files of the disk, and a library that finds every document.\<close>

definition demo_paths :: "int list list" where
  "demo_paths = [js ''/d/a.txt'', js ''/d/b.txt'']"

definition demo_entry :: "int list \<Rightarrow> dir_entry" where
  "demo_entry p = \<lparr>en_is_file = True, en_path = Some p, en_metadata = Some \<lparr>md_len = 2, md_modified = Some 0\<rparr>,
     en_file_name = Some p, en_extension = Some (js ''txt''), en_elapsed_at = 0, en_now_at = 0\<rparr>"

definition demo_walk :: "disk \<Rightarrow> scan_env" where
  "demo_walk files = \<lparr>walk = (\<lambda>_ _. map (WalkEntry \<circ> demo_entry) (filter (\<lambda>p. files p \<noteq> None) demo_paths)),
     lower_case = id, scan_sample_var = None\<rparr>"

definition demo_reads :: "disk \<Rightarrow> dedup_env" where
  "demo_reads files = \<lparr>file_name = Some,
     file_at = (\<lambda>p. case files p of None \<Rightarrow> NoFile | Some bytes \<Rightarrow> Reads [Inr bytes]), hash_hex = map uint, iteration = id\<rparr>"

definition demo_library :: "index_doc list \<Rightarrow> opened_index" where
  "demo_library docs = \<lparr>oi_fields = [''path'', ''name'', ''ext'', ''content'', ''summary'', ''size'', ''modified_ts''],
     oi_parse = (\<lambda>_. Inr ()), oi_ranking = (\<lambda>_. Inr (map (\<lambda>d. (Fin 1, Inr (stored d))) docs))\<rparr>"

definition demo_env :: machine_env where
  "demo_env = \<lparr>me_runtime = bare_env, me_scan = demo_walk, me_dedup = demo_reads, me_index = working_env,
     me_library = demo_library, me_config = one_drive, me_diag = (\<lambda>_. healthy), me_heap_ok = (\<lambda>_. True),
     me_pool_ok = (\<lambda>_. True), me_add_ok = (\<lambda>_. True), me_commit_ok = (\<lambda>_. True), me_cpu = 4,
     me_total_mem = 8000000000, me_state_ok = True, me_os = TargetOther, me_spawn = (\<lambda>_. Inr ())\<rparr>"

definition demo_machine :: machine where
  "demo_machine = \<lparr>mc_files = (\<lambda>p. if p \<in> set demo_paths then Some [104, 105] else None), mc_indexes = (\<lambda>_. None),
     mc_config = empty_store, mc_state = NoState, mc_day = js ''2025-01-01'', mc_runs = [], mc_spawned = []\<rparr>"

definition demo_start :: "machine \<Rightarrow> system" where
  "demo_start m = \<lparr>sy_world = initial_world True bare_env, sy_machine = m, sy_served = [], sy_silent = [],
     sy_orphans = [], sy_events = []\<rparr>"

lemma demo_begin: "mc_runs m = [] \<Longrightarrow> mc_spawned m = [] \<Longrightarrow> sys_begin demo_env m (demo_start m)"
  by (simp add: sys_begin_def demo_start_def demo_env_def render_root_def first_world_def Let_def, blast)

lemma demo_reach: "mc_runs m = [] \<Longrightarrow> mc_spawned m = [] \<Longrightarrow> sys.reach demo_env m ([], demo_start m)"
  by (rule sys.reach_start) (simp add: hist_begin_def demo_begin)

lemma demo_sound: "walk_sound demo_env" "library_sound demo_env"
  by (auto simp: walk_sound_def library_sound_def demo_env_def demo_entry_def demo_walk_def demo_library_def)

text \<open>The duplicates page with the given handler suspended beside the one that loads the configuration.\<close>

definition demo_opts :: scan_opts where
  "demo_opts = \<lparr>so_roots = [js ''D:/''], so_exclude_patterns = parseCSV default_exclude,
     so_max_file_size_mb = Fin 500, so_follow_symlinks = False\<rparr>"

definition demo_groups :: "DupGroup list" where
  "demo_groups = [\<lparr>dg_kind = KHash, dg_key = [104, 105], dg_files = demo_paths\<rparr>]"

definition demo_form :: "DupGroup list \<Rightarrow> system \<Rightarrow> bool" where
  "demo_form gs S \<longleftrightarrow> sy_served S = [] \<and> indexDir (app (sy_world S)) = js ''indexes/main''
     \<and> dupGroups (app (sy_world S)) = gs \<and> dupIncludeHash (app (sy_world S))
     \<and> roots (app (sy_world S)) = js ''D:/'' \<and> exclude (app (sy_world S)) = default_exclude"

definition demo_at :: "task list \<Rightarrow> DupGroup list \<Rightarrow> system \<Rightarrow> bool" where
  "demo_at ts gs S \<longleftrightarrow> tasks (sy_world S) = TLoadConfig # ts \<and> page (app (sy_world S)) = PDup
     \<and> (busy (app (sy_world S)) \<longleftrightarrow> ts \<noteq> []) \<and> sy_machine S = demo_machine \<and> sy_silent S = [] \<and> demo_form gs S"

lemma demo_values:
  "parseCSV (js ''D:/'') = [js ''D:/'']"
  "list_all well_formed (task_texts (TDetectScan demo_opts))"
  "map_option (map (utf16 \<circ> rf_path)) (fst (scan_paths_progress (demo_walk (mc_files demo_machine))
     (rust_scan (so_roots demo_opts) (so_exclude_patterns demo_opts)))) = Some demo_paths"
  "list_all well_formed demo_paths"
  "map_sum id (map ts_group) (detect (demo_reads (mc_files demo_machine)) (map text_of demo_paths)) = Inr demo_groups"
  by code_simp+

lemmas script_simps = app_simps debounce_def with_world_def waiting_def

lemma demo_clicks:
  "\<exists>S. sys_script demo_env [SUser (Navigate PDup), SUser ClickDetect, SOther (TDetectListen demo_opts) (RUnit (Inr ())),
      SAnswer (TDetectListen demo_opts)] (demo_start demo_machine) = Some S \<and> demo_at [TDetectScan demo_opts] [] S"
  by (simp add: script_simps run_simps demo_start_def form_scan_opts_def demo_values(1) demo_opts_def default_index_dir_def
      demo_at_def demo_form_def del: js_Cons)

text \<open>A suspended command of the page is executed and answered.\<close>

lemma demo_command:
  assumes "demo_at [t] gs S" "t \<noteq> TLoadConfig" "wire_task t" "list_all well_formed (task_texts t)" "task_command t = Some c"
    and "task_call bare_env t = Some call" "exec_command demo_env (Some t) c demo_machine = (Some v, demo_machine, evs)"
    and "resume t v ((sy_world S)\<lparr>tasks := [TLoadConfig]\<rparr>) = Some w"
  shows "sys_script demo_env [SExec t, SAnswer t] S = Some (with_world w (S\<lparr>sy_machine := demo_machine, sy_events := sy_events S @ evs\<rparr>))"
  using assms by (intro script_command) (auto simp: demo_at_def demo_form_def waiting_def demo_env_def simp del: exec_command.simps)

lemma demo_scans:
  assumes "demo_at [TDetectScan demo_opts] [] S"
  shows "\<exists>S'. sys_script demo_env [SExec (TDetectScan demo_opts), SAnswer (TDetectScan demo_opts)] S = Some S'
    \<and> demo_at [TDetect demo_paths] [] S'"
proof -
  let ?t = "TDetectScan demo_opts" and ?c = "CScanPathsProgress (rust_scan (so_roots demo_opts) (so_exclude_patterns demo_opts))"
  obtain fs evs where fs: "scan_paths_progress (demo_walk (mc_files demo_machine))
      (rust_scan (so_roots demo_opts) (so_exclude_patterns demo_opts)) = (Some fs, evs)" "map (utf16 \<circ> rf_path) fs = demo_paths"
    using demo_values(3) by (cases "scan_paths_progress (demo_walk (mc_files demo_machine))
      (rust_scan (so_roots demo_opts) (so_exclude_patterns demo_opts))") auto
  have e: "exec_command demo_env (Some ?t) ?c demo_machine
      = (Some (RFiles (Inr (map ts_file fs))), demo_machine, map (wire_event \<circ> PScan) evs)"
    by (simp add: fs(1) demo_env_def)
  have paths: "map fm_path (map ts_file fs) = demo_paths" using fs(2) by (simp add: ts_file_def comp_def)
  have w: "wire_task ?t" by (simp add: demo_opts_def)
  from demo_command [OF assms _ w demo_values(2) _ _ e] assms paths show ?thesis
    by (simp add: script_simps demo_at_def demo_form_def)
qed

lemma demo_detects:
  assumes "demo_at [TDetect demo_paths] [] S"
  shows "\<exists>S'. sys_script demo_env [SExec (TDetect demo_paths), SAnswer (TDetect demo_paths)] S = Some S'
    \<and> demo_at [] demo_groups S'"
proof -
  have e: "exec_command demo_env (Some (TDetect demo_paths)) (CDetect (map text_of demo_paths)) demo_machine
      = (Some (RGroups (Inr demo_groups)), demo_machine, [])"
    using demo_values(5) by (simp add: demo_env_def)
  have "list_all well_formed (task_texts (TDetect demo_paths))" using demo_values(4) by simp
  from demo_command [OF assms _ _ this _ _ e] assms show ?thesis by (simp add: script_simps demo_at_def demo_form_def)
qed

lemma demo_deletes:
  assumes "demo_at [] demo_groups S"
  shows "\<exists>S'. sys_script demo_env [SUser (ClickDelete True (js ''/d/a.txt'')), SExec (TDelete (js ''/d/a.txt'') (js ''indexes/main''))] S
      = Some S' \<and> mc_files (sy_machine S') (js ''/d/a.txt'') = None"
proof -
  let ?a = "js ''/d/a.txt''" and ?d = "js ''indexes/main''"
  let ?t = "TDelete ?a ?d"
  have v: "text_of ?a = ?a" "text_of ?d = ?d" "?a \<in> set demo_paths" by code_simp+
  obtain S1 where S1: "sys_do demo_env (SUser (ClickDelete True ?a)) S = Some S1" "tasks (sy_world S1) = [TLoadConfig, ?t]"
    "sy_served S1 = []" "sy_silent S1 = []" "sy_machine S1 = demo_machine"
    using assms v(3) by (auto simp: demo_at_def demo_form_def script_simps listed_def filteredGroups_def demo_groups_def simp del: js_Cons)
  obtain call where call: "task_call bare_env ?t = Some call" by simp
  have t: "wire_task ?t" "list_all well_formed (task_texts ?t)" "task_command ?t = Some (CDelete ?a ?d)"
    by (simp_all add: v(1,2) del: js_Cons)
  have "mc_files demo_machine ?a \<noteq> None" "mc_indexes demo_machine ?d = None" "can_remove working_env ?a"
    using v(3) by (simp_all add: demo_machine_def working_env_def)
  then have "mc_files (fst (snd (exec_command demo_env (Some ?t) (CDelete ?a ?d) demo_machine))) ?a = None"
    by (simp add: delete_file_and_index_def demo_env_def index_env_at_def Let_def del: js_Cons)
  moreover have "waiting ?t S1" using S1 by (simp add: waiting_def del: js_Cons)
  ultimately show ?thesis
    using S1 call arrives_wire [OF t, of demo_env call "Some ?t"]
    by (auto simp: executed_def Let_def demo_env_def simp del: js_Cons exec_command.simps task_call.simps sys_do.simps(1)
        split: prod.splits option.splits)
qed

text \<open>An indexing run is started on the same directory and a deletion is asked for while it goes on.\<close>

definition demo_pipeline :: "bool \<Rightarrow> task" where
  "demo_pipeline parse = TPipeline [js ''D:/''] (parseCSV default_exclude)
     \<lparr>io_indexDir = js ''indexes/main'', io_enable_content_parse = parse\<rparr>"

lemma demo_texts: "list_all well_formed (task_texts (demo_pipeline b))"
  by (simp add: demo_pipeline_def) code_simp

lemma demo_navigates:
  assumes "demo_form gs S"
  shows "\<exists>S'. sys_do demo_env (SUser (Navigate pg)) S = Some S' \<and> demo_form gs S' \<and> page (app (sy_world S')) = pg
    \<and> (busy (app (sy_world S')) \<longleftrightarrow> busy (app (sy_world S))) \<and> sy_machine S' = sy_machine S \<and> sy_silent S' = sy_silent S
    \<and> enableContentParse (app (sy_world S')) = enableContentParse (app (sy_world S))
    \<and> (tasks (sy_world S') = tasks (sy_world S) \<or> tasks (sy_world S') = tasks (sy_world S) @ [TDiagnostics])"
  using assms by (auto simp: app_simps demo_form_def with_world_def)

lemma demo_starts:
  assumes "demo_form gs S" "page (app (sy_world S)) = PageKey.PIndex" "\<not> busy (app (sy_world S))"
  shows "\<exists>S'. sys_do demo_env (SUser ClickScanAndIndex) S = Some S' \<and> demo_form gs S'
    \<and> tasks (sy_world S') = tasks (sy_world S) @ [demo_pipeline (enableContentParse (app (sy_world S)))]
    \<and> sy_machine S' = sy_machine S \<and> sy_silent S' = sy_silent S"
  using assms demo_values(1)
  by (simp add: app_simps demo_form_def with_world_def form_index_opts_def demo_pipeline_def del: js_Cons)

lemma demo_begins:
  assumes "demo_form gs S" "waiting (demo_pipeline b) S" "sy_machine S = demo_machine"
  shows "\<exists>S' r. sys_do demo_env (SExec (demo_pipeline b)) S = Some S' \<and> demo_form gs S' \<and> sy_world S' = sy_world S
    \<and> mc_runs (sy_machine S') = [r] \<and> rn_dir r = js ''indexes/main'' \<and> holds_writer r
    \<and> sy_silent S' = sy_silent S @ [demo_pipeline b] \<and> mc_files (sy_machine S') = mc_files demo_machine"
proof -
  let ?d = "js ''indexes/main''" and ?t = "demo_pipeline b"
  have d: "text_of ?d = ?d" by code_simp
  let ?o = "\<lparr>ix_index_dir = ?d, ix_enable_content_parse = b\<rparr>"
  obtain rs es where c: "task_command ?t = Some (CPipeline (rust_scan rs es) ?o)"
    by (simp add: demo_pipeline_def rust_index_def d del: js_Cons)
  have "\<exists>p. pipeline_start (pipe_env_at demo_env demo_machine ?d) (sc_roots (rust_scan rs es)) (at_dir ?d demo_machine) = Inr p
      \<and> pp_main p = Walking"
    by (simp add: pipeline_start_def pipe_env_at_def demo_env_def index_env_at_def working_env_def locked_def demo_machine_def
        del: js_Cons)
  then obtain r m where "launch_run demo_env (Some ?t) (sc_roots (rust_scan rs es)) (sc_exclude_patterns (rust_scan rs es)) ?o
      demo_machine = (Inr (), m)" "mc_runs m = [r]" "rn_dir r = ?d" "holds_writer r" "mc_files m = mc_files demo_machine"
    by (auto simp: launch_run_def Let_def rn_dir_def holds_writer_def demo_machine_def simp del: js_Cons)
  moreover obtain call where "task_call (me_runtime demo_env) ?t = Some call" by (simp add: demo_pipeline_def del: js_Cons)
  moreover have "wire_task ?t" by (simp add: demo_pipeline_def del: js_Cons)
  ultimately show ?thesis
    using assms arrives_wire [OF _ demo_texts c, of demo_env call "Some ?t" demo_machine]
    by (simp add: executed_def Let_def demo_form_def del: js_Cons)
qed

lemma demo_asks:
  assumes "demo_form demo_groups S" "page (app (sy_world S)) = PDup"
  shows "\<exists>S'. sys_do demo_env (SUser (ClickDelete True (js ''/d/a.txt''))) S = Some S' \<and> demo_form demo_groups S'
    \<and> tasks (sy_world S') = tasks (sy_world S) @ [TDelete (js ''/d/a.txt'') (js ''indexes/main'')]
    \<and> sy_machine S' = sy_machine S \<and> sy_silent S' = sy_silent S"
  using assms
  by (simp add: app_simps demo_form_def with_world_def listed_def filteredGroups_def demo_groups_def demo_paths_def del: js_Cons)

lemma demo_busy:
  assumes "demo_at [] demo_groups S"
  shows "\<exists>ls S' r. sys_script demo_env ls S = Some S'
    \<and> mc_runs (sy_machine S') = [r] \<and> rn_dir r = js ''indexes/main'' \<and> holds_writer r
    \<and> waiting (TDelete (js ''/d/a.txt'') (js ''indexes/main'')) S' \<and> mc_files (sy_machine S') = mc_files demo_machine"
proof -
  have S: "demo_form demo_groups S" "tasks (sy_world S) = [TLoadConfig]" "\<not> busy (app (sy_world S))" "sy_silent S = []"
    "sy_machine S = demo_machine" using assms by (simp_all add: demo_at_def)
  let ?b = "enableContentParse (app (sy_world S))"
  obtain S1 where S1: "sys_do demo_env (SUser (Navigate PageKey.PIndex)) S = Some S1" "demo_form demo_groups S1"
    "page (app (sy_world S1)) = PageKey.PIndex" "\<not> busy (app (sy_world S1))" "sy_machine S1 = demo_machine" "sy_silent S1 = []"
    "enableContentParse (app (sy_world S1)) = ?b" "demo_pipeline ?b \<notin> set (tasks (sy_world S1))"
    using demo_navigates [OF S(1), of PageKey.PIndex] S by (auto simp: demo_pipeline_def)
  obtain S2 where S2: "sys_do demo_env (SUser ClickScanAndIndex) S1 = Some S2" "demo_form demo_groups S2"
    "sy_machine S2 = demo_machine" "sy_silent S2 = []" "waiting (demo_pipeline ?b) S2"
    using demo_starts [OF S1(2-4)] S1 by (auto simp: waiting_def demo_form_def)
  obtain S3 r where S3: "sys_do demo_env (SExec (demo_pipeline ?b)) S2 = Some S3" "demo_form demo_groups S3"
    "mc_runs (sy_machine S3) = [r]" "rn_dir r = js ''indexes/main''" "holds_writer r"
    "sy_silent S3 = [demo_pipeline ?b]" "mc_files (sy_machine S3) = mc_files demo_machine"
    using demo_begins [OF S2(2,5,3)] S2(4) by auto
  obtain S4 where S4: "sys_do demo_env (SUser (Navigate PDup)) S3 = Some S4" "demo_form demo_groups S4"
    "page (app (sy_world S4)) = PDup" "sy_machine S4 = sy_machine S3" "sy_silent S4 = sy_silent S3"
    using demo_navigates [OF S3(2), of PDup] by auto
  obtain S5 where S5: "sys_do demo_env (SUser (ClickDelete True (js ''/d/a.txt''))) S4 = Some S5" "demo_form demo_groups S5"
    "tasks (sy_world S5) = tasks (sy_world S4) @ [TDelete (js ''/d/a.txt'') (js ''indexes/main'')]"
    "sy_machine S5 = sy_machine S4" "sy_silent S5 = sy_silent S4"
    using demo_asks [OF S4(2,3)] by auto
  have "waiting (TDelete (js ''/d/a.txt'') (js ''indexes/main'')) S5"
    using S5 S4(5) S3(6) by (simp add: waiting_def demo_form_def demo_pipeline_def del: js_Cons)
  moreover have "sys_script demo_env [SUser (Navigate PageKey.PIndex), SUser ClickScanAndIndex, SExec (demo_pipeline ?b),
      SUser (Navigate PDup), SUser (ClickDelete True (js ''/d/a.txt''))] S = Some S5"
    unfolding sys_script.simps S1(1) S2(1) S3(1) S4(1) S5(1) bind.bind_lunit ..
  ultimately show ?thesis using S3 S4 S5 by (metis (lifting))
qed

text \<open>Scripts that start where an earlier one ended.\<close>

lemma demo_detected: "\<exists>ls S. sys.reach demo_env demo_machine (ls, S) \<and> demo_at [] demo_groups S"
proof -
  obtain l1 S1 where S1: "sys_script demo_env l1 (demo_start demo_machine) = Some S1" "demo_at [TDetectScan demo_opts] [] S1"
    using demo_clicks by blast
  obtain l2 S2 where S2: "sys_script demo_env l2 S1 = Some S2" "demo_at [TDetect demo_paths] [] S2"
    using demo_scans [OF S1(2)] by blast
  obtain l3 S3 where S3: "sys_script demo_env l3 S2 = Some S3" "demo_at [] demo_groups S3"
    using demo_detects [OF S2(2)] by blast
  have "sys.reach demo_env demo_machine ([], demo_start demo_machine)" by (rule demo_reach) (simp_all add: demo_machine_def)
  from sys_script_reach [OF S3(1) sys_script_reach [OF S2(1) sys_script_reach [OF S1(1) this]]] S3(2) show ?thesis by blast
qed

lemma demo_running:
  "\<exists>ls S r. sys.reach demo_env demo_machine (ls, S)
    \<and> mc_runs (sy_machine S) = [r] \<and> rn_dir r = js ''indexes/main'' \<and> holds_writer r
    \<and> waiting (TDelete (js ''/d/a.txt'') (js ''indexes/main'')) S \<and> mc_files (sy_machine S) = mc_files demo_machine"
  using demo_detected demo_busy sys_script_reach by meson

text \<open>A machine whose index has one of the files, and a search on it.\<close>

definition demo_doc :: index_doc where
  "demo_doc = plain_doc \<lparr>rf_path = js ''/d/a.txt'', rf_file_name = js ''a.txt'', rf_ext = js ''txt'', rf_size = 2, rf_modified_ts = 7\<rparr>"

definition indexed_machine :: machine where
  "indexed_machine = demo_machine\<lparr>mc_indexes := [js ''indexes/main'' \<mapsto> [demo_doc]]\<rparr>"

lemma with_world_results: "results (app (sy_world (with_world w S))) = results (app w)"
  by (simp add: with_world_def)

lemma demo_searched:
  "\<exists>ls S r. sys.reach demo_env indexed_machine (ls, S) \<and> results (app (sy_world S)) = [r] \<and> sr_path r = js ''/d/a.txt''"
proof -
  let ?q = "search_request (app (initial_world True bare_env))"
  have i: "page (app (initial_world True bare_env)) = PSearch" "tasks (initial_world True bare_env) = [TLoadConfig]"
    by code_simp+
  let ?t = "TSearch ?q" and ?S = "demo_start indexed_machine"
  obtain S1 where S1: "sys_do demo_env (SUser PressEnter) ?S = Some S1" "tasks (sy_world S1) = [TLoadConfig, ?t]"
    "sy_served S1 = []" "sy_silent S1 = []" "sy_machine S1 = indexed_machine"
    using i by (simp add: app_simps with_world_def demo_start_def)
  have t: "list_all well_formed (task_texts ?t)" by code_simp
  have q: "qr_index_dir (rust_query ?q) = js ''indexes/main''" "qr_filters (rust_query ?q) = None" by code_simp+
  have o: "open_index demo_env indexed_machine (js ''indexes/main'') = Inr (demo_library [demo_doc])"
    by (simp add: open_index_def indexed_machine_def demo_env_def del: js_Cons)
  have "\<exists>r. search_query (open_index demo_env indexed_machine) (rust_query ?q) = Inr [r] \<and> SearchBackend.rr_path r = js ''/d/a.txt''"
    unfolding search_query_def q o
    by (simp add: demo_library_def skipped_def result_of_def stored_def demo_doc_def plain_doc_def or_empty_def del: js_Cons)
  then obtain r where r: "search_query (open_index demo_env indexed_machine) (rust_query ?q) = Inr [r]"
    "SearchBackend.rr_path r = js ''/d/a.txt''" by blast
  have e: "exec_command demo_env (Some ?t) (CSearch (rust_query ?q)) indexed_machine
      = (Some (RResults (Inr [ts_result r])), indexed_machine, [])"
    using r(1) by (simp add: reply_def)
  have "Option.is_none (rq_filters ?q)" by code_simp
  then have f: "wire_task ?t" "task_command ?t = Some (CSearch (rust_query ?q))" by (auto simp: Option.is_none_def)
  obtain call where call: "task_call (me_runtime demo_env) ?t = Some call" by simp
  obtain w where w: "resume ?t (RResults (Inr [ts_result r])) ((sy_world S1)\<lparr>tasks := [TLoadConfig]\<rparr>) = Some w"
    "results (app w) = [ts_result r]" by (simp add: app_simps)
  have "sys_script demo_env [SExec ?t, SAnswer ?t] S1
      = Some (with_world w (S1\<lparr>sy_machine := indexed_machine, sy_events := sy_events S1 @ []\<rparr>))"
    using S1 e w by (intro script_command [OF _ f(1) t f(2) call]) (simp_all add: waiting_def del: resume.simps exec_command.simps)
  then have "sys_script demo_env [SUser PressEnter, SExec ?t, SAnswer ?t] ?S = Some (with_world w (S1\<lparr>sy_machine := indexed_machine\<rparr>))"
    using S1(1) by (simp add: sys_script.simps(2) [of _ "SUser PressEnter"] del: sys_do.simps sys_script.simps)
  moreover have "sys.reach demo_env indexed_machine ([], ?S)"
    by (rule demo_reach) (simp_all add: indexed_machine_def demo_machine_def)
  moreover have "sr_path (ts_result r) = js ''/d/a.txt''" unfolding ts_result_def by (simp add: r(2) del: js_Cons) code_simp
  ultimately show ?thesis using w(2) sys_script_reach by (metis (no_types, lifting) with_world_results)
qed

section \<open>Properties\<close>

text \<open>
  C1. Files are lost on request only. In every run of the whole program, whatever the order of
  commands, answers, timeouts, repeated commands, indexing runs and events, the content of a
  file never changes, and a file that is gone was shown on the duplicates page at an earlier
  moment of the run and the user confirmed its deletion there.
\<close>

theorem files_lost_only_on_request:
  assumes "sys.reach env m0 (ls, S)" "mc_files (sy_machine S) p \<noteq> mc_files m0 p"
  shows "mc_files (sy_machine S) p = None \<and> (\<exists>s before after S1. text_of s = p
     \<and> ls = before @ SUser (ClickDelete True s) # after \<and> sys.reach env m0 (before, S1) \<and> listed s (app (sy_world S1)))"
  using reach_losses_asked [OF assms(1)] assms(2) unfolding losses_asked_def asked_def by blast

theorem files_lost_only_on_request_witness:
  "\<exists>ls S. sys.reach demo_env demo_machine (ls, S) \<and> mc_files (sy_machine S) (js ''/d/a.txt'') = None
     \<and> (\<exists>s. text_of s = js ''/d/a.txt'' \<and> SUser (ClickDelete True s) \<in> set ls)"
proof -
  obtain l1 S1 where S1: "sys.reach demo_env demo_machine (l1, S1)" "demo_at [] demo_groups S1" using demo_detected by blast
  obtain l2 S where S: "sys_script demo_env l2 S1 = Some S" "mc_files (sy_machine S) (js ''/d/a.txt'') = None"
    using demo_deletes [OF S1(2)] by blast
  have r: "sys.reach demo_env demo_machine (l1 @ l2, S)" by (rule sys_script_reach [OF S(1) S1(1)])
  have "mc_files demo_machine (js ''/d/a.txt'') \<noteq> None" by (simp add: demo_machine_def demo_paths_def)
  with files_lost_only_on_request [OF r, of "js ''/d/a.txt''"] S(2) r show ?thesis by fastforce
qed

text \<open>
  C2. What is shown was on the disk. If the walk finds files of the disk only, the library
  returns documents of the index only, and the indexes of earlier sessions hold documents of
  files of the disk, then in every state of the program each search result names a file that was
  on the disk when the program started, and the size shown is the double nearest to a number of
  bytes of at most 500 MB.
\<close>

theorem results_from_disk:
  assumes "library_sound env" "walk_sound env" "indexes_ok (mc_files m0) m0" "sys.reach env m0 (ls, S)"
    and "r \<in> set (results (app (sy_world S)))"
  shows "(\<exists>p. sr_path r = utf16 p \<and> mc_files m0 p \<noteq> None)
    \<and> (\<forall>n. sr_size r = Some n \<longrightarrow> (\<exists>k. n = ts_int k \<and> 0 \<le> k \<and> k \<le> 524288000))"
  using reach_results_ok [OF assms(1-4)] assms(5) by (simp add: results_ok_def list_all_iff result_known_def)

theorem results_from_disk_witness:
  "\<exists>ls S r. sys.reach demo_env indexed_machine (ls, S) \<and> r \<in> set (results (app (sy_world S)))
     \<and> (\<exists>p. sr_path r = utf16 p \<and> mc_files indexed_machine p \<noteq> None)"
proof -
  obtain ls S r where S: "sys.reach demo_env indexed_machine (ls, S)" "r \<in> set (results (app (sy_world S)))"
    using demo_searched by fastforce
  have "indexes_ok (mc_files indexed_machine) indexed_machine"
    by (auto simp: indexes_ok_def indexed_machine_def demo_machine_def demo_doc_def plain_doc_def doc_ok_def demo_paths_def
        split: if_splits)
  from results_from_disk [OF demo_sound(2,1) this S] S show ?thesis by blast
qed

text \<open>
  C6. One writer per index. In every state of the program at most one indexing run holds the
  writer of an index directory, and the index of that directory is what this run has committed.
\<close>

theorem one_index_writer:
  assumes "sys.reach env m0 (ls, S)"
  shows "distinct (map rn_dir (filter holds_writer (mc_runs (sy_machine S))))
    \<and> (\<forall>r\<in>set (mc_runs (sy_machine S)). holds_writer r \<longrightarrow> mc_indexes (sy_machine S) (rn_dir r) = Some (pp_docs (rn_pipe r)))"
proof -
  have "one_writer_each m0" using reach_no_runs [OF assms] by (simp add: one_writer_each_def)
  from wr.always [OF assms this] show ?thesis unfolding one_writer_each_def .
qed

theorem one_index_writer_witness:
  "\<exists>ls S r. sys.reach demo_env demo_machine (ls, S) \<and> r \<in> set (mc_runs (sy_machine S)) \<and> holds_writer r
     \<and> mc_indexes (sy_machine S) (js ''indexes/main'') = Some (pp_docs (rn_pipe r))"
proof -
  obtain ls S r where S: "sys.reach demo_env demo_machine (ls, S)" "mc_runs (sy_machine S) = [r]"
    "rn_dir r = js ''indexes/main''" "holds_writer r" using demo_running by blast
  with one_index_writer [OF S(1)] show ?thesis by (metis list.set_intros(1))
qed

text \<open>
  C5. No handler is stuck. In every state of the program a handler that has sent a command can go
  on: its answer is there and has the type the handler awaits, or the timer can give up on it;
  and no answer is ever left over without a handler that takes it.
\<close>

theorem handlers_never_stuck:
  assumes "sys.reach env m0 (ls, S)"
  shows "(\<forall>t\<in>set (tasks (sy_world S)). task_call (me_runtime env) t \<noteq> None
            \<longrightarrow> (\<exists>S'. sys_step env S (SAnswer t) S' \<or> sys_step env S (STimeout t) S'))
    \<and> (\<forall>(t, r)\<in>set (sy_served S).
          \<exists>S'. sys_step env S (SAnswer t) S' \<and> mset (sy_served S') = mset (sy_served S) - {#(t, r)#})"
  using served_continues [OF assms] task_continues [OF assms] by blast

theorem handlers_never_stuck_witness:
  "\<exists>ls S S'. sys.reach demo_env demo_machine (ls, S) \<and> (let t = TDelete (js ''/d/a.txt'') (js ''indexes/main'')
     in sys_step demo_env S (SAnswer t) S' \<or> sys_step demo_env S (STimeout t) S')"
proof -
  let ?t = "TDelete (js ''/d/a.txt'') (js ''indexes/main'')"
  obtain ls S where S: "sys.reach demo_env demo_machine (ls, S)" "waiting ?t S" using demo_running by blast
  have "?t \<in> set (tasks (sy_world S))" using reach_waiting_task [OF S] .
  moreover have "task_call (me_runtime demo_env) ?t \<noteq> None" by simp
  ultimately show ?thesis using handlers_never_stuck [OF S(1)] S(1) unfolding Let_def by blast
qed



text \<open>
  C34. A deletion during an indexing run on the same directory is half done: the file is
  removed from the disk, but the index keeps its documents, the page keeps the path in its
  groups, and the answer is a failure.
\<close>

theorem delete_while_indexing:
  assumes "sys.reach env m0 (ls, S)" "waiting (TDelete s d) S" "well_formed s" "well_formed d"
    and "locked (sy_machine S) (text_of d)" "mc_files (sy_machine S) (text_of s) \<noteq> None" "can_remove (me_index env) (text_of s)"
  shows "\<exists>S1 S2 e. sys_step env S (SExec (TDelete s d)) S1 \<and> sys_step env S1 (SAnswer (TDelete s d)) S2
    \<and> mc_files (sy_machine S2) (text_of s) = None \<and> mc_indexes (sy_machine S2) = mc_indexes (sy_machine S)
    \<and> dupGroups (app (sy_world S2)) = dupGroups (app (sy_world S)) \<and> msg (app (sy_world S2)) = failure_msg FDelete e"
proof -
  let ?t = "TDelete s d" and ?m = "sy_machine S"
  have t: "?t \<in> set (tasks (sy_world S))" by (rule reach_waiting_task [OF assms(1,2)])
  then obtain us vs where w: "tasks (sy_world S) = us @ ?t # vs" using split_list by metis
  obtain call where c: "task_call (me_runtime env) ?t = Some call" by simp
  obtain docs where "mc_indexes ?m (text_of d) = Some docs"
    using wr.always [OF assms(1)] reach_no_runs [OF assms(1)] assms(5)
    by (auto simp: one_writer_each_def locked_def list_ex_iff)
  with assms(5-7) have "delete_file_and_index (index_env_at env ?m (text_of d)) (text_of s) (at_dir (text_of d) ?m)
      = (Inl tantivy_error, (at_dir (text_of d) ?m)\<lparr>bk_files := (mc_files ?m)(text_of s := None)\<rparr>)"
    by (auto simp: delete_file_and_index_def index_env_at_def Let_def)
  then obtain e m where e: "exec_command env (Some ?t) (CDelete (text_of s) (text_of d)) ?m = (Some (RUnit (Inl e)), m, [])"
    "mc_files m (text_of s) = None" "mc_indexes m = mc_indexes ?m"
    by (simp add: reply_def tantivy_error_def)
  let ?S1 = "executed env ?t call S"
  have S1: "?S1 = S\<lparr>sy_machine := m, sy_served := sy_served S @ [(?t, RUnit (Inl e))]\<rparr>"
    using arrives_wire [OF _ _ _ c, of "CDelete (text_of s) (text_of d)" "Some ?t" ?m] assms(3,4) e(1)
    by (simp add: executed_def)
  have w1: "tasks (sy_world ?S1) = us @ ?t # vs" "sy_served ?S1 = sy_served S @ (?t, RUnit (Inl e)) # []"
    using w by (simp_all add: S1)
  have "resume ?t (RUnit (Inl e)) ((sy_world ?S1)\<lparr>tasks := us @ vs\<rparr>)
      = Some (handleDelete_done s (Inl e) ((sy_world ?S1)\<lparr>tasks := us @ vs\<rparr>))" by simp
  from answers [OF w1(2,1) this, of env] executes [OF assms(2) c] e(2,3) show ?thesis
    by (intro exI conjI) (assumption, assumption, auto simp: with_world_def handleDelete_done_def put_def S1)
qed

theorem delete_while_indexing_witness:
  "\<exists>S1 S2 S3. let t = TDelete (js ''/d/a.txt'') (js ''indexes/main'')
     in (\<exists>ls. sys.reach demo_env demo_machine (ls, S1)) \<and> sys_step demo_env S1 (SExec t) S2 \<and> sys_step demo_env S2 (SAnswer t) S3
      \<and> mc_files (sy_machine S1) (js ''/d/a.txt'') \<noteq> None \<and> mc_files (sy_machine S3) (js ''/d/a.txt'') = None"
proof -
  let ?a = "js ''/d/a.txt''" and ?d = "js ''indexes/main''"
  have v: "text_of ?a = ?a" "text_of ?d = ?d" "well_formed ?a" "well_formed ?d" by code_simp+
  obtain ls S r where S: "sys.reach demo_env demo_machine (ls, S)" "mc_runs (sy_machine S) = [r]" "rn_dir r = ?d"
    "holds_writer r" "waiting (TDelete ?a ?d) S" "mc_files (sy_machine S) = mc_files demo_machine" using demo_running by blast
  then have "locked (sy_machine S) (text_of ?d)" unfolding v by (simp add: locked_def)
  moreover have f: "mc_files (sy_machine S) (text_of ?a) \<noteq> None" unfolding v S(6) by (simp add: demo_machine_def demo_paths_def)
  moreover have "can_remove (me_index demo_env) (text_of ?a)" by (simp add: demo_env_def working_env_def)
  ultimately show ?thesis
    using delete_while_indexing [OF S(1,5) v(3,4)] S(1) unfolding v Let_def by blast
qed

end
