(* ===== verification/Restart.thy ===== *)
theory Restart
  imports SystemTheorems
begin

text \<open>
  The configuration file across sessions. During a session only two commands change it, saving
  and resetting, also when they are executed after the frontend has given up on them; every
  other reader leaves a file that is there as it is. The next session loads what was saved last.
\<close>

section \<open>What changes the configuration file\<close>

lemma read_keeps_file: "cs_file st \<noteq> None \<Longrightarrow> snd (read_config env st) = st"
  by (auto simp: read_config_def split: option.splits)

definition same_rights :: "config_store \<Rightarrow> config_store \<Rightarrow> bool" where
  "same_rights st st' \<longleftrightarrow> cs_dir_ok st' = cs_dir_ok st \<and> cs_can_read st' = cs_can_read st
     \<and> cs_can_write st' = cs_can_write st \<and> cs_can_remove st' = cs_can_remove st"

lemma write_rights: "same_rights st (snd (write_config env c st))"
  by (simp add: same_rights_def write_config_def Let_def)

lemma read_rights: "same_rights st (snd (read_config env st))"
  using write_rights [of st env "default_config env"]
  by (auto simp: same_rights_def read_config_def split: option.split prod.splits sum.splits)

lemma reset_rights: "same_rights st (snd (reset_config env st))"
  using read_rights [of "st\<lparr>cs_file := None\<rparr>" env] read_rights [of st env] by (simp add: same_rights_def reset_config_def)

lemma same_rights_trans: "same_rights st st1 \<Longrightarrow> same_rights st1 st2 \<Longrightarrow> same_rights st st2"
  by (simp add: same_rights_def)

text \<open>The commands that write the file.\<close>

fun writes_config :: "command \<Rightarrow> bool" where
  "writes_config (CWriteConfig _) = True"
| "writes_config CResetConfig = True"
| "writes_config _ = False"

lemma command_config:
  assumes "exec_command env caller c m = (r, m', evs)"
  shows "same_rights (mc_config m) (mc_config m')"
    and "\<not> writes_config c \<Longrightarrow> cs_file (mc_config m) \<noteq> None \<Longrightarrow> mc_config m' = mc_config m"
proof -
  have "mc_config m' = mc_config m \<or> mc_config m' = snd (read_config (me_config env) (mc_config m))
     \<or> mc_config m' = snd (reset_config (me_config env) (mc_config m)) \<and> c = CResetConfig
     \<or> (\<exists>d. mc_config m' = snd (write_config (me_config env) d (mc_config m)) \<and> c = CWriteConfig d)"
    using assms by (cases c) (auto simp: put_dir_def dest: launch_run_fields(2) split: prod.splits sum.splits)
  then show "same_rights (mc_config m) (mc_config m')"
    and "\<not> writes_config c \<Longrightarrow> cs_file (mc_config m) \<noteq> None \<Longrightarrow> mc_config m' = mc_config m"
    using read_rights write_rights reset_rights read_keeps_file by (auto simp: same_rights_def)
qed

text \<open>What a session has saved last: nothing since the last reset, or the configuration of the last save.\<close>

definition config_effect :: "task \<Rightarrow> AppConfig option \<Rightarrow> AppConfig option" where
  "config_effect t old = (case t of TSaveConfig c \<Rightarrow> Some c | TResetConfig \<Rightarrow> None | _ \<Rightarrow> old)"

fun saved_by :: "sys_label \<Rightarrow> AppConfig option \<Rightarrow> AppConfig option" where
  "saved_by (SExec t) old = config_effect t old"
| "saved_by (SOrphan t) old = config_effect t old"
| "saved_by _ old = old"

definition last_saved :: "sys_label list \<Rightarrow> AppConfig option" where
  "last_saved ls = fold saved_by ls None"

lemma last_saved_step: "last_saved (ls @ [l]) = saved_by l (last_saved ls)"
  by (simp add: last_saved_def)

text \<open>A step executes a command, or reads the configuration at most and leaves the files alone.\<close>

lemma store_step:
  assumes "sys.reach env m0 (ls, S)" "sys_step env S l S'"
  obtains (reads) "\<And>t. l \<noteq> SExec t \<and> l \<noteq> SOrphan t" "mc_files (sy_machine S') = mc_files (sy_machine S)"
      "mc_config (sy_machine S') = mc_config (sy_machine S)
        \<or> mc_config (sy_machine S') = snd (read_config (me_config env) (mc_config (sy_machine S)))"
  | (command) t caller call r evs where "l = SExec t \<or> l = SOrphan t" "wire_task t" "task_call (me_runtime env) t = Some call"
      "arrives env caller t call (sy_machine S) = (r, sy_machine S', evs)"
  using assms(2)
proof cases
  case (executes t call)
  obtain r m evs where a: "arrives env (Some t) t call (sy_machine S) = (r, m, evs)" by (metis prod_cases3)
  then have "sy_machine S' = m" unfolding executes(2) by (simp add: executed_def Let_def split: option.split)
  with a command [OF _ _ executes(4)] executes(1) task_wire [OF assms(1) reach_waiting_task [OF assms(1) executes(3)]]
  show ?thesis by blast
next
  case (orphan xs t ys call)
  then have w: "wire_task t" using orphan_wire [OF assms(1)] by (auto simp: list_all_iff)
  obtain r m evs where a: "arrives env None t call (sy_machine S) = (r, m, evs)" by (metis prod_cases3)
  then have "sy_machine S' = m" using orphan(2) by (simp add: orphan_executed_def)
  with a w orphan(1,4) command show ?thesis by blast
next
  case (begins xs sp ys)
  note f = launch_run_fields [OF surjective_pairing, of env None "sp_roots sp" "sp_patterns sp" "sp_opts sp"
      "(sy_machine S)\<lparr>mc_spawned := xs @ ys\<rparr>"]
  have "mc_files (sy_machine S') = mc_files (sy_machine S)" "mc_config (sy_machine S') = mc_config (sy_machine S)"
    unfolding begins(2) using f(1,2) by (simp_all add: spawned_begins_def)
  with begins(1) reads show ?thesis by simp
next
  case (turns cpus)
  then have "mc_files (sy_machine S') = mc_files (sy_machine S)"
    "mc_config (sy_machine S') = snd (read_config (me_config env) (mc_config (sy_machine S)))"
    by (simp_all add: daily_turn_def Let_def split: prod.split option.split)
  with turns(1) reads show ?thesis by simp
next
  case (runs xs r ys p)
  have "mc_files (sy_machine S') = mc_files (sy_machine S)" "mc_config (sy_machine S') = mc_config (sy_machine S)"
    unfolding runs(2) by (simp_all add: run_advances_def run_moved_def Let_def split: option.split)
  with runs(1) reads show ?thesis by simp
qed (use reads in \<open>simp_all add: with_world_def\<close>)

lemma saved_by_other: "(\<And>t. l \<noteq> SExec t \<and> l \<noteq> SOrphan t) \<Longrightarrow> saved_by l old = old"
  by (cases l) auto

text \<open>A save that the backend accepts.\<close>

definition accepted :: "AppConfig \<Rightarrow> int \<Rightarrow> bool" where
  "accepted c n \<longleftrightarrow> whole_len c = Some n \<and> list_all well_formed (task_texts (TSaveConfig c))"

definition keeps_saved :: "machine_env \<Rightarrow> config_store \<Rightarrow> sys_label list \<Rightarrow> config_store \<Rightarrow> bool" where
  "keeps_saved env st0 ls st \<longleftrightarrow> same_rights st0 st \<and> (\<forall>c n. last_saved ls = Some c \<and> accepted c n
     \<longrightarrow> (\<exists>st1. same_rights st0 st1 \<and> write_config (me_config env) (rust_config c n) st1 = (Inr (), st)))"

lemma write_leaves_file: "write_config env c st = (Inr (), st') \<Longrightarrow> cs_file st' \<noteq> None"
  by (auto simp: write_config_def Let_def split: if_splits)

lemma keeps_saved_same: "keeps_saved env st0 ls st \<Longrightarrow> saved_by l (last_saved ls) = last_saved ls \<Longrightarrow> keeps_saved env st0 (ls @ [l]) st"
  by (simp add: keeps_saved_def last_saved_step)

lemma keeps_saved_kept:
  assumes "keeps_saved env st0 ls st" "saved_by l (last_saved ls) = last_saved ls" "same_rights st st'"
    and "cs_file st \<noteq> None \<Longrightarrow> st' = st"
  shows "keeps_saved env st0 (ls @ [l]) st'"
proof (cases "cs_file st = None")
  case True
  then have "\<nexists>c n. last_saved ls = Some c \<and> accepted c n" using assms(1) write_leaves_file unfolding keeps_saved_def by blast
  with assms(1-3) show ?thesis using same_rights_trans by (auto simp: keeps_saved_def last_saved_step)
qed (use assms keeps_saved_same in auto)

lemma arrives_rights:
  assumes "wire_task t" "task_call (me_runtime env) t = Some call" "arrives env caller t call m = (r, m', evs)"
    and "keeps_saved env st0 ls (mc_config m)"
  shows "same_rights st0 (mc_config m) \<and> same_rights st0 (mc_config m')"
proof -
  have r: "same_rights st0 (mc_config m)" using assms(4) by (simp add: keeps_saved_def)
  with arrives_cases [OF assms(1,2), of caller m] assms(3) command_config(1) same_rights_trans [OF r] show ?thesis by fastforce
qed

lemma arrives_config:
  assumes "wire_task t" "task_call (me_runtime env) t = Some call" "arrives env caller t call m = (r, m', evs)"
    and "cs_dir_ok st0" "cs_can_write st0" "keeps_saved env st0 ls (mc_config m)" "l = SExec t \<or> l = SOrphan t"
  shows "keeps_saved env st0 (ls @ [l]) (mc_config m')"
proof (cases "\<exists>c. t = TSaveConfig c")
  case True
  then obtain c where t: "t = TSaveConfig c" by blast
  note r = arrives_rights [OF assms(1-3,6)]
  have "write_config (me_config env) (rust_config c n) (mc_config m) = (Inr (), mc_config m')" if "accepted c n" for n
  proof -
    have "arrives env caller t call m = exec_command env caller (CWriteConfig (rust_config c n)) m"
      using that by (intro arrives_wire [OF assms(1) _ _ assms(2)]) (simp_all add: accepted_def t del: whole_len.simps task_texts.simps)
    then show ?thesis using assms(3-5) r by (auto simp: write_config_def same_rights_def Let_def)
  qed
  with r assms(7) t show ?thesis by (auto simp: keeps_saved_def last_saved_step config_effect_def)
next
  case False
  show ?thesis
  proof (cases "t = TResetConfig")
    case True
    then show ?thesis using arrives_rights [OF assms(1-3,6)] assms(7) by (auto simp: keeps_saved_def last_saved_step config_effect_def)
  next
    case no_reset: False
    have s: "saved_by l (last_saved ls) = last_saved ls"
      using False no_reset assms(7) by (auto simp: config_effect_def split: task.split)
    from arrives_cases [OF assms(1,2), of caller m] show ?thesis
    proof (elim disjE exE conjE)
      fix c assume c: "task_command t = Some c" "arrives env caller t call m = exec_command env caller c m"
      have "\<not> writes_config c" using c(1) False no_reset by (cases t) auto
      with command_config [of env caller c m r m' evs] c(2) assms(3) show ?thesis
        by (intro keeps_saved_kept [OF assms(6) s]) simp_all
    qed (use assms(3) keeps_saved_same [OF assms(6) s] in auto)
  qed
qed

lemma reach_keeps_saved:
  assumes "cs_dir_ok (mc_config m0)" "cs_can_write (mc_config m0)" "sys.reach env m0 (ls, S)"
  shows "keeps_saved env (mc_config m0) ls (mc_config (sy_machine S))"
proof (rule sys_invariant [OF _ _ assms(3), of "\<lambda>ls S. keeps_saved env (mc_config m0) ls (mc_config (sy_machine S))"])
  fix S assume "sys_begin env m0 S"
  then show "keeps_saved env (mc_config m0) [] (mc_config (sy_machine S))"
    by (simp add: sys_begin_def keeps_saved_def last_saved_def same_rights_def)
next
  fix ls S l S'
  assume h: "sys.reach env m0 (ls, S)" "keeps_saved env (mc_config m0) ls (mc_config (sy_machine S))" "sys_step env S l S'"
  from h(1,3) show "keeps_saved env (mc_config m0) (ls @ [l]) (mc_config (sy_machine S'))"
  proof (cases rule: store_step)
    case reads
    then show ?thesis using read_rights read_keeps_file h(2)
      by (intro keeps_saved_kept [OF h(2) saved_by_other]) (auto simp: same_rights_def)
  next
    case (command t caller call r evs)
    then show ?thesis using arrives_config assms(1,2) h(2) by blast
  qed
qed

section \<open>The next session\<close>

lemma form_accepted:
  assumes "form_well_formed s" "pathMaxLen s = Fin (of_int n)" "0 \<le> n" "n < 2 ^ 32"
  shows "accepted (form_config s) n"
proof -
  have "(of_int n :: rat) < of_int (2 ^ 32)" using assms(4) by (simp only: of_int_less_iff)
  then show ?thesis
    using assms(2,3) form_config_well_formed [OF assms(1)] by (simp add: accepted_def config_well_formed_def form_config_def)
qed

text \<open>The first command of a session reads the configuration, and its answer fills the form.\<close>

lemma session_loads:
  assumes "sys_begin env m S" "fst (read_config (me_config env) (mc_config m)) = Inr c"
  shows "\<exists>S1 S2. sys_step env S (SExec TLoadConfig) S1 \<and> sys_step env S1 (SAnswer TLoadConfig) S2
    \<and> form_config (app (sy_world S2)) = form_config (apply_config (ts_config c) (app (sy_world S)))"
proof -
  let ?t = TLoadConfig
  obtain development where w: "sy_world S = first_world development True (me_runtime env)"
    and m: "sy_machine S = m" "sy_served S = []" "sy_silent S = []"
    using assms(1) by (fastforce simp: sys_begin_def render_root_def dest: sym [of _ "sy_world S"] split: if_splits)
  then obtain vs where t: "tasks (sy_world S) = ?t # vs"
    by (cases development) (simp_all add: first_world_def initial_world_def load_config_def await_on_def Let_def)
  obtain call where call: "task_call (me_runtime env) ?t = Some call" by simp
  obtain cs where cs: "read_config (me_config env) (mc_config m) = (Inr c, cs)"
    using assms(2) by (cases "read_config (me_config env) (mc_config m)") simp
  let ?S1 = "executed env ?t call S" and ?v = "RConfig (Inr (ts_config c))"
  have S1: "?S1 = S\<lparr>sy_machine := m\<lparr>mc_config := cs\<rparr>, sy_served := [(?t, ?v)]\<rparr>"
    using arrives_wire [OF _ _ _ call, of CReadConfig "Some ?t" m] cs m by (simp add: executed_def)
  have "waiting ?t S" using t m by (simp add: waiting_def)
  from executes [OF this call] have e: "sys_step env S (SExec ?t) ?S1" .
  have "resume ?t ?v ((sy_world ?S1)\<lparr>tasks := [] @ vs\<rparr>)
      = Some (load_config_done (Inr (ts_config c)) ((sy_world ?S1)\<lparr>tasks := [] @ vs\<rparr>))"
    by simp
  from answers [OF _ _ this, of "[]" "[]" env] t obtain S2 where "sys_step env ?S1 (SAnswer ?t) S2"
    "S2 = with_world (load_config_done (Inr (ts_config c)) ((sy_world ?S1)\<lparr>tasks := vs\<rparr>)) (?S1\<lparr>sy_served := []\<rparr>)"
    by (simp add: S1)
  moreover from this(2) have "form_config (app (sy_world S2)) = form_config (apply_config (ts_config c) (app (sy_world S)))"
    by (simp add: S1 with_world_def load_config_done_def put_def form_config_def)
  ultimately show ?thesis using e by blast
qed

text \<open>
  C21. Settings survive the session. Take any run of the program in which the configuration that
  was saved last, with no reset after it, is that of a form \<open>s\<close>, whatever else happens before and
  afterwards, and end the program there. When the next session has read its configuration, its form
  saves the same configuration. This needs texts without lone surrogates, at least one root, an
  index directory that the backend accepts, a path length that is an integer between 1 and
  \<open>2 ^ 32 - 1\<close>, and a configuration file that can be read and written. Without any exclude pattern the form
  comes back with the default patterns: an empty list cannot be saved.
\<close>

theorem settings_survive_restart:
  assumes "sys.reach env m0 (ls, S)" "last_saved ls = Some (form_config s)"
    and "parseCSV (roots s) \<noteq> []" "indexDir s \<noteq> []" "\<not> blank (text_of (indexDir s))"
    and "\<not> in_src_tauri (me_config env) (text_of (indexDir s))" "form_well_formed s"
    and "pathMaxLen s = Fin (of_int n)" "1 \<le> n" "n < 2 ^ 32"
    and "cs_dir_ok (mc_config m0)" "cs_can_write (mc_config m0)" "cs_can_read (mc_config m0)"
    and "sys_begin env' ((sy_machine S)\<lparr>mc_runs := [], mc_spawned := []\<rparr>) S0" "me_config env' = me_config env"
  shows "\<exists>S1 S2. sys_step env' S0 (SExec TLoadConfig) S1 \<and> sys_step env' S1 (SAnswer TLoadConfig) S2
    \<and> form_config (app (sy_world S2)) = (if parseCSV (exclude s) \<noteq> [] then form_config s
        else (form_config s)\<lparr>exclude_patterns := default_exclude_patterns\<rparr>)"
proof -
  let ?ce = "me_config env" and ?st = "mc_config (sy_machine S)" and ?c = "rust_config (form_config s) n"
  have n: "0 \<le> n" using assms(9) by simp
  obtain st1 where st1: "same_rights (mc_config m0) st1" "write_config ?ce ?c st1 = (Inr (), ?st)"
    using reach_keeps_saved [OF assms(11,12,1)] assms(2) form_accepted [OF assms(7,8) n assms(10)]
    unfolding keeps_saved_def by blast
  then have "cs_dir_ok st1" "cs_can_write st1" "cs_can_read st1" using assms(11-13) by (simp_all add: same_rights_def)
  from config_survives_backend [OF assms(3-10) this, of "app (sy_world S0)"]
    decode_form_config [OF assms(8) n assms(10,7), of ?ce] st1(2)
  obtain c' where c': "fst (read_config ?ce ?st) = Inr c'"
    "form_config (apply_config (ts_config c') (app (sy_world S0))) = (if parseCSV (exclude s) \<noteq> [] then form_config s
        else (form_config s)\<lparr>exclude_patterns := default_exclude_patterns\<rparr>)" by auto
  from session_loads [OF assms(14), of c'] c' assms(15) show ?thesis by simp
qed

text \<open>A user who switches the daily scan off and saves.\<close>

definition demo_saved :: AppState where
  "demo_saved = (initial_state bare_env)\<lparr>autoScanEnabled := False\<rparr>"

lemma demo_saved_form:
  "parseCSV (roots demo_saved) \<noteq> []" "parseCSV (exclude demo_saved) \<noteq> []" "indexDir demo_saved \<noteq> []"
  "text_of (indexDir demo_saved) = js ''indexes/main''" "form_well_formed demo_saved" "pathMaxLen demo_saved = Fin (of_int 80)"
  unfolding form_well_formed_def by code_simp+

lemma demo_saving:
  "\<exists>S. sys_script demo_env [SUser (Navigate PSettings), SUser (CheckAutoScan False), SUser ClickSave] (demo_start demo_machine)
      = Some S \<and> waiting (TSaveConfig (form_config demo_saved)) S"
  by (simp add: script_simps run_simps demo_start_def demo_saved_def form_config_def del: js_Cons)

lemma demo_saving_reach:
  "\<exists>S. sys.reach demo_env demo_machine
     ([SUser (Navigate PSettings), SUser (CheckAutoScan False), SUser ClickSave, SExec (TSaveConfig (form_config demo_saved))], S)"
proof -
  let ?t = "TSaveConfig (form_config demo_saved)"
  let ?ls = "[SUser (Navigate PSettings), SUser (CheckAutoScan False), SUser ClickSave]"
  obtain S where S: "sys_script demo_env ?ls (demo_start demo_machine) = Some S" "waiting ?t S" using demo_saving by blast
  obtain call where "task_call (me_runtime demo_env) ?t = Some call" by simp
  with S(2) obtain S' where "sys_script demo_env [SExec ?t] S = Some S'" by simp
  then have "sys_script demo_env (?ls @ [SExec ?t]) (demo_start demo_machine) = Some S'"
    unfolding sys_script_append S(1) by simp
  from sys_script_reach [OF this demo_reach] show ?thesis by (auto simp: demo_machine_def)
qed

theorem settings_survive_restart_witness:
  "\<exists>ls S S1 S2. sys.reach demo_env demo_machine (ls, S) \<and> last_saved ls = Some (form_config demo_saved)
     \<and> sys_step demo_env (demo_start ((sy_machine S)\<lparr>mc_runs := [], mc_spawned := []\<rparr>)) (SExec TLoadConfig) S1
     \<and> sys_step demo_env S1 (SAnswer TLoadConfig) S2 \<and> form_config (app (sy_world S2)) = form_config demo_saved"
proof -
  obtain ls S where r: "sys.reach demo_env demo_machine (ls, S)" and l: "last_saved ls = Some (form_config demo_saved)"
    using demo_saving_reach by (fastforce simp: last_saved_def config_effect_def)
  have "\<not> blank (text_of (indexDir demo_saved))" "\<not> in_src_tauri one_drive (text_of (indexDir demo_saved))"
    by (auto simp: demo_saved_form(4) one_drive_def in_src_tauri_def blank_def rust_ws_def is_ws_def sublist_code)
  with settings_survive_restart [OF r l demo_saved_form(1,3) _ _ demo_saved_form(5,6) _ _ _ _ _ demo_begin] demo_saved_form(2) r l
  show ?thesis by (simp add: demo_env_def demo_machine_def empty_store_def del: of_int_numeral) blast
qed

end
