(* ===== verification/Refinement.thy ===== *)
theory Refinement
  imports Restart
begin

text \<open>
  What the program promises about the data that outlives it, as an abstract specification: a store
  of files and a configuration on which only three requests act. Every run of the program, seen
  through \<open>store_view\<close>, is a run of this specification; indexing runs, searches, events, timers
  and the creation of the configuration file are invisible.
\<close>

section \<open>Runs and forward simulations\<close>

inductive trace :: "('s \<Rightarrow> 'l \<Rightarrow> 's \<Rightarrow> bool) \<Rightarrow> 's \<Rightarrow> 'l list \<Rightarrow> 's \<Rightarrow> bool" for step where
  trace_empty: "trace step s [] s"
| trace_step: "trace step s ls t \<Longrightarrow> step t l u \<Longrightarrow> trace step s (ls @ [l]) u"

locale forward_simulation =
  fixes good :: "'s \<Rightarrow> bool" and step :: "'s \<Rightarrow> 'l \<Rightarrow> 's \<Rightarrow> bool" and view :: "'s \<Rightarrow> 'a" and request :: "'l \<Rightarrow> 'r"
    and spec :: "'a \<Rightarrow> 'r \<Rightarrow> 'a \<Rightarrow> bool"
  assumes kept: "good s \<Longrightarrow> step s l t \<Longrightarrow> good t"
    and simulates: "good s \<Longrightarrow> step s l t \<Longrightarrow> spec (view s) (request l) (view t)"
begin

lemma refines: "trace step s ls t \<Longrightarrow> good s \<Longrightarrow> good t \<and> trace spec (view s) (map request ls) (view t)"
proof (induction rule: trace.induct)
  case (trace_step s ls t l u)
  then show ?case using kept simulates by (auto intro: trace.trace_step)
qed (auto intro: trace_empty)

end

lemma reach_trace: "sys.reach env m0 (ls, S) \<Longrightarrow> \<exists>S0. sys_begin env m0 S0 \<and> trace (sys_step env) S0 ls S"
proof (rule sys_invariant [of env m0 "\<lambda>ls S. \<exists>S0. sys_begin env m0 S0 \<and> trace (sys_step env) S0 ls S"])
qed (blast intro: trace.intros)+

section \<open>The specification\<close>

record store =
  sv_files :: disk
  sv_config :: "RustConfig result"

datatype request = Remove "int list" | Save AppConfig | Reset | Internal

text \<open>
  A removal removes that file or fails; a save that the backend can decode is what will be read,
  with the repairs of the backend, and any other save has no effect; a reset restores the defaults.
\<close>

inductive spec_step :: "config_env \<Rightarrow> store \<Rightarrow> request \<Rightarrow> store \<Rightarrow> bool" for cenv where
  removed: "spec_step cenv s (Remove p) (s\<lparr>sv_files := (sv_files s)(p := None)\<rparr>)"
| not_removed: "spec_step cenv s (Remove p) s"
| saved: "accepted c n \<Longrightarrow> spec_step cenv s (Save c) (s\<lparr>sv_config := Inr (repair cenv (rust_config c n))\<rparr>)"
| rejected: "\<nexists>n. accepted c n \<Longrightarrow> spec_step cenv s (Save c) s"
| restored: "spec_step cenv s Reset (s\<lparr>sv_config := Inr (default_config cenv)\<rparr>)"
| unseen: "spec_step cenv s Internal s"

inductive_cases spec_stepE: "spec_step cenv s r t"

definition store_view :: "machine_env \<Rightarrow> machine \<Rightarrow> store" where
  "store_view env m = \<lparr>sv_files = mc_files m, sv_config = fst (read_config (me_config env) (mc_config m))\<rparr>"

fun task_request :: "task \<Rightarrow> request" where
  "task_request (TDelete s d) = Remove (text_of s)"
| "task_request (TSaveConfig c) = Save c"
| "task_request TResetConfig = Reset"
| "task_request _ = Internal"

fun request_of :: "sys_label \<Rightarrow> request" where
  "request_of (SExec t) = task_request t"
| "request_of (SOrphan t) = task_request t"
| "request_of _ = Internal"

text \<open>The configuration file can be written, read and removed, and the defaults of the machine are usable.\<close>

definition store_ok :: "config_env \<Rightarrow> config_store \<Rightarrow> bool" where
  "store_ok cenv st \<longleftrightarrow> cs_dir_ok st \<and> cs_can_read st \<and> cs_can_write st \<and> cs_can_remove st
     \<and> \<not> blank (ce_index_dir cenv) \<and> \<not> in_src_tauri cenv (ce_index_dir cenv) \<and> config_texts (default_config cenv)"

section \<open>Reading, saving and resetting\<close>

lemma store_ok_rights: "store_ok cenv st \<Longrightarrow> same_rights st st' \<Longrightarrow> store_ok cenv st'"
  by (simp add: store_ok_def same_rights_def)

lemma default_config_dir: "rc_index_dir (default_config cenv) = ce_index_dir cenv"
  by (simp add: default_config_def)

lemma written_read:
  assumes "store_ok cenv st" "config_texts c"
  shows "\<exists>st'. write_config cenv c st = (Inr (), st') \<and> fst (read_config cenv st') = Inr (repair cenv c)"
proof -
  let ?c = "if in_src_tauri cenv (rc_index_dir c) then c\<lparr>rc_index_dir := ce_index_dir cenv\<rparr> else c"
  have "config_texts ?c" using assms default_config_dir [of cenv] by (auto simp: store_ok_def config_texts_def)
  moreover have "repair cenv ?c = repair cenv c" using assms(1) by (simp add: repair_def store_ok_def Let_def)
  ultimately show ?thesis
    using assms(1) by (simp add: write_config_def read_config_def store_ok_def decode_encode Let_def)
qed

lemma defaults_read:
  assumes "store_ok cenv st" "cs_file st = None"
  shows "fst (read_config cenv st) = Inr (default_config cenv)"
    "fst (read_config cenv (snd (read_config cenv st))) = Inr (default_config cenv)"
proof -
  have "repair cenv (default_config cenv) = default_config cenv"
    using assms(1) by (simp add: store_ok_def default_usable repair_id)
  with written_read [of cenv st "default_config cenv"] assms obtain st' where
    "write_config cenv (default_config cenv) st = (Inr (), st')" "fst (read_config cenv st') = Inr (default_config cenv)"
    by (auto simp: store_ok_def)
  with assms show "fst (read_config cenv st) = Inr (default_config cenv)"
    "fst (read_config cenv (snd (read_config cenv st))) = Inr (default_config cenv)"
    by (simp_all add: read_config_def store_ok_def)
qed

lemma read_again:
  assumes "store_ok cenv st"
  shows "fst (read_config cenv (snd (read_config cenv st))) = fst (read_config cenv st)"
  using defaults_read [OF assms] read_keeps_file [of st cenv] by (cases "cs_file st") simp_all

lemma reset_read:
  assumes "store_ok cenv st"
  shows "fst (read_config cenv (snd (reset_config cenv st))) = Inr (default_config cenv)"
proof -
  have "store_ok cenv (st\<lparr>cs_file := None\<rparr>)" using assms by (simp add: store_ok_def)
  from defaults_read(2) [OF this] assms show ?thesis by (simp add: reset_config_def store_ok_def)
qed

section \<open>The simulation\<close>

lemma command_files:
  assumes "task_command t = Some c" "exec_command env caller c m = (r, m', evs)"
  shows "mc_files m' = mc_files m \<or> (\<exists>s d. t = TDelete s d \<and> mc_files m' = (mc_files m)(text_of s := None))"
  using machine_files [OF command [OF assms]] by auto

lemma quiet_command:
  assumes "task_command t = Some c" "exec_command env caller c m = (r, m', evs)" "store_ok (me_config env) (mc_config m)"
    and "task_request t = Internal \<or> (\<exists>p. task_request t = Remove p)"
  shows "spec_step (me_config env) (store_view env m) (task_request t) (store_view env m')"
proof -
  have "\<not> writes_config c" using assms(1,4) by (cases t) auto
  then have "mc_config m' = mc_config m \<or> mc_config m' = snd (read_config (me_config env) (mc_config m))"
    using assms(2) by (cases c) (auto simp: put_dir_def dest: launch_run_fields(2) split: prod.splits sum.splits)
  then have "fst (read_config (me_config env) (mc_config m')) = fst (read_config (me_config env) (mc_config m))"
    using read_again [OF assms(3)] by auto
  then have v: "store_view env m' = (store_view env m)\<lparr>sv_files := mc_files m'\<rparr>" by (simp add: store_view_def)
  have s: "(store_view env m)\<lparr>sv_files := mc_files m\<rparr> = store_view env m" by (simp add: store_view_def)
  from command_files [OF assms(1,2)] show ?thesis
  proof (elim disjE exE conjE)
    assume "mc_files m' = mc_files m"
    with v s assms(4) show ?thesis by (auto intro: spec_step.intros)
  next
    fix p d assume p: "t = TDelete p d" "mc_files m' = (mc_files m)(text_of p := None)"
    have "sv_files (store_view env m) = mc_files m" by (simp add: store_view_def)
    with p v removed [of "me_config env" "store_view env m" "text_of p"] show ?thesis by simp
  qed
qed

lemma view_config: "sv_config (store_view env m) = fst (read_config (me_config env) (mc_config m))"
  "store_view env (m\<lparr>mc_config := st\<rparr>) = (store_view env m)\<lparr>sv_config := fst (read_config (me_config env) st)\<rparr>"
  by (simp_all add: store_view_def)

lemma accepted_texts: "accepted c n \<Longrightarrow> config_texts (rust_config c n)"
  by (intro rust_config_texts) (simp add: accepted_def config_well_formed_def)

lemma arrives_simulates:
  assumes "wire_task t" "task_call (me_runtime env) t = Some call" "arrives env caller t call m = (r, m', evs)"
    and "store_ok (me_config env) (mc_config m)"
  shows "spec_step (me_config env) (store_view env m) (task_request t) (store_view env m')"
proof (cases "\<exists>c. t = TSaveConfig c")
  case True
  then obtain c where t: "t = TSaveConfig c" by blast
  show ?thesis
  proof (cases "\<exists>n. accepted c n")
    case True
    then obtain n where n: "accepted c n" by blast
    obtain st where st: "write_config (me_config env) (rust_config c n) (mc_config m) = (Inr (), st)"
      "fst (read_config (me_config env) st) = Inr (repair (me_config env) (rust_config c n))"
      using written_read [OF assms(4) accepted_texts [OF n]] by blast
    have "arrives env caller t call m = exec_command env caller (CWriteConfig (rust_config c n)) m"
      using n by (intro arrives_wire [OF assms(1) _ _ assms(2)]) (simp_all add: accepted_def t del: whole_len.simps task_texts.simps)
    then have "m' = m\<lparr>mc_config := st\<rparr>" using assms(3) st(1) by simp
    with saved [OF n, of "me_config env" "store_view env m"] st(2) show ?thesis by (simp add: t view_config(2))
  next
    case False
    then have "\<not> list_all well_formed (task_texts t) \<or> task_command t = None"
      by (auto simp: accepted_def t simp del: whole_len.simps task_texts.simps)
    then have "decode_command (me_config env) (inv_cmd call) (inv_payload call) = None"
      using wire_decodes [OF assms(1,2), of "me_config env"] by auto
    then have "m' = m" using assms(3) by (simp add: arrives_def)
    with rejected [OF False] show ?thesis by (simp add: t)
  qed
next
  case no_save: False
  show ?thesis
  proof (cases "t = TResetConfig")
    case True
    then have "m' = m\<lparr>mc_config := snd (reset_config (me_config env) (mc_config m))\<rparr>"
      using assms(3) arrives_wire [OF assms(1) _ _ assms(2), of CResetConfig caller m] by (auto split: prod.splits)
    with restored [of "me_config env" "store_view env m"] reset_read [OF assms(4)] True show ?thesis by (simp add: view_config(2))
  next
    case False
    have q: "task_request t = Internal \<or> (\<exists>p. task_request t = Remove p)" using no_save False by (cases t) auto
    from arrives_cases [OF assms(1,2), of caller m] show ?thesis
    proof (elim disjE exE conjE)
      fix c assume "task_command t = Some c" "arrives env caller t call m = exec_command env caller c m"
      with quiet_command [OF _ _ assms(4) q] assms(3) show ?thesis by simp
    qed (use q assms(3) in \<open>auto intro: spec_step.intros\<close>)
  qed
qed

lemma sys_simulates:
  assumes "sys.reach env m0 (ls, S)" "store_ok (me_config env) (mc_config (sy_machine S))" "sys_step env S l S'"
  shows "spec_step (me_config env) (store_view env (sy_machine S)) (request_of l) (store_view env (sy_machine S'))"
    and "store_ok (me_config env) (mc_config (sy_machine S'))"
proof -
  let ?m = "sy_machine S" and ?m' = "sy_machine S'"
  have "spec_step (me_config env) (store_view env ?m) (request_of l) (store_view env ?m') \<and> same_rights (mc_config ?m) (mc_config ?m')"
    using assms(1,3)
  proof (cases rule: store_step)
    case reads
    then have "store_view env ?m' = store_view env ?m" using read_again [OF assms(2)] by (auto simp: store_view_def)
    moreover have "request_of l = Internal" using reads(1) by (cases l) auto
    ultimately show ?thesis using reads(3) read_rights unseen by (auto simp: same_rights_def)
  next
    case (command t caller call r evs)
    have "same_rights (mc_config ?m) (mc_config ?m')"
      using arrives_cases [OF command(2,3), of caller ?m] command(4) command_config(1) by (fastforce simp: same_rights_def)
    with arrives_simulates [OF command(2-4) assms(2)] command(1) show ?thesis by auto
  qed
  then show "spec_step (me_config env) (store_view env ?m) (request_of l) (store_view env ?m')"
    "store_ok (me_config env) (mc_config ?m')" using store_ok_rights [OF assms(2)] by blast+
qed

lemma sys_reach_step: "sys.reach env m0 (ls, S) \<Longrightarrow> sys_step env S l S' \<Longrightarrow> sys.reach env m0 (ls @ [l], S')"
  using sys.reach_step [of env m0 "(ls, S)" "(ls @ [l], S')"] by (simp add: hist_step_def)

interpretation backed: forward_simulation
  "\<lambda>S. (\<exists>ls. sys.reach env m0 (ls, S)) \<and> store_ok (me_config env) (mc_config (sy_machine S))"
  "sys_step env" "\<lambda>S. store_view env (sy_machine S)" request_of "spec_step (me_config env)" for env m0
  by unfold_locales (blast intro: sys_reach_step sys_simulates)+

section \<open>Properties\<close>

text \<open>
  C3. The program implements the store. On a machine whose configuration file can be used and
  whose defaults are usable, every run of the program is a run of the specification: the files
  and the configuration that would be read at its end are those that the executed removals,
  saves and resets lead to in their order, and no other step of the program can be seen in them.
\<close>

theorem program_refines_store:
  assumes "store_ok (me_config env) (mc_config m0)" "sys.reach env m0 (ls, S)"
  shows "trace (spec_step (me_config env)) (store_view env m0) (map request_of ls) (store_view env (sy_machine S))"
proof -
  obtain S0 where S0: "sys_begin env m0 S0" "trace (sys_step env) S0 ls S" using reach_trace [OF assms(2)] by blast
  have "sys.reach env m0 ([], S0)" using S0(1) by (intro sys.reach_start) (simp add: hist_begin_def)
  with backed.refines [OF S0(2), of m0] S0(1) assms(1) show ?thesis by (auto simp: sys_begin_def)
qed

theorem program_refines_store_witness:
  "\<exists>S. (\<exists>ls. sys.reach demo_env demo_machine (ls, S)) \<and> trace (spec_step one_drive) (store_view demo_env demo_machine)
     [Internal, Internal, Internal, Save (form_config demo_saved)] (store_view demo_env (sy_machine S))"
proof -
  obtain S where r: "sys.reach demo_env demo_machine
      ([SUser (Navigate PSettings), SUser (CheckAutoScan False), SUser ClickSave, SExec (TSaveConfig (form_config demo_saved))], S)"
    using demo_saving_reach by blast
  have "config_texts (default_config one_drive)" unfolding config_texts_def by code_simp
  then have "store_ok (me_config demo_env) (mc_config demo_machine)"
    using one_drive_ok by (simp add: store_ok_def demo_env_def demo_machine_def empty_store_def)
  from program_refines_store [OF this r] r show ?thesis by (auto simp: demo_env_def)
qed

end
