(* ===== verification/Startup.thy ===== *)
theory Startup
  imports Commands
begin

text \<open>
  The start of the program: \<open>init_logging\<close> and \<open>main\<close> of \<open>src-tauri/src/main.rs\<close>, with the two
  log files over the sessions of the program, and the settings of \<open>vite.config.ts\<close> that the
  development server of the frontend is started with. Paths are Unix paths.
\<close>

section \<open>Where the logs are\<close>

datatype open_mode = AppendMode | WriteMode

type_synonym date = "int \<times> int \<times> int"

text \<open>
  What the operating system and the libraries answer: the path of the executable and the
  working directory, if they are known; whether a file can be opened once the directories have
  been created; year, month and day; the filter that \<open>RUST_LOG\<close> gives, absent if the variable is
  not set or not valid; and whether the event loop of the window ends without an error.
\<close>

record start_env =
  st_current_exe :: "int list option"
  st_current_dir :: "int list option"
  st_opens :: "open_mode \<Rightarrow> int list \<Rightarrow> bool"
  st_date :: date
  st_rust_log :: "int list option"
  st_run :: "unit result"

definition path_join :: "int list \<Rightarrow> int list \<Rightarrow> int list" where
  "path_join p q = (if p = [] \<or> last p = 47 then p @ q else p @ 47 # q)"

definition exe_dir :: "start_env \<Rightarrow> int list" where
  "exe_dir env =
     (case Option.bind (st_current_exe env) parent of
        Some d \<Rightarrow> d
      | None \<Rightarrow> (case st_current_dir env of Some d \<Rightarrow> d | None \<Rightarrow> js ''.''))"

definition logs_dir :: "start_env \<Rightarrow> int list" where
  "logs_dir env = path_join (exe_dir env) (js ''logs'')"

definition current_path :: "int list \<Rightarrow> int list" where
  "current_path dir = path_join dir (js ''SearchEvery.log'')"

text \<open>The format \<open>%Y-%d-%m\<close>: four digits, or a sign and all digits, for the year, two for day and month.\<close>

definition two_digits :: "int \<Rightarrow> int list" where
  "two_digits n = [48 + n div 10, 48 + n mod 10]"

definition year_text :: "int \<Rightarrow> int list" where
  "year_text y = (if y < 10000 then two_digits (y div 100) @ two_digits (y mod 100) else 43 # int_digits y)"

definition day_str :: "date \<Rightarrow> int list" where
  "day_str d = (case d of (year, month, day) \<Rightarrow> year_text year @ 45 # two_digits day @ 45 # two_digits month)"

definition daily_path :: "int list \<Rightarrow> date \<Rightarrow> int list" where
  "daily_path dir d = path_join dir (js ''SearchEvery-'' @ day_str d @ js ''.log'')"

section \<open>Opening the files\<close>

definition created :: "int list \<Rightarrow> disk \<Rightarrow> disk" where
  "created p files = files(p \<mapsto> (case files p of None \<Rightarrow> [] | Some b \<Rightarrow> b))"

text \<open>Append, else write from the start of the file, else panic.\<close>

definition open_log :: "start_env \<Rightarrow> int list \<Rightarrow> disk \<Rightarrow> open_mode option \<times> disk" where
  "open_log env p files =
     (if st_opens env AppendMode p then (Some AppendMode, created p files)
      else if st_opens env WriteMode p then (Some WriteMode, created p files)
      else (None, files))"

datatype sink = Console | LogFile open_mode "int list"

text \<open>
  The layers of the subscriber, the sinks whose guards are kept when the function has returned, and
  the filter. A sink without its guard has no thread that writes.
\<close>

record logging =
  lo_layers :: "sink list"
  lo_guards :: "sink list"
  lo_filter :: "int list"

datatype start_panic = LogFilePanic "int list" | RunPanic js_error

definition init_logging :: "start_env \<Rightarrow> disk \<Rightarrow> (start_panic + logging) \<times> disk" where
  "init_logging env files =
     (let cur = current_path (logs_dir env); daily = daily_path (logs_dir env) (st_date env)
      in case open_log env cur files of
           (None, files1) \<Rightarrow> (Inl (LogFilePanic cur), files1)
         | (Some m1, files1) \<Rightarrow>
             (case open_log env daily files1 of
                (None, files2) \<Rightarrow> (Inl (LogFilePanic daily), files2)
              | (Some m2, files2) \<Rightarrow>
                  (Inr \<lparr>lo_layers = [Console, LogFile m1 cur, LogFile m2 daily],
                        lo_guards = [LogFile m1 cur, LogFile m2 daily],
                        lo_filter = (case st_rust_log env of None \<Rightarrow> js ''info'' | Some f \<Rightarrow> f)\<rparr>, files2)))"

section \<open>A session\<close>

text \<open>What a file holds after the bytes of a session: at its end, or over its beginning.\<close>

definition written :: "open_mode \<Rightarrow> byte list \<Rightarrow> byte list \<Rightarrow> byte list" where
  "written m bs old = (case m of AppendMode \<Rightarrow> old @ bs | WriteMode \<Rightarrow> bs @ drop (length bs) old)"

fun write_sink :: "byte list \<Rightarrow> sink \<Rightarrow> disk \<Rightarrow> disk" where
  "write_sink bs Console files = files"
| "write_sink bs (LogFile m p) files = files(p := map_option (written m bs) (files p))"

text \<open>
  \<open>main\<close>: the logs are opened, the window runs and its handlers log the bytes \<open>bs\<close>; an
  error of the event loop is a panic at the end.
\<close>

definition main_session :: "start_env \<Rightarrow> byte list \<Rightarrow> disk \<Rightarrow> (start_panic + logging) \<times> disk" where
  "main_session env bs files =
     (case init_logging env files of
        (Inl e, files1) \<Rightarrow> (Inl e, files1)
      | (Inr lg, files1) \<Rightarrow>
          let files2 = fold (write_sink bs) (filter (\<lambda>s. s \<in> set (lo_guards lg)) (lo_layers lg)) files1
          in (case st_run env of Inl e \<Rightarrow> (Inl (RunPanic e), files2) | Inr _ \<Rightarrow> (Inr lg, files2)))"

fun sessions :: "(start_env \<times> byte list) list \<Rightarrow> disk \<Rightarrow> disk" where
  "sessions [] files = files"
| "sessions ((env, bs) # ss) files = sessions ss (snd (main_session env bs files))"

section \<open>The development server\<close>

text \<open>The settings of \<open>vite.config.ts\<close>; \<open>path.resolve\<close> is applied to the directory of the file, which is absolute.\<close>

record vite_settings =
  vc_plugins :: "string list"
  vc_alias :: "(string \<times> int list) list"
  vc_dedupe :: "string list"
  vc_port :: int

definition vite_config :: "int list \<Rightarrow> vite_settings" where
  "vite_config dirname =
     \<lparr>vc_plugins = [''react''],
      vc_alias = [(''react'', path_join dirname (js ''node_modules/react'')),
                  (''react-dom'', path_join dirname (js ''node_modules/react-dom''))],
      vc_dedupe = [''react'', ''react-dom''],
      vc_port = 5173\<rparr>"

text \<open>Where the window of \<open>tauri.conf.json\<close> looks for the frontend in development.\<close>

definition devPath :: "int list" where
  "devPath = js ''http://localhost:5173''"

lemma dev_server_found: "js ''http://localhost:'' @ int_digits (vc_port (vite_config dirname)) = devPath"
  unfolding vite_config_def by code_simp

text \<open>Each aliased package is the one copy beside the configuration, and is deduplicated too.\<close>

lemma one_react:
  "(name, target) \<in> set (vc_alias (vite_config dirname))
     \<Longrightarrow> target = path_join dirname (js ''node_modules/'' @ js name) \<and> name \<in> set (vc_dedupe (vite_config dirname))"
  by (auto simp: vite_config_def)

section \<open>Names of log files\<close>

definition valid_date :: "date \<Rightarrow> bool" where
  "valid_date d = (case d of (y, m, day) \<Rightarrow> 0 \<le> y \<and> y < 10000 \<and> 1 \<le> m \<and> m \<le> 12 \<and> 1 \<le> day \<and> day \<le> 31)"

lemma two_digits_eq: "two_digits a = two_digits b \<longleftrightarrow> a = b"
  by (simp add: two_digits_def) (metis mult_div_mod_eq)

lemma two_digits_length: "length (two_digits n) = 2"
  by (simp add: two_digits_def)

lemma year_text_eq: "y < 10000 \<Longrightarrow> z < 10000 \<Longrightarrow> year_text y = year_text z \<longleftrightarrow> y = z"
  by (auto simp: year_text_def two_digits_eq two_digits_def) (metis mult_div_mod_eq)

lemma year_text_length: "y < 10000 \<Longrightarrow> length (year_text y) = 4"
  by (simp add: year_text_def two_digits_def)

lemma path_join_eq: "path_join p q = path_join p r \<longleftrightarrow> q = r"
  by (simp add: path_join_def)

lemma day_str_eq:
  assumes "valid_date d" "valid_date d'"
  shows "day_str d = day_str d' \<longleftrightarrow> d = d'"
  using assms by (auto simp: valid_date_def day_str_def year_text_length year_text_eq two_digits_eq two_digits_length split: prod.splits)

lemma daily_path_eq: "valid_date d \<Longrightarrow> valid_date d' \<Longrightarrow> daily_path dir d = daily_path dir d' \<longleftrightarrow> d = d'"
  by (simp add: daily_path_def path_join_eq day_str_eq)

lemma daily_not_current: "daily_path dir d \<noteq> current_path dir"
  by (simp add: daily_path_def current_path_def path_join_eq)

section \<open>What the log files hold\<close>

abbreviation content :: "disk \<Rightarrow> int list \<Rightarrow> byte list" where
  "content files p \<equiv> (case files p of None \<Rightarrow> [] | Some b \<Rightarrow> b)"

lemma open_log_cases:
  "open_log env p files = (None, files) \<and> \<not> st_opens env AppendMode p \<and> \<not> st_opens env WriteMode p
    \<or> (\<exists>m. open_log env p files = (Some m, created p files) \<and> st_opens env m p)"
  by (auto simp: open_log_def)

text \<open>The program starts exactly when both log files can be opened in one of the two ways.\<close>

lemma main_starts:
  "(\<exists>lg. fst (main_session env bs files) = Inr lg)
     \<longleftrightarrow> (\<exists>m. st_opens env m (current_path (logs_dir env))) \<and> (\<exists>m. st_opens env m (daily_path (logs_dir env) (st_date env)))
       \<and> st_run env = Inr ()"
  by (auto simp: main_session_def init_logging_def open_log_def Let_def split: sum.splits prod.splits option.splits if_splits)
    (metis open_mode.exhaust)+

text \<open>The console is a layer of the subscriber, but its guard is gone once the program runs.\<close>

lemma console_silent:
  "fst (init_logging env files) = Inr lg \<Longrightarrow> Console \<in> set (lo_layers lg) \<and> Console \<notin> set (lo_guards lg)"
  by (auto simp: init_logging_def Let_def split: prod.splits option.splits)

lemma session_appends:
  assumes "st_opens env AppendMode (current_path (logs_dir env))"
    and "st_opens env AppendMode (daily_path (logs_dir env) (st_date env))"
  shows "content (snd (main_session env bs files)) p = content files p
    @ (if p = current_path (logs_dir env) \<or> p = daily_path (logs_dir env) (st_date env) then bs else [])"
  using assms daily_not_current [of "logs_dir env" "st_date env"]
  by (auto simp: main_session_def init_logging_def open_log_def created_def written_def Let_def split: sum.splits option.splits)

lemma session_frame:
  "p \<noteq> current_path (logs_dir env) \<Longrightarrow> p \<noteq> daily_path (logs_dir env) (st_date env) \<Longrightarrow> snd (main_session env bs files) p = files p"
  by (auto simp: main_session_def init_logging_def open_log_def created_def Let_def split: sum.splits)

text \<open>An installation: the sessions share their directory, and its log files can be appended to.\<close>

definition installed :: "int list \<Rightarrow> (start_env \<times> byte list) list \<Rightarrow> bool" where
  "installed dir ss \<longleftrightarrow> list_all (\<lambda>(env, bs). logs_dir env = dir \<and> valid_date (st_date env)
     \<and> st_opens env AppendMode (current_path dir) \<and> st_opens env AppendMode (daily_path dir (st_date env))) ss"


definition demo_session :: "date \<Rightarrow> start_env" where
  "demo_session d = \<lparr>st_current_exe = Some (js ''/opt/se/app''), st_current_dir = None, st_opens = (\<lambda>_ _. True), st_date = d,
     st_rust_log = None, st_run = Inr ()\<rparr>"


end
