(* ===== verification/Spec2Isabelle.thy ===== *)
theory Spec2Isabelle
  imports StringUtil PathUtil SizeUtil DateUtil Highlight Api Events ResultOrder AppTheorems Views
    PageProps Icons DupFlow Diagnostics EventFlow Wire SystemTheorems Refinement Startup
begin

text \<open>
  SearchEvery is a desktop program for searching local files: a React frontend under
  \<open>src/src\<close> talks to a Rust backend under \<open>src/src-tauri\<close> through the commands and
  events of the Tauri shell. This development models both, and their interplay.

  \<^bold>\<open>The parts and how they interact.\<close> The App component (\<open>src/src/App.tsx\<close>) holds all
  state. Its handlers call the functions of \<open>services/api.ts\<close>, each of which sends one
  command through \<open>safeInvoke\<close>, and the answers are stored with the state setters. Backend
  events reach the component through \<open>services/events.ts\<close> and the hook
  \<open>hooks/useTauriEvents.ts\<close>. The pages show the state with the help of \<open>utils/\<close>:
  highlighting, path shortening, sizes and dates. The roots and patterns the user edits are
  comma separated text that \<open>utils/string.ts\<close> parses. Constants come from
  \<open>constants/\<close> and the build environment. On the other side \<open>main.rs\<close> decodes the arguments
  of a command and calls one module: \<open>config.rs\<close> keeps the configuration file, \<open>scanner.rs\<close>
  walks directories, \<open>indexer.rs\<close> and \<open>pipeline.rs\<close> fill the full text index, \<open>search.rs\<close>
  asks it, \<open>dedup.rs\<close> groups equal files, \<open>diagnostics.rs\<close> reports, and a background loop with
  the state file of \<open>pipeline_state.rs\<close> scans once a day.

  \<^bold>\<open>Foundations.\<close> \<open>Prelude\<close> has strings as lists of UTF-16 code units, the collections of
  simplification rules, list lemmas and the locales \<open>transition_system\<close> of reachable states
  and \<open>terminating_system\<close> of step relations that lower a measure. \<open>JsNum\<close> has the numbers of the language: binary64 values with NaN and the
  infinities, operators that round to nearest even, \<open>toFixed\<close>, and lemmas that say when an
  operation is exact. A negative zero is not kept apart from zero; the program never divides
  by a zero or prints its sign. \<open>JsString\<close> has trim, split, join, slice and
  \<open>Number(s)\<close>; \<open>Regex\<close> has \<open>String.split\<close> and \<open>RegExp.test\<close> over an arbitrary
  matcher, and the matcher of an alternation of escaped literals, read back from the pattern
  text. The locales \<open>exact_matcher\<close> and \<open>covering_matcher\<close> say what a matcher must promise
  for splitting to keep and to cover the text. \<open>Utf8\<close> has the two UTF-8 decoders of Rust and
  what they make of a text that was cut. A Rust string is a list of Unicode scalar values; \<open>Utf16\<close>
  has the conversion at the border, an instance of the locale \<open>partial_codec\<close>: a text with an
  unpaired surrogate does not decode, and the command that carries it is rejected.

  \<^bold>\<open>Components.\<close>
  \<^item> \<open>StringUtil\<close> (\<open>utils/string.ts\<close>): \<open>parseCSV\<close>, \<open>joinCSV\<close>; the locale
    \<open>text_codec\<close> is the contract of a list kept as text.
  \<^item> \<open>PathUtil\<close> (\<open>utils/path.ts\<close>): \<open>shortenPath\<close>, its length and what it leaves out.
  \<^item> \<open>SizeUtil\<close> (\<open>utils/size.ts\<close>): \<open>formatBytes\<close> with its scaling loop, \<open>toBytesMb\<close>.
  \<^item> \<open>DateUtil\<close> (\<open>utils/date.ts\<close>): \<open>formatTs\<close>, \<open>formatRelativeTs\<close>.
  \<^item> \<open>Highlight\<close> (\<open>utils/highlight.tsx\<close>): the three modes of \<open>highlight\<close>.
  \<^item> \<open>Types\<close> (\<open>types.ts\<close>) and \<open>Runtime\<close> (\<open>constants/\<close>, \<open>utils/env.ts\<close>): the data
    and the constants.
  \<^item> \<open>Api\<close> (\<open>services/api.ts\<close>): \<open>safeInvoke\<close> and the payload of each command.
  \<^item> \<open>Events\<close> (\<open>services/events.ts\<close>, \<open>hooks/useTauriEvents.ts\<close>): one run of the
    subscription effect as a step relation, the hook across renders, and \<open>onEventOnce\<close>.
  \<^item> \<open>ResultOrder\<close> (\<open>sortedResults\<close> in \<open>App.tsx\<close>): the comparator, \<open>js_sort\<close> and
    the locale \<open>keyed_comparator\<close> of comparators that sort by a key.
  \<^item> \<open>AppModel\<close> (\<open>App.tsx\<close>): the record \<open>AppState\<close> has the state variables of the
    component; a handler \<open>f\<close> is a definition \<open>f\<close> for the part before its first await and
    one \<open>f_done\<close>, \<open>f_listening\<close> or \<open>f_scanned\<close> for each part after an await; a world
    adds the suspended handlers, the debounce timer and the scan listeners; \<open>app_step\<close>
    interleaves user actions, answers in any order, events and the timer. \<open>render_root\<close> is
    \<open>main.tsx\<close>: in development the effects of the first render run twice.
  \<^item> \<open>AppProps\<close>: the locale \<open>world_invariant\<close> and its interpretations, one per invariant.
  \<^item> \<open>AppTheorems\<close>: the properties of the component and runs that show its defects.
  \<^item> \<open>Views\<close> (the pages in \<open>App.tsx\<close>): the computed contents of the pages.
  \<^item> \<open>Captions\<close> and \<open>Pages\<close> (the markup of \<open>App.tsx\<close>, \<open>AboutPage.tsx\<close>, \<open>ThemeDropdown.tsx\<close>):
    the fixed texts, and the pages as trees of elements with their handlers; \<open>PageProps\<close> proves
    that the controls on the screen and the actions of \<open>AppModel\<close> are the same.
  \<^item> \<open>Shell\<close> (\<open>ThemeDropdown.tsx\<close>, \<open>logging.ts\<close>, \<open>useGlobalErrorLogging.ts\<close>,
    \<open>useFocusDebug.ts\<close>, \<open>useSearchHotkeys.ts\<close>): the theme menu and the logs; the locale \<open>listener_effect\<close> is the
    contract of an effect that registers listeners.
  \<^item> \<open>Icons\<close> (\<open>scripts/\<close>): the two scripts that draw the icons, over a disk.
  \<^item> \<open>Config\<close> (\<open>config.rs\<close>), \<open>Scanner\<close> (\<open>scanner.rs\<close> and \<open>scan_paths_progress\<close>), \<open>Dedup\<close>
    (\<open>dedup.rs\<close>), \<open>SearchBackend\<close> (\<open>search.rs\<close>), \<open>Diagnostics\<close> (\<open>diagnostics.rs\<close>): one
    definition per function and per loop, results as sums, panics as values of their own.
  \<^item> \<open>Startup\<close> (\<open>init_logging\<close> and \<open>main\<close> of \<open>main.rs\<close>, \<open>vite.config.ts\<close>): where the log files are, what
    they hold after a number of sessions, when the program does not start, and the settings of
    the development server.
  \<^item> \<open>IndexStore\<close> (\<open>indexer.rs\<close>, \<open>build_inverted_index_progress\<close>, \<open>delete_file_and_index\<close>):
    the index as the list of its committed documents.
  \<^item> \<open>Pipeline\<close> (\<open>pipeline.rs\<close>): the main task and its workers as the step relation
    \<open>pipe_step\<close>; a worker waits, writes, draws a number and announces it.
  \<^item> \<open>AutoScan\<close> (\<open>pipeline_state.rs\<close>, the loop of \<open>main.rs\<close>, \<open>start_auto_scan_now\<close>): the
    state file, a turn of the loop, and the runs that compete for the writer of the index.

  \<^bold>\<open>Across the border.\<close> \<open>Wire\<close> decodes the payloads of \<open>Api\<close> as the commands do.
  \<open>ConfigFlow\<close> follows a configuration from the form to the file and back, \<open>DupFlow\<close> the
  paths from a scan to the detection, \<open>PipelineFlow\<close> and \<open>EventFlow\<close> the events from the
  workers through the subscriptions to the state. This theory shows that the App component comes
  to rest.

  \<^bold>\<open>The whole program.\<close> \<open>Commands\<close> puts the backend together: a \<open>machine\<close> has the disk, the index
  of every directory, the configuration and the state file and the indexing runs, and \<open>exec_command\<close>
  is the dispatch of \<open>main.rs\<close> with the answers as the frontend reads them; \<open>open_location\<close> is there
  too. \<open>System\<close> composes it with the App component: in \<open>sys_step\<close> commands are executed some time
  after they were sent, answered in any order, given up by the timer and executed all the same, or
  sent again, while runs advance, events travel and the daily loop turns. The locale
  \<open>machine_invariant\<close> carries what the backend alone keeps to every state of the program.
  \<open>SystemProps\<close> has the invariants (one writer per index, where documents come from, which handler
  an answer belongs to). \<open>Settling\<close> shows that the program comes to rest when it is left
  alone: the locale \<open>settling_system\<close> is the contract of a step relation that lowers a
  lexicographic weight and is stuck at rest only, and the whole program is an instance of it.
  \<open>SystemTheorems\<close> has the theorems, with scripts that run the program on a small machine, and
  \<open>Restart\<close> follows the configuration file through a session into the next one. \<open>Refinement\<close> states
  what the program promises about files and configuration as the abstract machine \<open>spec_step\<close> and
  shows, as an instance of the locale \<open>forward_simulation\<close>, that every run of the program is one of it.

  \<^bold>\<open>What the theorems show.\<close> The text utilities are exact: lists survive their text form
  exactly when they can, shortened paths fit and are honest, sizes are accurate to half a
  digit although computed in floating point, relative times agree with integer arithmetic,
  highlighting shows the text unchanged and marks every occurrence. The retry loop and the
  subscription effect end after a bounded number of calls. The result list is a stable sort.
  Over every interleaving, the selected result is listed, the busy flag has a cause, requests
  are clean and the browser preview is inert; saving and loading a configuration agree and a
  deletion updates the groups exactly. Every page renders in every state and offers exactly the
  actions of the model. In the whole program a file disappears only after the user has confirmed
  its deletion, every result shown names a file that was on the disk, each index has one writer at a
  time, no handler is ever stuck, the program comes to rest in every order of its own steps, and
  settings survive the end of a session; as a store of files and settings it implements an abstract
  machine with three requests. Every
  command sent is one the backend decodes to what was meant. The backend's scan, search filters,
  duplicate groups and repaired configuration are exact; every interleaving of the pipeline ends
  and indexes each accepted file once; the daily loop runs once a day. Other theorems prove that the code does less than it means to: the listeners that leak, the stale
  results after answers out of order, overlapping indexing runs, the hook that exists on one
  page only, groups in patterns that show text twice, documents that are never deleted or
  replaced, a deletion that is half done during an indexing run, files that duplicate themselves, a progress display that never ends, filters that
  come after the limit, and a sampling rate of zero that panics.

  \<^bold>\<open>Parameters.\<close> The Unicode case tables (\<open>canon\<close>, \<open>lower\<close>) and the compiler of typed
  patterns (\<open>compile\<close>) in \<open>Highlight\<close>; the clock and the locale in \<open>DateUtil\<close>; the
  environment variables in \<open>Runtime\<close>; the outcome of each backend call in \<open>Api\<close> and
  \<open>AppModel\<close>; \<open>listen\<close> in \<open>EventFlow\<close>. In the backend: the directory walk with metadata and
  clock readings (\<open>scan_env\<close>), files, hash function and iteration order (\<open>dedup_env\<close>), drives and
  directories (\<open>config_env\<close>), the ranking of the index library (\<open>opened_index\<close>), its tokenizer and
  which of its calls fail (\<open>index_env\<close>), the image libraries (\<open>image_lib\<close>), the paths, rights and clock at the start (\<open>start_env\<close>); \<open>machine_env\<close> collects
  them for the whole program, as functions of the disk and the indexes. The hypotheses on
  them are \<open>walk_sound\<close>, that a walk lists files of the disk, \<open>library_sound\<close>, that a search returns
  documents of the index, \<open>splits_paths\<close>, that no token of a path has a separator in it, that a hash map is
  iterated over each entry once, and that the library hands out one writer at a time, which
  \<open>AutoScan\<close> has built in. The setters of the component are taken as assignments that act in order, and
  a handler reads the values of the render that created it.

  \<^bold>\<open>Bounds and fuel.\<close> There is no fuel. \<open>invoke_loop\<close> is a partial function whose result
  is proved to exist for every finite number of retries; all other loops are total with a
  measure. Lengths and limits up to \<open>2 ^ 52\<close> keep the arithmetic of \<open>shortenPath\<close> exact.

  \<^bold>\<open>Not modelled.\<close> Styles, icons and placeholders; the event loop of the window behind
  \<open>tauri::Builder\<close>, of which only the commands, the events and the outcome are used; the text of the log
  records, of which the sampling rate and the files they go to are modelled; the shell scripts that
  start the build tools; rounding of the processor loads and of the
  scores to 32 bits. In the composed program a command other than an
  indexing run takes effect at one moment, a run takes its list of files when it begins, no other
  program touches the disk, the number of retries is not counted, and index directories are told
  apart by their spelling; all runs of \<open>AutoScan\<close> use one index directory.
\<close>

section \<open>Every pending handler comes to its end\<close>

fun is_answer :: "label \<Rightarrow> bool" where
  "is_answer (LAnswer _ _) = True"
| "is_answer _ = False"

lemma answer_stages:
  assumes "is_answer l" "exec inTauri l w = Some w'"
  shows "pending_stages w' < pending_stages w"
proof -
  obtain i v where l: "l = LAnswer i v" using assms(1) by (cases l) auto
  with assms(2) obtain t ys w1 where d: "drop i (tasks w) = t # ys"
    "resume t v (w\<lparr>tasks := take i (tasks w) @ ys\<rparr>) = Some w1" "w' = debounce inTauri (app w) w1"
    by (auto split: list.splits)
  have "tasks w = take i (tasks w) @ t # ys" using d(1) append_take_drop_id [of i "tasks w"] by simp
  then have "pending_stages w = sum_list (map stages (take i (tasks w))) + stages t + sum_list (map stages ys)"
    by (metis pending_stages_def map_append list.simps(9) sum_list.append sum_list.Cons add.assoc)
  with resume_stages [OF d(2)] d(3) show ?thesis by (simp add: pending_stages_def)
qed

lemma answers_bounded:
  "exec_all inTauri ls w = Some w' \<Longrightarrow> list_all is_answer ls \<Longrightarrow> length ls + pending_stages w' \<le> pending_stages w"
proof (induction ls arbitrary: w)
  case (Cons l ls)
  then obtain w1 where w1: "exec inTauri l w = Some w1" "exec_all inTauri ls w1 = Some w'"
    by (auto split: option.splits)
  from answer_stages [OF _ w1(1)] Cons.IH [OF w1(2)] Cons.prems(2) show ?case by simp
qed simp

text \<open>An answer of the right type, a rejection, exists for every handler.\<close>

lemma resume_rejects: "\<exists>v w'. resume t v w = Some w'"
  by (cases t) (auto intro: exI [of _ "RUnit (Inl Undefined)"] exI [of _ "RConfig (Inl Undefined)"]
      exI [of _ "RFiles (Inl Undefined)"] exI [of _ "RResults (Inl Undefined)"]
      exI [of _ "RDiag (Inl Undefined)"] exI [of _ "RSelection (Inl Undefined)"]
      exI [of _ "RGroups (Inl Undefined)"])

lemma some_answer:
  assumes "tasks w \<noteq> []"
  shows "\<exists>v w'. exec inTauri (LAnswer 0 v) w = Some w'"
proof -
  obtain t ys where t: "tasks w = t # ys" using assms by (cases "tasks w") auto
  obtain v w1 where "resume t v (w\<lparr>tasks := ys\<rparr>) = Some w1" using resume_rejects by blast
  with t show ?thesis by (intro exI [of _ v]) simp
qed

lemma answers_drain:
  "\<exists>ls w'. list_all is_answer ls \<and> exec_all inTauri ls w = Some w' \<and> tasks w' = []"
proof (induction "pending_stages w" arbitrary: w rule: less_induct)
  case less
  show ?case
  proof (cases "tasks w = []")
    case True
    then show ?thesis by (intro exI [of _ "[]"]) simp
  next
    case False
    then obtain v w1 where w1: "exec inTauri (LAnswer 0 v) w = Some w1" using some_answer by blast
    have "is_answer (LAnswer 0 v)" by simp
    from less.hyps [OF answer_stages [OF this w1]] obtain ls w' where
      "list_all is_answer ls" "exec_all inTauri ls w1 = Some w'" "tasks w' = []" by blast
    then show ?thesis using w1
      by (intro exI [of _ "LAnswer 0 v # ls"] exI [of _ w']) (simp del: exec.simps)
  qed
qed

lemma task_call_settles:
  assumes "task_call e t = Some call" "env_lookup e ''VITE_INVOKE_RETRIES'' = None"
  shows "\<exists>r n. safeInvoke race call = Some (r, n) \<and> 1 \<le> n \<and> n \<le> 2"
proof -
  have d: "def_retries (INVOKE_DEFAULTS e) = Fin 0"
    using assms(2) by (simp add: INVOKE_DEFAULTS_def env_number_def Let_def)
  have "inv_retries call = Fin 0 \<or> inv_retries call = Fin 1"
    using assms(1) d by (cases t) (auto simp: readConfig_def scanPathsProgress_def buildInvertedIndex_def
        scanAndIndexPipeline_def writeConfig_def resetConfig_def searchQuery_def diagnosticsReport_def
        detectDuplicates_def deleteFileAndIndex_def startAutoScanNow_def openLocation_def mk_invocation_def)
  then obtain n f where n: "n = 1 \<or> n = 2" "safeInvoke race call = Some (retry_spec f n)"
    using safeInvoke_loop [of call 0 1 race] safeInvoke_loop [of call 1 2 race] by auto
  then have "0 < n" by auto
  with n retry_spec_bound [of n f] show ?thesis by (metis le_trans one_le_numeral order_refl prod.collapse)
qed

section \<open>Shortened paths and characters\<close>

text \<open>\<open>shortenPath\<close> cuts between code units and may leave half of a surrogate pair.\<close>

lemma shortenPath_splits_pair:
  "\<exists>p. well_formed p \<and> \<not> well_formed (shortenPath p (Fin 14))"
proof -
  let ?p = "concat (replicate 8 [55357, 56832])"
  have "well_formed ?p" "\<not> well_formed (shortenPath ?p (Fin 14))" by code_simp+
  then show ?thesis by blast
qed

section \<open>Properties across components\<close>



end
